(* ===== verification/Prelude.thy ===== *)
theory Prelude
  imports Main
begin

text \<open>
  Shared vocabulary of the development: the Python exceptions the program can raise
  (\<open>py_exc\<close>), the result type of a Python call that may raise (\<open>'a py_result\<close>, with
  \<open>Inl\<close> the exception), the decimal rendering of natural numbers that both
  \<open>str(int)\<close> and the \<open>%Y\<close>/\<open>%d\<close> conversions of \<open>strftime\<close> produce, and the
  generic lemmas on lists, sums and decimal strings that the component theories share.
  The collection \<open>py_eval\<close> gathers the evaluation rules of the runtime model
  (JSON subscripting, \<open>int()\<close>, the calendar) so that component proofs can say
  \<open>simp add: py_eval\<close>.
\<close>

named_theorems py_eval "evaluation rules of the Python runtime model"

section \<open>Python exceptions and results\<close>

text \<open>
  The exceptions that the program, or the library calls it makes, can raise. Each one is
  a branch of the model: a function that may raise returns \<open>Inl\<close> of the exception.
  \<open>SystemExit\<close> carries the exit status argument (\<open>exit()\<close> passes none).
\<close>

datatype py_exc =
    KeyError
  | IndexError
  | TypeError
  | ValueError
  | EOFError
  | JSONDecodeError
  | ConnectionError
  | OverflowError
  | RuntimeError
  | SystemExit "int option"

type_synonym 'a py_result = "py_exc + 'a"

text \<open>The process exit status of an exception that reaches the top level.\<close>

fun exit_status :: "'a py_result \<Rightarrow> int" where
  "exit_status (Inr _) = 0"
| "exit_status (Inl (SystemExit None)) = 0"
| "exit_status (Inl (SystemExit (Some c))) = c"
| "exit_status (Inl _) = 1"

section \<open>Decimal digits\<close>

definition digit_char :: "nat \<Rightarrow> char" where
  "digit_char n = char_of (48 + n)"

definition is_dec_digit :: "char \<Rightarrow> bool" where
  "is_dec_digit c \<longleftrightarrow> (48::nat) \<le> of_char c \<and> of_char c \<le> (57::nat)"

definition digit_value :: "char \<Rightarrow> nat" where
  "digit_value c = of_char c - 48"

text \<open>Decimal rendering of a natural number, most significant digit first, no padding.\<close>

fun show_nat :: "nat \<Rightarrow> string" where
  "show_nat n = (if n < 10 then [digit_char n] else show_nat (n div 10) @ [digit_char (n mod 10)])"

declare show_nat.simps [simp del]

text \<open>\<open>str(i)\<close> of a Python integer: a minus sign, then the digits of its magnitude.\<close>

definition show_int :: "int \<Rightarrow> string" where
  "show_int i = (if i < 0 then ''-'' @ show_nat (nat (- i)) else show_nat (nat i))"

text \<open>The value of a string of decimal digits, read most significant first.\<close>

definition digits_value :: "string \<Rightarrow> nat" where
  "digits_value cs = foldl (\<lambda>acc c. 10 * acc + digit_value c) 0 cs"

lemma digit_char_is_dec_digit [simp]: "n < 10 \<Longrightarrow> is_dec_digit (digit_char n)"
  by (simp add: digit_char_def is_dec_digit_def)

lemma digit_value_digit_char [simp]: "n < 10 \<Longrightarrow> digit_value (digit_char n) = n"
  by (simp add: digit_char_def digit_value_def)

lemma digits_value_snoc [simp]:
  "digits_value (cs @ [c]) = 10 * digits_value cs + digit_value c"
  by (simp add: digits_value_def)

lemma digits_value_Nil [simp]: "digits_value [] = 0"
  by (simp add: digits_value_def)

lemma show_nat_small [simp]: "n < 10 \<Longrightarrow> show_nat n = [digit_char n]"
  by (simp add: show_nat.simps)

lemma show_nat_big: "10 \<le> n \<Longrightarrow> show_nat n = show_nat (n div 10) @ [digit_char (n mod 10)]"
  by (simp add: show_nat.simps [of n])

lemma show_nat_digits: "\<forall>c \<in> set (show_nat n). is_dec_digit c"
proof (induction n rule: show_nat.induct)
  case (1 n)
  then show ?case by (cases "n < 10") (auto simp: show_nat_big)
qed

lemma show_nat_not_Nil [simp]: "show_nat n \<noteq> []"
  by (simp add: show_nat.simps [of n])

lemma digits_value_show_nat [simp]: "digits_value (show_nat n) = n"
proof (induction n rule: show_nat.induct)
  case (1 n)
  show ?case
  proof (cases "n < 10")
    case True
    then show ?thesis by (simp add: digits_value_def)
  next
    case False
    with "1.IH" show ?thesis by (simp add: show_nat_big)
  qed
qed

lemma show_nat_inj: "show_nat m = show_nat n \<longleftrightarrow> m = n"
  by (metis digits_value_show_nat)

lemma length_show_nat_le: "length (show_nat n) \<le> k \<longleftrightarrow> n < 10 ^ k \<and> 0 < k"
proof (induction n arbitrary: k rule: show_nat.induct)
  case (1 n)
  show ?case
  proof (cases "n < 10")
    case True
    then show ?thesis
      by (cases k) (auto intro: less_le_trans [of n 10])
  next
    case False
    then have "length (show_nat n) = Suc (length (show_nat (n div 10)))"
      by (simp add: show_nat_big)
    moreover have "(n div 10 < 10 ^ j \<and> 0 < j) \<longleftrightarrow> n < 10 ^ Suc j" for j
      using False by (cases j) (auto simp: less_mult_imp_div_less div_less_iff_less_mult)
    ultimately show ?thesis
      using "1.IH" [OF False] False by (cases k) auto
  qed
qed

section \<open>Lists\<close>

lemma takeWhile_append_stop:
  "ys = [] \<or> \<not> P (hd ys) \<Longrightarrow> takeWhile P (xs @ ys) = takeWhile P xs"
  by (induction xs) (cases ys; auto)+

lemma dropWhile_append_stop:
  "ys = [] \<or> \<not> P (hd ys) \<Longrightarrow> dropWhile P (xs @ ys) = dropWhile P xs @ ys"
  by (induction xs) (cases ys; auto)+

lemma dropWhile_append_all:
  "\<forall>x \<in> set xs. P x \<Longrightarrow> dropWhile P (xs @ ys) = dropWhile P ys"
  by (induction xs) auto

section \<open>Sums\<close>

lemma Inr_eq_case_sum_iff:
  "(case x of Inl e \<Rightarrow> Inl e | Inr a \<Rightarrow> f a) = Inr b \<longleftrightarrow> (\<exists>a. x = Inr a \<and> f a = Inr b)"
  by (cases x) auto

end
