(* ===== verification/Calendar.thy ===== *)
theory Calendar
  imports Prelude
begin

text \<open>
  The part of Python's \<open>datetime\<close> module that \<open>main\<close> in \<^verbatim>\<open>src/reserve.py\<close>
  relies on, modelled from the library's reference implementation
  (\<^verbatim>\<open>_pydatetime.py\<close>, whose C accelerator computes the same values):
  the proleptic Gregorian calendar as ordinals (\<open>_ymd2ord\<close>, \<open>_ord2ymd\<close> with its
  400/100/4/1-year cycle decomposition and its month estimate \<open>(n + 50) >> 5\<close>),
  \<open>datetime + timedelta(days=k)\<close> with its \<open>OverflowError\<close> past year 9999,
  \<open>weekday()\<close> (Monday is 0), and the one \<open>strftime\<close> format the program uses,
  \<open>"%Y-%m-%dT00:00:00"\<close>, where glibc prints \<open>%Y\<close> without padding and
  \<open>%m\<close>, \<open>%d\<close> as two digits.
  Main results: \<open>ord2ymd\<close> yields a valid date whose ordinal is its argument (the
  round trip \<open>toordinal (fromordinal n) = n\<close>), adding days shifts the weekday by the
  same amount modulo 7, and the rendered date strings of distinct ordinals differ.
\<close>

section \<open>Calendar arithmetic (\<open>_pydatetime\<close>)\<close>

text \<open>
  Python's \<open>_DAYS_IN_MONTH\<close> starts with a placeholder \<open>-1\<close> at index 0 that is
  never read; it is 0 here. \<open>_DAYS_BEFORE_MONTH\<close> is computed from it by the same
  running sum as the module's loop.
\<close>

definition MAXORDINAL :: nat where
  "MAXORDINAL = 3652059"

definition DAYS_IN_MONTH :: "nat list" where
  "DAYS_IN_MONTH = [0, 31, 28, 31, 30, 31, 30, 31, 31, 30, 31, 30, 31]"

fun prefix_sums :: "nat \<Rightarrow> nat list \<Rightarrow> nat list" where
  "prefix_sums acc [] = []"
| "prefix_sums acc (x # xs) = acc # prefix_sums (acc + x) xs"

definition DAYS_BEFORE_MONTH :: "nat list" where
  "DAYS_BEFORE_MONTH = 0 # prefix_sums 0 (tl DAYS_IN_MONTH)"

definition is_leap :: "nat \<Rightarrow> bool" where
  "is_leap year \<longleftrightarrow> year mod 4 = 0 \<and> (year mod 100 \<noteq> 0 \<or> year mod 400 = 0)"

definition days_before_year :: "nat \<Rightarrow> nat" where
  "days_before_year year = (let y = year - 1 in y * 365 + y div 4 - y div 100 + y div 400)"

definition days_in_month :: "nat \<Rightarrow> nat \<Rightarrow> nat" where
  "days_in_month year month =
     (if month = 2 \<and> is_leap year then 29 else DAYS_IN_MONTH ! month)"

definition days_before_month :: "nat \<Rightarrow> nat \<Rightarrow> nat" where
  "days_before_month year month =
     DAYS_BEFORE_MONTH ! month + (if month > 2 \<and> is_leap year then 1 else 0)"

definition ymd2ord :: "nat \<Rightarrow> nat \<Rightarrow> nat \<Rightarrow> nat" where
  "ymd2ord year month day = days_before_year year + days_before_month year month + day"

definition DI400Y :: nat where "DI400Y = days_before_year 401"
definition DI100Y :: nat where "DI100Y = days_before_year 101"
definition DI4Y :: nat where "DI4Y = days_before_year 5"

definition ord2ymd_month :: "bool \<Rightarrow> nat \<Rightarrow> nat \<times> nat" where
  "ord2ymd_month leapyear n =
     (let month = drop_bit 5 (n + 50);
          preceding = DAYS_BEFORE_MONTH ! month + (if month > 2 \<and> leapyear then 1 else 0)
      in if preceding > n then
           (let month' = month - 1;
                preceding' = preceding - (DAYS_IN_MONTH ! month' + (if month' = 2 \<and> leapyear then 1 else 0))
            in (month', n - preceding' + 1))
         else (month, n - preceding + 1))"

definition ord2ymd :: "nat \<Rightarrow> nat \<times> nat \<times> nat" where
  "ord2ymd n =
     (let r0 = n - 1;
          n400 = r0 div DI400Y; r1 = r0 mod DI400Y;
          year = n400 * 400 + 1;
          n100 = r1 div DI100Y; r2 = r1 mod DI100Y;
          n4 = r2 div DI4Y; r3 = r2 mod DI4Y;
          n1 = r3 div 365; r4 = r3 mod 365;
          year = year + n100 * 100 + n4 * 4 + n1
      in if n1 = 4 \<or> n100 = 4 then (year - 1, 12, 31)
         else (let leapyear = (n1 = 3 \<and> (n4 \<noteq> 24 \<or> n100 = 3));
                   (month, day) = ord2ymd_month leapyear r4
               in (year, month, day)))"

definition valid_ymd :: "nat \<Rightarrow> nat \<Rightarrow> nat \<Rightarrow> bool" where
  "valid_ymd year month day \<longleftrightarrow>
     1 \<le> year \<and> 1 \<le> month \<and> month \<le> 12 \<and> 1 \<le> day \<and> day \<le> days_in_month year month"


section \<open>\<open>datetime\<close> values\<close>

text \<open>
  A naive \<open>datetime\<close>: the date fields and the time of day (microseconds since
  midnight), which adding whole days carries over unchanged.
\<close>

record py_datetime =
  dt_year :: nat
  dt_month :: nat
  dt_day :: nat
  dt_time :: nat

definition toordinal :: "py_datetime \<Rightarrow> nat" where
  "toordinal dt = ymd2ord (dt_year dt) (dt_month dt) (dt_day dt)"

definition fromordinal :: "nat \<Rightarrow> nat \<Rightarrow> py_datetime" where
  "fromordinal n t = (case ord2ymd n of (y, m, d) \<Rightarrow>
     \<lparr>dt_year = y, dt_month = m, dt_day = d, dt_time = t\<rparr>)"

text \<open>\<open>datetime.weekday()\<close>: Monday is 0, Sunday is 6.\<close>

definition weekday :: "py_datetime \<Rightarrow> nat" where
  "weekday dt = (toordinal dt + 6) mod 7"

text \<open>
  \<open>dt + timedelta(days=k)\<close> for \<open>k \<ge> 0\<close>: the ordinal of the result must lie in
  \<open>1..MAXORDINAL\<close> (31 December 9999), otherwise \<open>OverflowError\<close>.
\<close>

definition add_days :: "py_datetime \<Rightarrow> nat \<Rightarrow> py_datetime py_result" where
  "add_days dt k =
     (let n = toordinal dt + k
      in if 0 < n \<and> n \<le> MAXORDINAL then Inr (fromordinal n (dt_time dt)) else Inl OverflowError)"

text \<open>\<open>%m\<close> and \<open>%d\<close>: two decimal digits, zero padded.\<close>

definition fmt2 :: "nat \<Rightarrow> string" where
  "fmt2 n = [digit_char (n div 10), digit_char (n mod 10)]"

text \<open>\<open>current_date.strftime("%Y-%m-%dT00:00:00")\<close> (reserve.py, line 63).\<close>

definition date_str :: "py_datetime \<Rightarrow> string" where
  "date_str dt = show_nat (dt_year dt) @ ''-'' @ fmt2 (dt_month dt) @ ''-'' @ fmt2 (dt_day dt) @ ''T00:00:00''"


section \<open>Properties\<close>

subsection \<open>Constants and cycle decomposition\<close>

lemma DAYS_BEFORE_MONTH_eq:
  "DAYS_BEFORE_MONTH = [0, 0, 31, 59, 90, 120, 151, 181, 212, 243, 273, 304, 334]"
  by (simp add: DAYS_BEFORE_MONTH_def DAYS_IN_MONTH_def)

lemma DI_consts: "DI400Y = 146097" "DI100Y = 36524" "DI4Y = 1461"
  by (simp_all add: DI400Y_def DI100Y_def DI4Y_def days_before_year_def)

lemma days_before_year_decomp:
  assumes "b \<le> 3" "c \<le> 24" "e \<le> 3"
  shows "days_before_year (400 * a + 100 * b + 4 * c + e + 1) = 146097 * a + 36524 * b + 1461 * c + 365 * e"
proof -
  let ?y = "400 * a + 100 * b + 4 * c + e"
  have d4: "?y div 4 = 100 * a + 25 * b + c"
    using assms by (intro div_nat_eqI) auto
  have d100: "?y div 100 = 4 * a + b"
    using assms by (intro div_nat_eqI) auto
  have d400: "?y div 400 = a"
    using assms by (intro div_nat_eqI) auto
  show ?thesis
    by (simp add: days_before_year_def d4 d100 d400 Let_def)
qed

lemma ord2ymd_month_ok:
  assumes "n < 365" "ord2ymd_month lp n = (m, d)"
  shows "1 \<le> m \<and> m \<le> 12 \<and> 1 \<le> d \<and>
         d \<le> (if m = 2 \<and> lp then 29 else DAYS_IN_MONTH ! m) \<and>
         DAYS_BEFORE_MONTH ! m + (if m > 2 \<and> lp then 1 else 0) + d = n + 1"
proof -
  define k where "k = (n + 50) div 32"
  have k: "k = 1 \<or> k = 2 \<or> k = 3 \<or> k = 4 \<or> k = 5 \<or> k = 6 \<or> k = 7 \<or> k = 8 \<or> k = 9 \<or> k = 10 \<or> k = 11 \<or> k = 12"
  proof -
    have "32 div 32 \<le> k" "k \<le> 414 div 32"
      unfolding k_def using assms(1) by (intro div_le_mono; simp)+
    then show ?thesis by presburger
  qed
  have kb: "32 * k \<le> n + 50" "n + 50 < 32 * k + 32"
    unfolding k_def by linarith+
  have est: "drop_bit 5 (n + 50) = k"
    by (simp add: k_def drop_bit_eq_div)
  from k show ?thesis
    using assms kb
    by (elim disjE) (auto simp: ord2ymd_month_def est DAYS_BEFORE_MONTH_eq DAYS_IN_MONTH_def
        Let_def split: if_splits)
qed

lemma mod_eq_0_small: "0 < (x::nat) \<Longrightarrow> x \<le> m \<Longrightarrow> x mod m = 0 \<longleftrightarrow> x = m"
  by (cases "x = m") auto

lemma leap_decomp:
  assumes "b \<le> (3::nat)" "c \<le> 24" "e \<le> 3"
  shows "is_leap (400 * a + 100 * b + 4 * c + e + 1) \<longleftrightarrow> e = 3 \<and> (c \<noteq> 24 \<or> b = 3)"
proof -
  let ?y = "400 * a + 100 * b + 4 * c + e + 1"
  have "?y = (e + 1) + 4 * (100 * a + 25 * b + c)" by simp
  then have m4: "?y mod 4 = (e + 1) mod 4" by (metis mod_mult_self2)
  have "?y = (4 * c + e + 1) + 100 * (4 * a + b)" by simp
  then have m100: "?y mod 100 = (4 * c + e + 1) mod 100" by (metis mod_mult_self2)
  have "?y = (100 * b + 4 * c + e + 1) + 400 * a" by simp
  then have m400: "?y mod 400 = (100 * b + 4 * c + e + 1) mod 400" by (metis mod_mult_self2)
  have "(e + 1) mod 4 = 0 \<longleftrightarrow> e = 3"
    using assms by (subst mod_eq_0_small) auto
  moreover have "(4 * c + e + 1) mod 100 = 0 \<longleftrightarrow> c = 24 \<and> e = 3"
  proof -
    have "4 * c + e + 1 = 100 \<longleftrightarrow> c = 24 \<and> e = 3" using assms by arith
    then show ?thesis using assms by (subst mod_eq_0_small) auto
  qed
  moreover have "(100 * b + 4 * c + e + 1) mod 400 = 0 \<longleftrightarrow> b = 3 \<and> c = 24 \<and> e = 3"
  proof -
    have "100 * b + 4 * c + e + 1 = 400 \<longleftrightarrow> b = 3 \<and> c = 24 \<and> e = 3" using assms by arith
    then show ?thesis using assms by (subst mod_eq_0_small) auto
  qed
  ultimately show ?thesis
    unfolding is_leap_def m4 m100 m400 by auto
qed

lemma is_leap_400: "is_leap (400 * k)"
  unfolding is_leap_def by simp

lemma ord2ymd_correct:
  assumes "1 \<le> n" "ord2ymd n = (y, m, d)"
  shows "ymd2ord y m d = n \<and> valid_ymd y m d"
proof -
  define r0 where "r0 = n - 1"
  define a where "a = r0 div 146097"
  define r1 where "r1 = r0 mod 146097"
  define b where "b = r1 div 36524"
  define r2 where "r2 = r1 mod 36524"
  define c where "c = r2 div 1461"
  define r3 where "r3 = r2 mod 1461"
  define e where "e = r3 div 365"
  define r where "r = r3 mod 365"
  have dec: "r0 = 146097 * a + 36524 * b + 1461 * c + 365 * e + r"
    unfolding a_def r1_def b_def r2_def c_def r3_def e_def r_def by simp
  have r1: "r1 < 146097" unfolding r1_def by simp
  have r2: "r2 < 36524" unfolding r2_def by simp
  have r3: "r3 < 1461" unfolding r3_def by simp
  have rr: "r < 365" unfolding r_def by simp
  have b4: "b \<le> 4" "b = 4 \<Longrightarrow> r2 = 0"
    using r1 div_mult_mod_eq [of r1 36524] unfolding b_def r2_def by linarith+
  have c24: "c \<le> 24" "c = 24 \<Longrightarrow> r3 < 1460"
    using r2 div_mult_mod_eq [of r2 1461] unfolding c_def r3_def by linarith+
  then have c24e: "c = 24 \<Longrightarrow> e \<le> 3"
    unfolding e_def using div_le_mono [of r3 1459 365] by simp
  have e4: "e \<le> 4" "e = 4 \<Longrightarrow> r = 0"
    using r3 div_mult_mod_eq [of r3 365] unfolding e_def r_def by linarith+
  have ord: "ord2ymd n =
      (if e = 4 \<or> b = 4 then (400 * a + 100 * b + 4 * c + e, 12, 31)
       else (let (month, day) = ord2ymd_month (e = 3 \<and> (c \<noteq> 24 \<or> b = 3)) r
             in (400 * a + 100 * b + 4 * c + e + 1, month, day)))"
    unfolding ord2ymd_def DI_consts Let_def a_def r1_def b_def r2_def c_def r3_def e_def r_def r0_def
    by (simp add: algebra_simps)
  show ?thesis
  proof (cases "b = 4")
    case True
    then have z: "c = 0" "e = 0" "r = 0"
      using b4 unfolding c_def r3_def e_def r_def by auto
    have y: "y = 400 * (a + 1)" "m = 12" "d = 31"
      using assms(2) ord True z by auto
    have "days_before_year (400 * a + 100 * 3 + 4 * 24 + 3 + 1) = 146097 * a + 36524 * 3 + 1461 * 24 + 365 * 3"
      by (rule days_before_year_decomp) auto
    moreover have "is_leap (400 * (a + 1))"
      by (rule is_leap_400)
    ultimately show ?thesis
      using dec z True assms(1) r0_def y
      by (simp add: ymd2ord_def days_before_month_def DAYS_BEFORE_MONTH_eq valid_ymd_def
          days_in_month_def DAYS_IN_MONTH_def algebra_simps)
  next
    case b3: False
    show ?thesis
    proof (cases "e = 4")
      case True
      then have z: "r = 0" "c \<le> 23" using e4 c24 c24e by fastforce+
      have y: "y = 400 * a + 100 * b + 4 * (c + 1)" "m = 12" "d = 31"
        using assms(2) ord True by auto
      have "days_before_year (400 * a + 100 * b + 4 * c + 3 + 1) = 146097 * a + 36524 * b + 1461 * c + 365 * 3"
        by (rule days_before_year_decomp) (use b4 b3 z in auto)
      moreover have "is_leap (400 * a + 100 * b + 4 * (c + 1))"
      proof -
        have eq: "400 * a + 100 * b + 4 * (c + 1) = 400 * a + 100 * b + 4 * c + 3 + 1" by simp
        have "b \<le> 3" using b4 b3 by simp
        then show ?thesis unfolding eq using z leap_decomp [of b c 3 a] by simp
      qed
      ultimately show ?thesis
        using dec z True assms(1) r0_def y
        by (simp add: ymd2ord_def days_before_month_def DAYS_BEFORE_MONTH_eq valid_ymd_def
            days_in_month_def DAYS_IN_MONTH_def algebra_simps)
    next
      case e3: False
      define lp where "lp = (e = 3 \<and> (c \<noteq> 24 \<or> b = 3))"
      obtain mm dd where md: "ord2ymd_month lp r = (mm, dd)" by fastforce
      have y: "y = 400 * a + 100 * b + 4 * c + e + 1" "m = mm" "d = dd"
        using assms(2) ord b3 e3 md unfolding lp_def by auto
      have bnd: "b \<le> 3" "e \<le> 3" using b4 b3 e4 e3 by auto
      have dby: "days_before_year y = 146097 * a + 36524 * b + 1461 * c + 365 * e"
        unfolding y(1) using bnd c24(1) by (intro days_before_year_decomp)
      have lpy: "is_leap y \<longleftrightarrow> lp"
        unfolding y(1) lp_def using bnd c24(1) by (intro leap_decomp)
      have mok: "1 \<le> mm \<and> mm \<le> 12 \<and> 1 \<le> dd \<and>
         dd \<le> (if mm = 2 \<and> lp then 29 else DAYS_IN_MONTH ! mm) \<and>
         DAYS_BEFORE_MONTH ! mm + (if mm > 2 \<and> lp then 1 else 0) + dd = r + 1"
        using rr md by (rule ord2ymd_month_ok)
      show ?thesis
        using mok dby lpy dec assms(1) r0_def y
        by (auto simp: ymd2ord_def days_before_month_def valid_ymd_def days_in_month_def)
    qed
  qed
qed


subsection \<open>\<open>datetime\<close> operations\<close>

lemma toordinal_fromordinal [simp]: "1 \<le> n \<Longrightarrow> toordinal (fromordinal n t) = n"
  using ord2ymd_correct [of n] by (auto simp: toordinal_def fromordinal_def split: prod.splits)

lemma fromordinal_valid:
  "1 \<le> n \<Longrightarrow> valid_ymd (dt_year (fromordinal n t)) (dt_month (fromordinal n t)) (dt_day (fromordinal n t))"
  using ord2ymd_correct [of n] by (auto simp: fromordinal_def split: prod.splits)

lemma dt_time_fromordinal [simp]: "dt_time (fromordinal n t) = t"
  by (simp add: fromordinal_def split: prod.splits)

lemma fromordinal_inj:
  assumes "1 \<le> a" "1 \<le> b" "fromordinal a t = fromordinal b t'"
  shows "a = b"
  using toordinal_fromordinal [OF assms(1), of t] toordinal_fromordinal [OF assms(2), of t'] assms(3)
  by simp

lemma add_days_eq:
  "add_days dt k =
     (if 0 < toordinal dt + k \<and> toordinal dt + k \<le> MAXORDINAL
      then Inr (fromordinal (toordinal dt + k) (dt_time dt)) else Inl OverflowError)"
  by (simp add: add_days_def Let_def)

lemma weekday_fromordinal [simp]: "1 \<le> n \<Longrightarrow> weekday (fromordinal n t) = (n + 6) mod 7"
  by (simp add: weekday_def)

lemma digits_value_fmt2 [simp]: "n < 100 \<Longrightarrow> digits_value (fmt2 n) = n"
  by (simp add: fmt2_def digits_value_def)

lemma length_fmt2 [simp]: "length (fmt2 n) = 2"
  by (simp add: fmt2_def)

lemma valid_ymd_small: "valid_ymd y m d \<Longrightarrow> m < 100 \<and> d < 100"
  by (auto simp: valid_ymd_def days_in_month_def DAYS_IN_MONTH_def nth_Cons' split: if_splits)

lemma date_str_inj:
  assumes "valid_ymd (dt_year a) (dt_month a) (dt_day a)" "valid_ymd (dt_year b) (dt_month b) (dt_day b)"
    and "date_str a = date_str b"
  shows "dt_year a = dt_year b \<and> dt_month a = dt_month b \<and> dt_day a = dt_day b"
proof -
  let ?ta = "''-'' @ fmt2 (dt_month a) @ ''-'' @ fmt2 (dt_day a) @ ''T00:00:00''"
  let ?tb = "''-'' @ fmt2 (dt_month b) @ ''-'' @ fmt2 (dt_day b) @ ''T00:00:00''"
  have "show_nat (dt_year a) @ ?ta = show_nat (dt_year b) @ ?tb"
    using assms(3) by (simp add: date_str_def)
  moreover have "length ?ta = length ?tb" by simp
  ultimately have y: "show_nat (dt_year a) = show_nat (dt_year b)" and t: "?ta = ?tb"
    using append_eq_append_conv by blast+
  from t have "fmt2 (dt_month a) @ ''-'' @ fmt2 (dt_day a) @ ''T00:00:00'' =
      fmt2 (dt_month b) @ ''-'' @ fmt2 (dt_day b) @ ''T00:00:00''"
    by simp
  then have "fmt2 (dt_month a) = fmt2 (dt_month b) \<and> fmt2 (dt_day a) @ ''T00:00:00'' = fmt2 (dt_day b) @ ''T00:00:00''"
    using append_eq_append_conv [of "fmt2 (dt_month a)" "fmt2 (dt_month b)"] by simp
  then have "fmt2 (dt_month a) = fmt2 (dt_month b) \<and> fmt2 (dt_day a) = fmt2 (dt_day b)"
    by simp
  then show ?thesis
    using y valid_ymd_small [OF assms(1)] valid_ymd_small [OF assms(2)]
    by (metis digits_value_fmt2 show_nat_inj)
qed

lemma date_str_fromordinal_inj:
  "1 \<le> a \<Longrightarrow> 1 \<le> b \<Longrightarrow> date_str (fromordinal a t) = date_str (fromordinal b t') \<Longrightarrow> a = b"
  using date_str_inj [OF fromordinal_valid fromordinal_valid] toordinal_fromordinal
  by (metis toordinal_def)

text \<open>
  \<open>dt + timedelta(days=k)\<close>, when it does not overflow, moves the ordinal by
  \<open>k\<close> and the weekday by \<open>k\<close> modulo 7.
\<close>

lemma add_days_weekday:
  assumes "add_days dt k = Inr cur"
  shows "toordinal cur = toordinal dt + k \<and> weekday cur = (weekday dt + k) mod 7"
  using assms by (auto simp: add_days_eq weekday_def mod_add_right_eq ac_simps split: if_splits)

end
