(* ===== verification/PyJson.thy ===== *)
theory PyJson
  imports Prelude
begin

text \<open>
  The Python values that \<open>response.json()\<close> returns and the operations
  \<^verbatim>\<open>src/reserve.py\<close> applies to them: subscripting with a key (\<open>d["token"]\<close>) or an
  index (\<open>xs[0]\<close>), truthiness (\<open>if reserves_list and ...\<close>), \<open>len\<close>, iteration
  (\<open>enumerate\<close>), equality with a string literal, and \<open>str\<close>/\<open>repr\<close> as used by
  \<open>print\<close> and f-strings. A JSON object is the \<open>dict\<close> that \<open>json.loads\<close> builds:
  its keys in insertion order, without duplicates (\<open>wf_json\<close>). JSON numbers with a
  fraction or exponent (Python \<open>float\<close>) are not modelled. Strings are sequences of
  code points below 256 (Isabelle's \<open>char\<close>).
\<close>

section \<open>Values\<close>

datatype json =
    JNull
  | JBool bool
  | JInt int
  | JStr string
  | JArr "json list"
  | JObj "(string \<times> json) list"

text \<open>Type invariant: every object is a dictionary, i.e. its keys are distinct.\<close>

fun wf_json :: "json \<Rightarrow> bool" where
  "wf_json (JArr xs) = (\<forall>x \<in> set xs. wf_json x)"
| "wf_json (JObj kvs) = (distinct (map fst kvs) \<and> (\<forall>kv \<in> set kvs. wf_json (snd kv)))"
| "wf_json _ = True"

section \<open>Operations\<close>

text \<open>Truthiness: \<open>None\<close>, \<open>False\<close>, \<open>0\<close> and empty containers are false.\<close>

fun py_truthy :: "json \<Rightarrow> bool" where
  "py_truthy JNull = False"
| "py_truthy (JBool b) = b"
| "py_truthy (JInt i) = (i \<noteq> 0)"
| "py_truthy (JStr s) = (s \<noteq> [])"
| "py_truthy (JArr xs) = (xs \<noteq> [])"
| "py_truthy (JObj kvs) = (kvs \<noteq> [])"

text \<open>Sequence indexing \<open>xs[i]\<close>: a negative index counts from the end; out of range is \<open>IndexError\<close>.\<close>

definition py_index :: "'a list \<Rightarrow> int \<Rightarrow> 'a py_result" where
  "py_index xs i =
     (let k = (if 0 \<le> i then i else i + int (length xs))
      in if k < 0 \<or> int (length xs) \<le> k then Inl IndexError else Inr (xs ! nat k))"

text \<open>\<open>v[k]\<close> with a string key: a dict lookup; any other value raises \<open>TypeError\<close>.\<close>

fun getitem_key :: "json \<Rightarrow> string \<Rightarrow> json py_result" where
  "getitem_key (JObj kvs) k = (case map_of kvs k of None \<Rightarrow> Inl KeyError | Some v \<Rightarrow> Inr v)"
| "getitem_key _ k = Inl TypeError"

text \<open>
  \<open>v[i]\<close> with an integer: list or string indexing; a dict has string keys only, so the
  integer key is missing (\<open>KeyError\<close>); scalars are not subscriptable.
\<close>

fun getitem_idx :: "json \<Rightarrow> int \<Rightarrow> json py_result" where
  "getitem_idx (JArr xs) i = py_index xs i"
| "getitem_idx (JStr s) i = (case py_index s i of Inl e \<Rightarrow> Inl e | Inr c \<Rightarrow> Inr (JStr [c]))"
| "getitem_idx (JObj kvs) i = Inl KeyError"
| "getitem_idx _ i = Inl TypeError"

text \<open>Iteration (as \<open>for\<close> and \<open>enumerate\<close> do it) and \<open>len\<close>.\<close>

fun py_iter :: "json \<Rightarrow> json list py_result" where
  "py_iter (JArr xs) = Inr xs"
| "py_iter (JStr s) = Inr (map (\<lambda>c. JStr [c]) s)"
| "py_iter (JObj kvs) = Inr (map (\<lambda>kv. JStr (fst kv)) kvs)"
| "py_iter _ = Inl TypeError"

fun py_len :: "json \<Rightarrow> nat py_result" where
  "py_len (JArr xs) = Inr (length xs)"
| "py_len (JStr s) = Inr (length s)"
| "py_len (JObj kvs) = Inr (length kvs)"
| "py_len _ = Inl TypeError"

text \<open>\<open>v == "OK"\<close>: only a string with exactly these characters is equal.\<close>

definition py_eq_str :: "json \<Rightarrow> string \<Rightarrow> bool" where
  "py_eq_str v s \<longleftrightarrow> v = JStr s"

section \<open>\<open>str\<close> and \<open>repr\<close>\<close>

definition hex_digit :: "nat \<Rightarrow> char" where
  "hex_digit n = (if n < 10 then digit_char n else char_of (87 + n))"

text \<open>\<open>str.isprintable\<close> below code point 256.\<close>

definition py_printable :: "char \<Rightarrow> bool" where
  "py_printable c \<longleftrightarrow> (let n = of_char c :: nat in 32 \<le> n \<and> n \<noteq> 127 \<and> \<not> (128 \<le> n \<and> n \<le> 160) \<and> n \<noteq> 173)"

text \<open>
  \<open>repr\<close> of a string: single quotes unless the string contains a single quote and no
  double quote; backslash, the quote, tab, newline and return escaped, other
  non-printable characters as \<open>\xhh\<close>.
\<close>

definition repr_char :: "char \<Rightarrow> char \<Rightarrow> string" where
  "repr_char q c =
     (if c = CHR 0x5C \<or> c = q then [CHR 0x5C, c]
      else if c = CHR 0x09 then [CHR 0x5C, CHR ''t'']
      else if c = CHR 0x0A then [CHR 0x5C, CHR ''n'']
      else if c = CHR 0x0D then [CHR 0x5C, CHR ''r'']
      else if py_printable c then [c]
      else [CHR 0x5C, CHR ''x'', hex_digit (of_char c div 16), hex_digit (of_char c mod 16)])"

definition repr_str :: "string \<Rightarrow> string" where
  "repr_str s =
     (let q = (if CHR 0x27 \<in> set s \<and> CHR 0x22 \<notin> set s then CHR 0x22 else CHR 0x27)
      in q # concat (map (repr_char q) s) @ [q])"

fun join :: "string \<Rightarrow> string list \<Rightarrow> string" where
  "join sep [] = []"
| "join sep [s] = s"
| "join sep (s # ss) = s @ sep @ join sep ss"

fun py_repr :: "json \<Rightarrow> string" where
  "py_repr JNull = ''None''"
| "py_repr (JBool b) = (if b then ''True'' else ''False'')"
| "py_repr (JInt i) = show_int i"
| "py_repr (JStr s) = repr_str s"
| "py_repr (JArr xs) = ''['' @ join '', '' (map py_repr xs) @ '']''"
| "py_repr (JObj kvs) = ''{'' @ join '', '' (map (\<lambda>kv. repr_str (fst kv) @ '': '' @ py_repr (snd kv)) kvs) @ ''}''"

text \<open>\<open>str(v)\<close>, which \<open>print\<close> and f-string fields use: a string is itself, the rest is \<open>repr\<close>.\<close>

fun py_str :: "json \<Rightarrow> string" where
  "py_str (JStr s) = s"
| "py_str v = py_repr v"

section \<open>Properties\<close>

lemma py_index_nonneg [py_eval]:
  "0 \<le> i \<Longrightarrow> py_index xs i = (if nat i < length xs then Inr (xs ! nat i) else Inl IndexError)"
  by (auto simp: py_index_def Let_def)

lemma py_index_0 [simp]: "py_index (x # xs) 0 = Inr x"
  by (simp add: py_index_def)

lemma py_index_Nil [simp]: "py_index [] i = Inl IndexError"
  by (simp add: py_index_def Let_def)

lemma py_index_in_set: "py_index xs i = Inr x \<Longrightarrow> x \<in> set xs"
  by (auto simp: py_index_def Let_def split: if_splits)

lemma getitem_key_Inr:
  "getitem_key v k = Inr r \<longleftrightarrow> (\<exists>kvs. v = JObj kvs \<and> map_of kvs k = Some r)"
  by (cases v) (auto split: option.splits)


lemma getitem_key_wf: "wf_json v \<Longrightarrow> getitem_key v k = Inr r \<Longrightarrow> wf_json r"
  by (cases v) (auto split: option.splits dest: map_of_SomeD)

lemma getitem_idx_wf: "wf_json v \<Longrightarrow> getitem_idx v i = Inr r \<Longrightarrow> wf_json r"
  by (cases v) (auto split: sum.splits dest: py_index_in_set)

lemma py_len_iter: "py_iter v = Inr xs \<Longrightarrow> py_len v = Inr (length xs)"
  by (cases v) auto

lemma py_len_Inr_iff: "(\<exists>n. py_len v = Inr n) \<longleftrightarrow> (\<exists>xs. py_iter v = Inr xs)"
  by (cases v) auto

end
