(* ===== verification/PyIO.thy ===== *)
theory PyIO
  imports PyJson
begin

text \<open>
  The effects of \<^verbatim>\<open>src/reserve.py\<close> as explicit state passing. The \<open>world\<close> holds
  the lines still unread on standard input and the trace of everything observable the
  process has done so far, in order: HTTP exchanges through \<open>requests\<close> (the
  request sent and the response received), lines written by \<open>print\<close>, prompts of
  \<open>input\<close> with the line read (or end of file), and \<open>time.sleep\<close> calls.
  The remote service is an arbitrary \<open>server\<close>: a function from the trace so far and
  the request to the response, so a property proved for every server holds whatever the
  service answers, including answers that depend on earlier requests. A connection
  failure (\<open>requests\<close> raising \<open>ConnectionError\<close>) and a body that is not JSON
  (\<open>response.json()\<close> raising) are responses too.
\<close>

section \<open>Requests, responses, events\<close>

datatype http_method = GET | POST | PUT

text \<open>Method, URL, headers and the JSON body passed as \<open>json=\<close>.\<close>

datatype http_request = Request http_method string "(string \<times> string) list" "json option"

text \<open>Status code and body (\<open>None\<close> when the body is not valid JSON).\<close>

datatype http_response = Conn_error | Response int "json option"

datatype event =
    Http http_request http_response
  | Stdout string
  | Stdin string "string option"
  | Sleep nat

type_synonym server = "event list \<Rightarrow> http_request \<Rightarrow> http_response"

record world =
  stdin :: "string list"
  trace :: "event list"

section \<open>Effects\<close>

text \<open>\<open>print(s)\<close>: one line on standard output.\<close>

definition py_print :: "string \<Rightarrow> world \<Rightarrow> world" where
  "py_print s w = w\<lparr>trace := trace w @ [Stdout s]\<rparr>"

text \<open>\<open>input(prompt)\<close>: the next line, or \<open>EOFError\<close> at end of input.\<close>

definition py_input :: "string \<Rightarrow> world \<Rightarrow> string py_result \<times> world" where
  "py_input p w =
     (case stdin w of
        [] \<Rightarrow> (Inl EOFError, w\<lparr>trace := trace w @ [Stdin p None]\<rparr>)
      | l # ls \<Rightarrow> (Inr l, w\<lparr>stdin := ls, trace := trace w @ [Stdin p (Some l)]\<rparr>))"

text \<open>\<open>requests.get/post/put\<close>: the exchange is recorded; a connection failure raises.\<close>

definition requests_call :: "server \<Rightarrow> http_request \<Rightarrow> world \<Rightarrow> (int \<times> json option) py_result \<times> world" where
  "requests_call srv req w =
     (let r = srv (trace w) req;
          w' = w\<lparr>trace := trace w @ [Http req r]\<rparr>
      in (case r of Conn_error \<Rightarrow> Inl ConnectionError | Response c b \<Rightarrow> Inr (c, b), w'))"

text \<open>\<open>response.json()\<close>.\<close>

definition response_json :: "json option \<Rightarrow> json py_result" where
  "response_json b = (case b of None \<Rightarrow> Inl JSONDecodeError | Some j \<Rightarrow> Inr j)"

text \<open>\<open>time.sleep(n)\<close>: blocks the whole thread for \<open>n\<close> seconds.\<close>

definition time_sleep :: "nat \<Rightarrow> world \<Rightarrow> world" where
  "time_sleep n w = w\<lparr>trace := trace w @ [Sleep n]\<rparr>"

section \<open>Reading a trace\<close>

fun requests_of :: "event list \<Rightarrow> http_request list" where
  "requests_of [] = []"
| "requests_of (Http q r # es) = q # requests_of es"
| "requests_of (_ # es) = requests_of es"

fun slept :: "event list \<Rightarrow> nat" where
  "slept [] = 0"
| "slept (Sleep n # es) = n + slept es"
| "slept (_ # es) = slept es"

definition req_method :: "http_request \<Rightarrow> http_method" where
  "req_method q = (case q of Request m _ _ _ \<Rightarrow> m)"

text \<open>Events on the console: a printed line or a prompt with the line read.\<close>

fun console_event :: "event \<Rightarrow> bool" where
  "console_event (Stdout s) = True"
| "console_event (Stdin p l) = True"
| "console_event _ = False"

text \<open>Prompts (\<open>input\<close> calls) of a trace.\<close>

fun prompts_of :: "event list \<Rightarrow> string list" where
  "prompts_of [] = []"
| "prompts_of (Stdin p l # es) = p # prompts_of es"
| "prompts_of (_ # es) = prompts_of es"

section \<open>Properties\<close>

text \<open>Every effect only appends to the trace; \<open>input\<close> alone consumes standard input.\<close>

lemma world_update_comm [simp]: "w\<lparr>trace := t, stdin := s\<rparr> = w\<lparr>stdin := s, trace := t\<rparr>"
  by (cases w) simp

lemma py_print_simps [simp]:
  "stdin (py_print s w) = stdin w" "trace (py_print s w) = trace w @ [Stdout s]"
  by (simp_all add: py_print_def)

lemma time_sleep_simps [simp]:
  "stdin (time_sleep n w) = stdin w" "trace (time_sleep n w) = trace w @ [Sleep n]"
  by (simp_all add: time_sleep_def)

lemma py_input_Cons [simp]:
  "stdin w = l # ls \<Longrightarrow> py_input p w = (Inr l, w\<lparr>stdin := ls, trace := trace w @ [Stdin p (Some l)]\<rparr>)"
  by (simp add: py_input_def)

lemma py_input_Nil [simp]:
  "stdin w = [] \<Longrightarrow> py_input p w = (Inl EOFError, w\<lparr>trace := trace w @ [Stdin p None]\<rparr>)"
  by (simp add: py_input_def)

lemma py_input_consumes:
  "py_input p w = (Inr l, w') \<Longrightarrow> length (stdin w') < length (stdin w)"
  by (auto simp: py_input_def split: list.splits)

lemma requests_call_stdin [simp]: "stdin (snd (requests_call srv q w)) = stdin w"
  by (simp add: requests_call_def Let_def)

lemma requests_call_trace [simp]:
  "trace (snd (requests_call srv q w)) = trace w @ [Http q (srv (trace w) q)]"
  by (simp add: requests_call_def Let_def)

lemma requests_of_append [simp]: "requests_of (xs @ ys) = requests_of xs @ requests_of ys"
  by (induction xs rule: requests_of.induct) auto

lemma slept_append [simp]: "slept (xs @ ys) = slept xs + slept ys"
  by (induction xs rule: slept.induct) auto

lemma prompts_of_append [simp]: "prompts_of (xs @ ys) = prompts_of xs @ prompts_of ys"
  by (induction xs rule: prompts_of.induct) auto

lemma console_quiet:
  assumes "list_all console_event es"
  shows "requests_of es = []" "slept es = 0"
  using assms by (induction es rule: requests_of.induct) (auto elim: console_event.elims)

end
