(* ===== verification/Api.thy ===== *)
theory Api
  imports PyIO
begin

text \<open>
  The three functions of \<^verbatim>\<open>src/reserve.py\<close> that talk to the service:
  \<open>get_bearer_token\<close> (lines 8--18), \<open>get_reserves\<close> (lines 21--25) and the coroutine
  body \<open>reserve_food\<close> (lines 28--37). Each is one HTTP exchange through
  \<open>requests_call\<close> followed by the code's inspection of the response, with every
  exception the code can raise as an \<open>Inl\<close> branch: \<open>ConnectionError\<close> from
  \<open>requests\<close>, \<open>JSONDecodeError\<close> from \<open>response.json()\<close>, \<open>KeyError\<close> and
  \<open>TypeError\<close> from subscripting, and the \<open>SystemExit\<close> of \<open>exit()\<close> after a
  failed login. Main results: a 200 login returns the token after exactly one request; a
  failed login prints the service's message and exits with status 0; \<open>reserve_food\<close>
  sends exactly the documented body and, whenever it completes, ends with
  \<open>time.sleep(10)\<close>.
\<close>

section \<open>Requests\<close>

definition login_url :: string where
  "login_url = ''https://api.narijeh.com/v1/Login''"

definition login_request :: "string \<Rightarrow> string \<Rightarrow> http_request" where
  "login_request username password =
     Request POST login_url [(''content-type'', ''application/json'')]
       (Some (JObj [(''mobile'', JStr username), (''password'', JStr password), (''panel'', JStr ''user'')]))"

definition bearer :: "json \<Rightarrow> string" where
  "bearer token = ''Bearer '' @ py_str token"

definition reserves_url :: "string \<Rightarrow> string" where
  "reserves_url date = ''https://api.narijeh.com/user/reserves?fromDate='' @ date @ ''&toDate='' @ date"

definition reserves_request :: "json \<Rightarrow> string \<Rightarrow> http_request" where
  "reserves_request token date = Request GET (reserves_url date) [(''authorization'', bearer token)] None"

definition put_url :: string where
  "put_url = ''https://api.narijeh.com/user/reserves''"

definition reserve_body :: "string \<Rightarrow> json \<Rightarrow> json" where
  "reserve_body date food_id =
     JArr [JObj [(''datetime'', JStr date),
                 (''reserves'', JArr [JObj [(''foodId'', food_id), (''qty'', JInt 1), (''foodType'', JInt 0)]])]]"

definition reserve_request :: "json \<Rightarrow> string \<Rightarrow> json \<Rightarrow> http_request" where
  "reserve_request token date food_id =
     Request PUT put_url [(''authorization'', bearer token), (''content-type'', ''application/json'')]
       (Some (reserve_body date food_id))"

section \<open>The three functions\<close>

definition get_bearer_token :: "server \<Rightarrow> string \<Rightarrow> string \<Rightarrow> world \<Rightarrow> json py_result \<times> world" where
  "get_bearer_token srv username password w =
     (case requests_call srv (login_request username password) w of
        (Inl e, w1) \<Rightarrow> (Inl e, w1)
      | (Inr (code, body), w1) \<Rightarrow>
          (case response_json body of
             Inl e \<Rightarrow> (Inl e, w1)
           | Inr data \<Rightarrow>
               (if code = 200 then (getitem_key data ''token'', w1)
                else (case getitem_key data ''message'' of
                        Inl e \<Rightarrow> (Inl e, w1)
                      | Inr m \<Rightarrow> (Inl (SystemExit None), py_print (''Failed to get token: '' @ py_str m) w1)))))"

definition get_reserves :: "server \<Rightarrow> json \<Rightarrow> string \<Rightarrow> world \<Rightarrow> json py_result \<times> world" where
  "get_reserves srv token date w =
     (case requests_call srv (reserves_request token date) w of
        (Inl e, w1) \<Rightarrow> (Inl e, w1)
      | (Inr (code, body), w1) \<Rightarrow> (response_json body, w1))"

definition success_msg :: "json \<Rightarrow> string \<Rightarrow> string" where
  "success_msg name date = ''Successfully reserved '' @ py_str name @ '' for '' @ date @ ''.''"

definition failure_msg :: "json \<Rightarrow> string \<Rightarrow> string" where
  "failure_msg m date = ''Failed to reserve food: '' @ py_str m @ '', date: '' @ date"

text \<open>
  \<open>food["foodId"]\<close> is evaluated while the body is built, before the request;
  \<open>food['food']\<close> and \<open>response.json()['message']\<close> while the message is formatted,
  after it. An exception skips the \<open>time.sleep(10)\<close>.
\<close>

definition reserve_food :: "server \<Rightarrow> json \<Rightarrow> string \<Rightarrow> json \<Rightarrow> world \<Rightarrow> unit py_result \<times> world" where
  "reserve_food srv token date food w =
     (case getitem_key food ''foodId'' of
        Inl e \<Rightarrow> (Inl e, w)
      | Inr food_id \<Rightarrow>
          (case requests_call srv (reserve_request token date food_id) w of
             (Inl e, w1) \<Rightarrow> (Inl e, w1)
           | (Inr (code, body), w1) \<Rightarrow>
               (if code = 200 then
                  (case getitem_key food ''food'' of
                     Inl e \<Rightarrow> (Inl e, w1)
                   | Inr name \<Rightarrow> (Inr (), time_sleep 10 (py_print (success_msg name date) w1)))
                else
                  (case response_json body of
                     Inl e \<Rightarrow> (Inl e, w1)
                   | Inr data \<Rightarrow>
                       (case getitem_key data ''message'' of
                          Inl e \<Rightarrow> (Inl e, w1)
                        | Inr m \<Rightarrow> (Inr (), time_sleep 10 (py_print (failure_msg m date) w1)))))))"

section \<open>Properties\<close>

lemma requests_call_Response:
  "srv (trace w) q = Response c b \<Longrightarrow>
   requests_call srv q w = (Inr (c, b), w\<lparr>trace := trace w @ [Http q (Response c b)]\<rparr>)"
  by (simp add: requests_call_def)

lemma requests_call_Conn_error:
  "srv (trace w) q = Conn_error \<Longrightarrow>
   requests_call srv q w = (Inl ConnectionError, w\<lparr>trace := trace w @ [Http q Conn_error]\<rparr>)"
  by (simp add: requests_call_def)

lemma requests_call_cases:
  obtains (conn) "srv (trace w) q = Conn_error"
    | (resp) c b where "srv (trace w) q = Response c b"
  by (cases "srv (trace w) q") auto

text \<open>Each function performs exactly one request, or none when \<open>reserve_food\<close> fails early.\<close>

lemma get_bearer_token_trace:
  "\<exists>tl. trace (snd (get_bearer_token srv u p w)) =
     trace w @ Http (login_request u p) (srv (trace w) (login_request u p)) # tl \<and> requests_of tl = [] \<and>
     slept tl = 0"
  by (cases rule: requests_call_cases [of srv w "login_request u p"])
     (auto simp: get_bearer_token_def requests_call_def response_json_def
        split: option.splits sum.splits)

lemma get_reserves_eq:
  "get_reserves srv token date w =
     (case srv (trace w) (reserves_request token date) of
        Conn_error \<Rightarrow> Inl ConnectionError
      | Response c b \<Rightarrow> response_json b,
      w\<lparr>trace := trace w @ [Http (reserves_request token date) (srv (trace w) (reserves_request token date))]\<rparr>)"
  by (cases rule: requests_call_cases [of srv w "reserves_request token date"])
     (auto simp: get_reserves_def requests_call_def)

lemma reserve_food_stdin [simp]: "stdin (snd (reserve_food srv token date food w)) = stdin w"
  by (auto simp: reserve_food_def requests_call_def Let_def split: sum.splits option.splits http_response.splits)

text \<open>
  C14: a login answered with status 200 and a JSON object holding \<open>token\<close> returns that
  token; the login request is the only thing the call does.
\<close>

theorem get_bearer_token_success:
  assumes "srv (trace w) (login_request u p) = Response 200 (Some (JObj kvs))"
    and "map_of kvs ''token'' = Some tok"
  shows "get_bearer_token srv u p w =
    (Inr tok, w\<lparr>trace := trace w @ [Http (login_request u p) (Response 200 (Some (JObj kvs)))]\<rparr>)"
  using assms by (simp add: get_bearer_token_def requests_call_Response response_json_def)

text \<open>
  A login answered with any other status and a JSON object holding \<open>message\<close>
  prints \<open>Failed to get token: <message>\<close> and ends the process through
  \<open>exit()\<close>, i.e. \<open>SystemExit\<close> with no argument, whose exit status is 0: a failed
  login is indistinguishable from a successful run by its status.
\<close>

lemma get_bearer_token_failure:
  assumes "srv (trace w) (login_request u p) = Response c (Some (JObj kvs))" "c \<noteq> 200"
    and "map_of kvs ''message'' = Some m"
  shows "get_bearer_token srv u p w =
      (Inl (SystemExit None), w\<lparr>trace := trace w @ [Http (login_request u p) (Response c (Some (JObj kvs))),
         Stdout (''Failed to get token: '' @ py_str m)]\<rparr>)
    \<and> exit_status (fst (get_bearer_token srv u p w)) = 0"
  using assms by (simp add: get_bearer_token_def requests_call_Response response_json_def)

text \<open>
  Every run of \<open>reserve_food\<close> ends in one of three ways: it raises before any request
  (no \<open>foodId\<close>); it sends its PUT and raises; or it sends its PUT, prints one line and
  sleeps 10 seconds.
\<close>

lemma reserve_food_outcome:
  assumes "reserve_food srv token date food w = (r, w')"
  shows "(\<exists>e. getitem_key food ''foodId'' = Inl e \<and> r = Inl e \<and> w' = w) \<or>
    (\<exists>fid resp tl. getitem_key food ''foodId'' = Inr fid \<and>
       trace w' = trace w @ Http (reserve_request token date fid) resp # tl \<and> stdin w' = stdin w \<and>
       ((r = Inr () \<and> (\<exists>msg. tl = [Stdout msg, Sleep 10])) \<or> (\<exists>e. r = Inl e \<and> tl = [])))"
proof (cases "getitem_key food ''foodId''")
  case (Inl e)
  then show ?thesis using assms by (simp add: reserve_food_def)
next
  case (Inr fid)
  show ?thesis
  proof (cases rule: requests_call_cases [of srv w "reserve_request token date fid"])
    case conn
    then show ?thesis using Inr assms by (auto simp: reserve_food_def requests_call_Conn_error)
  next
    case (resp c b)
    then show ?thesis
      using Inr assms
      by (auto simp: reserve_food_def requests_call_Response response_json_def py_print_def time_sleep_def
          split: sum.splits option.splits if_splits)
  qed
qed

text \<open>
  C15: \<open>reserve_food\<close> sends at most one request, and that request is the PUT of the
  documented body: the date, the item's \<open>foodId\<close>, quantity 1 and food type 0, with the
  bearer token. Without a \<open>foodId\<close> nothing is sent.
\<close>

theorem reserve_food_request:
  "requests_of (trace (snd (reserve_food srv token date food w))) =
     requests_of (trace w) @
       (case getitem_key food ''foodId'' of Inl _ \<Rightarrow> [] | Inr fid \<Rightarrow> [reserve_request token date fid])"
  using reserve_food_outcome [of srv token date food w "fst (reserve_food srv token date food w)"
      "snd (reserve_food srv token date food w)"]
  by auto

text \<open>
  C16: pacing of a submission: \<open>reserve_food\<close> completes normally exactly when its last
  events are one request, one printed line and \<open>time.sleep(10)\<close>; when it raises, it
  has not slept at all.
\<close>

theorem reserve_food_paced:
  "(fst (reserve_food srv token date food w) = Inr () \<longleftrightarrow>
     (\<exists>q r msg. trace (snd (reserve_food srv token date food w)) = trace w @ [Http q r, Stdout msg, Sleep 10]))
   \<and> slept (trace (snd (reserve_food srv token date food w))) =
     slept (trace w) + (if fst (reserve_food srv token date food w) = Inr () then 10 else 0)"
  using reserve_food_outcome [of srv token date food w "fst (reserve_food srv token date food w)"
      "snd (reserve_food srv token date food w)"]
  by auto

end
