(* ===== verification/PyInt.thy ===== *)
theory PyInt
  imports Prelude
begin

text \<open>
  Python's \<open>int(s)\<close> on a string, which \<open>display_and_choose_food\<close>
  (\<^verbatim>\<open>src/reserve.py\<close>, line 47) applies to each line the user types. Modelled on
  CPython's layering: \<open>_PyUnicode_TransformDecimalAndSpaceToASCII\<close> maps non-ASCII
  whitespace (here U+0085 and U+00A0) to a space and other non-ASCII characters to
  \<open>?\<close>; \<open>PyLong_FromString\<close> skips ASCII whitespace, reads an optional sign, a run
  of decimal digits in which single underscores may separate digits, and trailing
  whitespace, and must reach the end of the string. Since Python 3.11 a literal of more
  than 4300 digits raises \<open>ValueError\<close> (\<open>sys.get_int_max_str_digits()\<close>).
  Every failure is \<open>ValueError\<close>. Results: \<open>int(str(i)) == i\<close> within the digit
  limit, and surrounding whitespace never changes the result.
\<close>

section \<open>Parsing\<close>

definition int_transform :: "char \<Rightarrow> char" where
  "int_transform c =
     (if of_char c < (127::nat) then c
      else if c = CHR 0x85 \<or> c = CHR 0xA0 then CHR '' '' else CHR ''?'')"

definition py_isspace_ascii :: "char \<Rightarrow> bool" where
  "py_isspace_ascii c \<longleftrightarrow> c = CHR '' '' \<or> ((9::nat) \<le> of_char c \<and> of_char c \<le> (13::nat))"

definition digit_or_us :: "char \<Rightarrow> bool" where
  "digit_or_us c \<longleftrightarrow> is_dec_digit c \<or> c = CHR ''_''"

fun no_double_us :: "string \<Rightarrow> bool" where
  "no_double_us (a # b # cs) = (\<not> (a = CHR ''_'' \<and> b = CHR ''_'') \<and> no_double_us (b # cs))"
| "no_double_us _ = True"

definition valid_digit_run :: "string \<Rightarrow> bool" where
  "valid_digit_run body \<longleftrightarrow>
     body \<noteq> [] \<and> is_dec_digit (hd body) \<and> is_dec_digit (last body) \<and> no_double_us body"

definition MAX_STR_DIGITS :: nat where
  "MAX_STR_DIGITS = 4300"

definition split_sign :: "string \<Rightarrow> bool \<times> string" where
  "split_sign s = (case s of
       c # cs \<Rightarrow> if c = CHR ''+'' then (False, cs) else if c = CHR ''-'' then (True, cs) else (False, s)
     | [] \<Rightarrow> (False, []))"

text \<open>\<open>PyLong_FromString\<close> in base 10 after the leading whitespace is skipped.\<close>

definition signed_digits :: "string \<Rightarrow> int py_result" where
  "signed_digits s =
     (let (neg, s') = split_sign s;
          body = takeWhile digit_or_us s';
          rest = dropWhile digit_or_us s';
          ds = filter is_dec_digit body;
          v = int (digits_value ds)
      in if valid_digit_run body \<and> (\<forall>c \<in> set rest. py_isspace_ascii c) \<and> length ds \<le> MAX_STR_DIGITS
         then Inr (if neg then - v else v) else Inl ValueError)"

definition long_from_string :: "string \<Rightarrow> int py_result" where
  "long_from_string s = signed_digits (dropWhile py_isspace_ascii s)"

definition py_int :: "string \<Rightarrow> int py_result" where
  "py_int s = long_from_string (map int_transform s)"

text \<open>The characters \<open>int()\<close> ignores around the number.\<close>

definition py_int_space :: "char \<Rightarrow> bool" where
  "py_int_space c \<longleftrightarrow> py_isspace_ascii (int_transform c)"

section \<open>Properties\<close>

lemma dec_digit_facts:
  assumes "is_dec_digit c"
  shows "int_transform c = c" "\<not> py_isspace_ascii c" "digit_or_us c" "c \<noteq> CHR ''_''"
    "c \<noteq> CHR ''+''" "c \<noteq> CHR ''-''"
  using assms by (auto simp: is_dec_digit_def int_transform_def py_isspace_ascii_def digit_or_us_def)

lemma no_double_us_no_us: "CHR ''_'' \<notin> set s \<Longrightarrow> no_double_us s"
  by (induction s rule: no_double_us.induct) auto

lemma py_int_digits:
  assumes "\<forall>c \<in> set ds. is_dec_digit c" "ds \<noteq> []" "length ds \<le> MAX_STR_DIGITS"
  shows "py_int ds = Inr (int (digits_value ds))" "py_int (CHR ''-'' # ds) = Inr (- int (digits_value ds))"
proof -
  have tr: "map int_transform ds = ds"
    using assms(1) by (induction ds) (auto simp: dec_digit_facts)
  have hd: "is_dec_digit (hd ds)" "is_dec_digit (last ds)"
    using assms(1,2) by auto
  have sp: "dropWhile py_isspace_ascii ds = ds"
    using hd(1) assms(2) dec_digit_facts(2) by (cases ds) auto
  have sg: "split_sign ds = (False, ds)"
    using hd(1) assms(2) dec_digit_facts(5,6) by (cases ds) (auto simp: split_sign_def)
  have tw: "takeWhile digit_or_us ds = ds" "dropWhile digit_or_us ds = []"
    using assms(1) dec_digit_facts(3) by auto
  have fl: "filter is_dec_digit ds = ds"
    using assms(1) by simp
  have vr: "valid_digit_run ds"
    using hd assms(1,2) dec_digit_facts(4) by (auto simp: valid_digit_run_def intro!: no_double_us_no_us)
  have minus: "int_transform (CHR ''-'') = CHR ''-''" "\<not> py_isspace_ascii (CHR ''-'')"
    by (simp_all add: int_transform_def py_isspace_ascii_def)
  show "py_int ds = Inr (int (digits_value ds))"
    using assms(3) by (simp add: py_int_def long_from_string_def signed_digits_def tr sp sg tw fl vr)
  show "py_int (CHR ''-'' # ds) = Inr (- int (digits_value ds))"
    using assms(3)
    by (simp add: py_int_def long_from_string_def signed_digits_def tr minus split_sign_def tw fl vr)
qed

text \<open>
  \<open>int(str(i))\<close> gives back \<open>i\<close> for every integer whose decimal form has at
  most 4300 digits (the default \<open>sys.get_int_max_str_digits()\<close>).
\<close>

lemma py_int_show_int:
  assumes "length (show_nat (nat \<bar>i\<bar>)) \<le> MAX_STR_DIGITS"
  shows "py_int (show_int i) = Inr i"
proof -
  have d: "\<forall>c \<in> set (show_nat (nat \<bar>i\<bar>)). is_dec_digit c" by (rule show_nat_digits)
  show ?thesis
  proof (cases "i < 0")
    case True
    then show ?thesis
      using py_int_digits(2) [OF d show_nat_not_Nil assms] by (simp add: show_int_def)
  next
    case False
    then show ?thesis
      using py_int_digits(1) [OF d show_nat_not_Nil assms] by (simp add: show_int_def)
  qed
qed

lemma space_not_digit_or_us: "py_isspace_ascii c \<Longrightarrow> \<not> digit_or_us c"
  by (auto simp: py_isspace_ascii_def digit_or_us_def is_dec_digit_def)

lemma space_not_sign: "py_isspace_ascii c \<Longrightarrow> c \<noteq> CHR ''+'' \<and> c \<noteq> CHR ''-''"
  unfolding py_isspace_ascii_def by auto

lemma signed_digits_trail:
  assumes "\<forall>c \<in> set B. py_isspace_ascii c"
  shows "signed_digits (t @ B) = signed_digits t"
proof -
  have stop: "B = [] \<or> \<not> digit_or_us (hd B)"
    using assms space_not_digit_or_us by (cases B) auto
  show ?thesis
  proof (cases t)
    case Nil
    have "split_sign B = (False, B)"
      using assms space_not_sign by (cases B) (simp_all add: split_sign_def)
    moreover have "takeWhile digit_or_us B = []"
      using stop by (cases B) auto
    ultimately show ?thesis
      using Nil by (simp add: signed_digits_def split_sign_def valid_digit_run_def)
  next
    case (Cons c cs)
    obtain neg t' where sg: "split_sign t = (neg, t')" by fastforce
    have sg': "split_sign (t @ B) = (neg, t' @ B)"
      using sg Cons by (auto simp: split_sign_def split: if_splits)
    have tw: "takeWhile digit_or_us (t' @ B) = takeWhile digit_or_us t'"
      by (rule takeWhile_append_stop [where P = digit_or_us, OF stop])
    have rest: "(\<forall>c \<in> set (dropWhile digit_or_us (t' @ B)). py_isspace_ascii c) \<longleftrightarrow>
        (\<forall>c \<in> set (dropWhile digit_or_us t'). py_isspace_ascii c)"
      unfolding dropWhile_append_stop [where P = digit_or_us, OF stop] using assms by auto
    show ?thesis
      by (simp only: signed_digits_def sg sg' Let_def prod.case tw rest)
  qed
qed

lemma long_from_string_strip:
  assumes "\<forall>c \<in> set A. py_isspace_ascii c" "\<forall>c \<in> set B. py_isspace_ascii c"
  shows "long_from_string (A @ t @ B) = long_from_string t"
proof (cases "dropWhile py_isspace_ascii t = []")
  case True
  moreover have "dropWhile py_isspace_ascii (A @ t @ B) = []"
    using assms True by (simp add: dropWhile_append_all)
  ultimately show ?thesis
    unfolding long_from_string_def by (simp only:)
next
  case False
  then have "\<not> py_isspace_ascii (hd (dropWhile py_isspace_ascii t))"
    by (metis hd_dropWhile)
  then have eq: "dropWhile py_isspace_ascii (t @ B) = dropWhile py_isspace_ascii t @ B"
    using False by (auto simp: dropWhile_append)
  have "long_from_string (A @ t @ B) = signed_digits (dropWhile py_isspace_ascii (t @ B))"
    unfolding long_from_string_def using assms(1) by (simp only: dropWhile_append_all)
  also have "\<dots> = signed_digits (dropWhile py_isspace_ascii t @ B)"
    by (simp only: eq)
  also have "\<dots> = long_from_string t"
    unfolding long_from_string_def by (rule signed_digits_trail [OF assms(2)])
  finally show ?thesis .
qed

text \<open>
  \<open>int()\<close> ignores leading and trailing whitespace (ASCII whitespace, U+0085 and
  U+00A0): the answer to the selector's prompt parses the same with or without it.
\<close>

lemma py_int_strip:
  assumes "\<forall>c \<in> set ws. py_int_space c" "\<forall>c \<in> set ws'. py_int_space c"
  shows "py_int (ws @ s @ ws') = py_int s"
  using long_from_string_strip [of "map int_transform ws" "map int_transform ws'" "map int_transform s"] assms
  by (simp add: py_int_def py_int_space_def)

end
