(* ===== verification/Selector.thy ===== *)
theory Selector
  imports PyIO PyInt "HOL-Library.Sublist"
begin

text \<open>
  The interactive selector \<open>display_and_choose_food\<close> of \<^verbatim>\<open>src/reserve.py\<close>
  (lines 40--54): it prints a numbered menu of the reservable items of one date and then
  prompts until the user types an integer in range, printing a complaint after each
  rejected line. The \<open>while True\<close> loop is \<open>choose_loop\<close>, a \<^theory_text>\<open>function\<close>
  whose termination measure is the number of unread input lines: every round either reads
  a line or ends with \<open>EOFError\<close>. Main results: the loop returns the item chosen by
  the first acceptable line (and has consumed exactly the lines up to it), or raises
  \<open>EOFError\<close> when no line is acceptable; the chosen item is an element of the list.
\<close>

section \<open>Definitions\<close>

definition menu_line :: "nat \<Rightarrow> json \<Rightarrow> string" where
  "menu_line i name = show_nat i @ ''. '' @ py_str name"

text \<open>\<open>for i, food in enumerate(reserves_list, start=1): print(f"{i}. {food['food']}")\<close>\<close>

fun print_menu :: "nat \<Rightarrow> json list \<Rightarrow> world \<Rightarrow> unit py_result \<times> world" where
  "print_menu i [] w = (Inr (), w)"
| "print_menu i (food # foods) w =
     (case getitem_key food ''food'' of
        Inl e \<Rightarrow> (Inl e, w)
      | Inr name \<Rightarrow> print_menu (Suc i) foods (py_print (menu_line i name) w))"

definition choice_prompt :: "nat \<Rightarrow> string" where
  "choice_prompt n = ''Choose an option (1-'' @ show_nat n @ ''): ''"

definition invalid_choice_msg :: string where
  "invalid_choice_msg = ''Invalid choice. Please choose a number within the range.''"

definition invalid_input_msg :: string where
  "invalid_input_msg = ''Invalid input. Please enter a number.''"

text \<open>
  One round of \<open>while True\<close>: \<open>len\<close> is evaluated for the prompt, \<open>input\<close> reads a
  line, \<open>int\<close> parses it inside \<open>try\<close>; only \<open>ValueError\<close> is caught. An
  in-range choice returns \<open>reserves_list[choice - 1]\<close>, whose own exceptions are not
  caught.
\<close>

function choose_loop :: "json \<Rightarrow> world \<Rightarrow> json py_result \<times> world" where
  "choose_loop xs w =
     (case py_len xs of
        Inl e \<Rightarrow> (Inl e, w)
      | Inr n \<Rightarrow>
          (case py_input (choice_prompt n) w of
             (Inl e, w1) \<Rightarrow> (Inl e, w1)
           | (Inr line, w1) \<Rightarrow>
               (case py_int line of
                  Inl e \<Rightarrow>
                    (if e = ValueError then choose_loop xs (py_print invalid_input_msg w1)
                     else (Inl e, w1))
                | Inr c \<Rightarrow>
                    (if 1 \<le> c \<and> c \<le> int n then (getitem_idx xs (c - 1), w1)
                     else choose_loop xs (py_print invalid_choice_msg w1)))))"
  by pat_completeness auto
termination
proof (relation "measure (\<lambda>(xs, w). length (stdin w))")
  show "wf (measure (\<lambda>(xs, w). length (stdin w)))" by simp
qed (auto dest!: py_input_consumes sym [of _ "py_input _ _"])

declare choose_loop.simps [simp del]

definition display_and_choose_food :: "json \<Rightarrow> world \<Rightarrow> json py_result \<times> world" where
  "display_and_choose_food reserves_list w =
     (let w1 = py_print ''Available foods:'' w
      in case py_iter reserves_list of
           Inl e \<Rightarrow> (Inl e, w1)
         | Inr foods \<Rightarrow>
             (case print_menu 1 foods w1 of
                (Inl e, w2) \<Rightarrow> (Inl e, w2)
              | (Inr u, w2) \<Rightarrow> choose_loop reserves_list w2))"

text \<open>A line the loop accepts when the list has \<open>n\<close> items.\<close>

definition accepts :: "nat \<Rightarrow> string \<Rightarrow> bool" where
  "accepts n line \<longleftrightarrow> (case py_int line of Inl _ \<Rightarrow> False | Inr c \<Rightarrow> 1 \<le> c \<and> c \<le> int n)"

text \<open>The complaint printed after a rejected line.\<close>

definition reject_msg :: "string \<Rightarrow> string" where
  "reject_msg line = (case py_int line of Inl _ \<Rightarrow> invalid_input_msg | Inr _ \<Rightarrow> invalid_choice_msg)"

text \<open>The events of one rejected round.\<close>

definition reject_events :: "nat \<Rightarrow> string \<Rightarrow> event list" where
  "reject_events n line = [Stdin (choice_prompt n) (Some line), Stdout (reject_msg line)]"

section \<open>Properties\<close>

lemma py_int_Inl_ValueError: "py_int s = Inl e \<Longrightarrow> e = ValueError"
  by (auto simp: py_int_def long_from_string_def signed_digits_def Let_def split: prod.splits if_splits)

text \<open>A rejected line costs one round: it is read, complained about, and the loop goes on.\<close>

lemma choose_loop_reject:
  assumes "py_len xs = Inr n" "stdin w = line # rest" "\<not> accepts n line"
  shows "choose_loop xs w =
    choose_loop xs (w\<lparr>stdin := rest, trace := trace w @ reject_events n line\<rparr>)"
proof -
  have "py_input (choice_prompt n) w = (Inr line, w\<lparr>stdin := rest, trace := trace w @ [Stdin (choice_prompt n) (Some line)]\<rparr>)"
    using assms(2) by simp
  then show ?thesis
    using assms(1,3) py_int_Inl_ValueError [of line]
    by (subst choose_loop.simps)
       (auto simp: accepts_def reject_msg_def reject_events_def py_print_def split: sum.splits)
qed

lemma choose_loop_accept:
  assumes "py_len xs = Inr n" "stdin w = line # rest" "py_int line = Inr c" "1 \<le> c" "c \<le> int n"
  shows "choose_loop xs w =
    (getitem_idx xs (c - 1), w\<lparr>stdin := rest, trace := trace w @ [Stdin (choice_prompt n) (Some line)]\<rparr>)"
  using assms by (subst choose_loop.simps) simp

lemma choose_loop_eof:
  assumes "py_len xs = Inr n" "stdin w = []"
  shows "choose_loop xs w = (Inl EOFError, w\<lparr>trace := trace w @ [Stdin (choice_prompt n) None]\<rparr>)"
  using assms by (subst choose_loop.simps) simp

text \<open>The rounds for a run of rejected lines, by induction on the lines.\<close>

lemma choose_loop_rejects:
  assumes "py_len xs = Inr n" "\<forall>l \<in> set bad. \<not> accepts n l"
  shows "choose_loop xs (w\<lparr>stdin := bad @ rest\<rparr>) =
    choose_loop xs (w\<lparr>stdin := rest, trace := trace w @ concat (map (reject_events n) bad)\<rparr>)"
  using assms(2)
proof (induction bad arbitrary: w)
  case Nil
  then show ?case by simp
next
  case (Cons l bad)
  have "choose_loop xs (w\<lparr>stdin := (l # bad) @ rest\<rparr>) =
      choose_loop xs (w\<lparr>stdin := bad @ rest, trace := trace w @ reject_events n l\<rparr>)"
    using Cons.prems assms(1) by (subst choose_loop_reject) auto
  also have "\<dots> = choose_loop xs (w\<lparr>stdin := rest,
      trace := (trace w @ reject_events n l) @ concat (map (reject_events n) bad)\<rparr>)"
    using Cons.IH [of "w\<lparr>trace := trace w @ reject_events n l\<rparr>"] Cons.prems by simp
  finally show ?case by simp
qed

lemma w_stdin_eq: "stdin w = ls \<Longrightarrow> w = w\<lparr>stdin := ls\<rparr>"
  by simp

text \<open>The selector only talks to the console: it sends no request and never sleeps.\<close>

lemma reject_events_console [simp]: "list_all console_event (reject_events n l)"
  by (simp add: reject_events_def)

lemma choose_loop_console:
  "\<exists>es. trace (snd (choose_loop xs w)) = trace w @ es \<and> list_all console_event es"
proof (cases "py_len xs")
  case (Inl e)
  then show ?thesis by (subst choose_loop.simps) simp
next
  case (Inr n)
  obtain ls where "stdin w = ls" by simp
  then show ?thesis
  proof (induction ls arbitrary: w)
    case Nil
    then show ?case using Inr by (simp add: choose_loop_eof)
  next
    case (Cons l ls)
    show ?case
    proof (cases "accepts n l")
      case True
      then obtain c where "py_int l = Inr c" "1 \<le> c" "c \<le> int n"
        by (auto simp: accepts_def split: sum.splits)
      then show ?thesis using Inr Cons.prems by (simp add: choose_loop_accept)
    next
      case False
      let ?w1 = "w\<lparr>stdin := ls, trace := trace w @ reject_events n l\<rparr>"
      obtain es where "trace (snd (choose_loop xs ?w1)) = trace ?w1 @ es" "list_all console_event es"
        using Cons.IH [of ?w1] by auto
      then show ?thesis
        using choose_loop_reject [OF Inr Cons.prems False] by (intro exI [of _ "reject_events n l @ es"]) simp
    qed
  qed
qed

lemma print_menu_console:
  "\<exists>es. trace (snd (print_menu i foods w)) = trace w @ es \<and> list_all console_event es"
proof (induction foods arbitrary: i w)
  case Nil
  then show ?case by simp
next
  case (Cons food foods)
  show ?case
  proof (cases "getitem_key food ''food''")
    case (Inl e)
    then show ?thesis by simp
  next
    case (Inr name)
    obtain es where "trace (snd (print_menu (Suc i) foods (py_print (menu_line i name) w))) =
        trace (py_print (menu_line i name) w) @ es" "list_all console_event es"
      using Cons.IH by blast
    then show ?thesis using Inr by (intro exI [of _ "Stdout (menu_line i name) # es"]) simp
  qed
qed

lemma display_and_choose_food_console:
  "\<exists>es. trace (snd (display_and_choose_food xs w)) = trace w @ es \<and> list_all console_event es"
proof -
  let ?w1 = "py_print ''Available foods:'' w"
  show ?thesis
  proof (cases "py_iter xs")
    case (Inl e)
    then show ?thesis by (simp add: display_and_choose_food_def)
  next
    case (Inr foods)
    obtain r w2 where pm: "print_menu 1 foods ?w1 = (r, w2)" by fastforce
    obtain es where es: "trace w2 = trace ?w1 @ es" "list_all console_event es"
      using print_menu_console [of 1 foods ?w1] pm by auto
    show ?thesis
    proof (cases r)
      case (Inl e)
      then show ?thesis using Inr pm es
        by (intro exI [of _ "Stdout ''Available foods:'' # es"]) (simp add: display_and_choose_food_def)
    next
      case (Inr u)
      obtain es' where "trace (snd (choose_loop xs w2)) = trace w2 @ es'" "list_all console_event es'"
        using choose_loop_console by blast
      then show ?thesis using \<open>py_iter xs = Inr foods\<close> Inr pm es
        by (intro exI [of _ "Stdout ''Available foods:'' # es @ es'"]) (simp add: display_and_choose_food_def)
    qed
  qed
qed

text \<open>A menu whose items all have a name is printed without exception and reads nothing.\<close>

lemma print_menu_ok:
  "list_all (\<lambda>x. \<exists>n. getitem_key x ''food'' = Inr n) foods \<Longrightarrow>
     fst (print_menu i foods w) = Inr () \<and> stdin (snd (print_menu i foods w)) = stdin w"
  by (induction foods arbitrary: i w) auto

text \<open>
  C16: after any number of rejected lines, the first line naming an item in range ends the
  loop: the item at that (1-based) position is returned, exactly the lines up to it are
  consumed, and each rejected line has produced its prompt and its complaint.
\<close>

theorem choose_loop_first_accepted:
  assumes "\<forall>l \<in> set bad. \<not> accepts (length items) l"
    and "py_int good = Inr c" "1 \<le> c" "c \<le> int (length items)"
    and "stdin w = bad @ good # rest"
  shows "choose_loop (JArr items) w =
    (Inr (items ! nat (c - 1)),
     w\<lparr>stdin := rest, trace := trace w @ concat (map (reject_events (length items)) bad) @
        [Stdin (choice_prompt (length items)) (Some good)]\<rparr>)"
proof -
  have "choose_loop (JArr items) w = choose_loop (JArr items) (w\<lparr>stdin := bad @ (good # rest)\<rparr>)"
    using assms(5) by (metis w_stdin_eq)
  also have "\<dots> = choose_loop (JArr items)
      (w\<lparr>stdin := good # rest, trace := trace w @ concat (map (reject_events (length items)) bad)\<rparr>)"
    using assms(1) by (intro choose_loop_rejects) auto
  also have "\<dots> = (getitem_idx (JArr items) (c - 1),
      w\<lparr>stdin := rest, trace := trace w @ concat (map (reject_events (length items)) bad) @
        [Stdin (choice_prompt (length items)) (Some good)]\<rparr>)"
    using assms(2-4) by (subst choose_loop_accept) auto
  also have "getitem_idx (JArr items) (c - 1) = Inr (items ! nat (c - 1))"
    using assms(3,4) by (simp add: py_index_nonneg)
  finally show ?thesis .
qed

text \<open>
  C17: when no line of the remaining input names an item in range, the loop reads all of
  it, complains after each line, and raises \<open>EOFError\<close> at end of input: it never
  returns an item the user did not choose.
\<close>

theorem choose_loop_no_accept:
  assumes "py_len xs = Inr n" "\<forall>l \<in> set (stdin w). \<not> accepts n l"
  shows "choose_loop xs w =
    (Inl EOFError, w\<lparr>stdin := [], trace := trace w @ concat (map (reject_events n) (stdin w)) @
        [Stdin (choice_prompt n) None]\<rparr>)"
proof -
  have "choose_loop xs w = choose_loop xs (w\<lparr>stdin := stdin w @ []\<rparr>)"
    by simp
  also have "\<dots> = choose_loop xs (w\<lparr>stdin := [], trace := trace w @ concat (map (reject_events n) (stdin w))\<rparr>)"
    using assms by (intro choose_loop_rejects) auto
  also have "\<dots> = (Inl EOFError, w\<lparr>stdin := [], trace := trace w @ concat (map (reject_events n) (stdin w)) @
        [Stdin (choice_prompt n) None]\<rparr>)"
    using assms(1) by (subst choose_loop_eof) auto
  finally show ?thesis .
qed

lemma reject_events_prompts [simp]: "prompts_of (reject_events n l) = [choice_prompt n]"
  by (simp add: reject_events_def)

text \<open>
  C19: termination of the prompt loop, with its bound and its result. Every round but
  the last consumes a line, so the loop prompts at most once more than the number of
  lines it read, and what is left of the input is a suffix of it. When it returns an item,
  the lines it read are rejected lines followed by one line \<open>int\<close> parses to a \<open>c\<close>
  with \<open>1 \<le> c \<le> len(reserves_list)\<close>, and the item is \<open>reserves_list[c - 1]\<close>.
\<close>

theorem choose_loop_rounds:
  assumes "choose_loop xs w = (r, w')"
  shows "\<exists>es. trace w' = trace w @ es \<and> suffix (stdin w') (stdin w) \<and>
     length (prompts_of es) \<le> Suc (length (stdin w) - length (stdin w')) \<and>
     (case r of
        Inl e \<Rightarrow> True
      | Inr f \<Rightarrow> \<exists>n pre line c. py_len xs = Inr n \<and> list_all (\<lambda>l. \<not> accepts n l) pre \<and>
           stdin w = pre @ line # stdin w' \<and>
           py_int line = Inr c \<and> 1 \<le> c \<and> c \<le> int n \<and> getitem_idx xs (c - 1) = Inr f)"
proof -
  have "\<exists>es. trace (snd (choose_loop xs w)) = trace w @ es \<and>
     suffix (stdin (snd (choose_loop xs w))) (stdin w) \<and>
     length (prompts_of es) \<le> Suc (length (stdin w) - length (stdin (snd (choose_loop xs w)))) \<and>
     (\<forall>f. fst (choose_loop xs w) = Inr f \<longrightarrow>
        (\<exists>n pre line c. py_len xs = Inr n \<and> list_all (\<lambda>l. \<not> accepts n l) pre \<and>
           stdin w = pre @ line # stdin (snd (choose_loop xs w)) \<and>
           py_int line = Inr c \<and> 1 \<le> c \<and> c \<le> int n \<and> getitem_idx xs (c - 1) = Inr f))"
  proof (cases "py_len xs")
  case (Inl e)
  then have "choose_loop xs w = (Inl e, w)" by (subst choose_loop.simps) simp
  then show ?thesis by simp
next
  case (Inr n)
  obtain ls where "stdin w = ls" by simp
  then show ?thesis
  proof (induction ls arbitrary: w)
    case Nil
    then show ?case using Inr by (simp add: choose_loop_eof)
  next
    case (Cons l ls)
    show ?case
    proof (cases "accepts n l")
      case True
      then obtain c where c: "py_int l = Inr c" "1 \<le> c" "c \<le> int n"
        by (auto simp: accepts_def split: sum.splits)
      have "choose_loop xs w =
          (getitem_idx xs (c - 1), w\<lparr>stdin := ls, trace := trace w @ [Stdin (choice_prompt n) (Some l)]\<rparr>)"
        using Inr Cons.prems c by (simp add: choose_loop_accept)
      then show ?thesis
        using Inr Cons.prems c
        by (simp add: suffix_def)
    next
      case False
      let ?w1 = "w\<lparr>stdin := ls, trace := trace w @ reject_events n l\<rparr>"
      have step: "choose_loop xs w = choose_loop xs ?w1"
        using choose_loop_reject [OF Inr Cons.prems False] .
      obtain es where es: "trace (snd (choose_loop xs ?w1)) = trace ?w1 @ es"
          "suffix (stdin (snd (choose_loop xs ?w1))) ls"
          "length (prompts_of es) \<le> Suc (length ls - length (stdin (snd (choose_loop xs ?w1))))"
        and res: "\<forall>f. fst (choose_loop xs ?w1) = Inr f \<longrightarrow>
          (\<exists>n' pre line c. py_len xs = Inr n' \<and> list_all (\<lambda>l. \<not> accepts n' l) pre \<and>
             ls = pre @ line # stdin (snd (choose_loop xs ?w1)) \<and>
             py_int line = Inr c \<and> 1 \<le> c \<and> c \<le> int n' \<and> getitem_idx xs (c - 1) = Inr f)"
        using Cons.IH [of ?w1] by auto
      have "length (stdin (snd (choose_loop xs ?w1))) \<le> length ls"
        using es(2) by (rule suffix_length_le)
      moreover have "\<forall>f. fst (choose_loop xs ?w1) = Inr f \<longrightarrow>
          (\<exists>n' pre line c. py_len xs = Inr n' \<and> list_all (\<lambda>l. \<not> accepts n' l) pre \<and>
             l # ls = pre @ line # stdin (snd (choose_loop xs ?w1)) \<and>
             py_int line = Inr c \<and> 1 \<le> c \<and> c \<le> int n' \<and> getitem_idx xs (c - 1) = Inr f)"
      proof (intro allI impI)
        fix f
        assume "fst (choose_loop xs ?w1) = Inr f"
        then obtain n' pre line c where "py_len xs = Inr n'" "list_all (\<lambda>l. \<not> accepts n' l) pre"
            "ls = pre @ line # stdin (snd (choose_loop xs ?w1))"
            "py_int line = Inr c" "1 \<le> c" "c \<le> int n'" "getitem_idx xs (c - 1) = Inr f"
          using res by blast
        moreover have "n' = n" using Inr \<open>py_len xs = Inr n'\<close> by simp
        ultimately show "\<exists>n' pre line c. py_len xs = Inr n' \<and> list_all (\<lambda>l. \<not> accepts n' l) pre \<and>
             l # ls = pre @ line # stdin (snd (choose_loop xs ?w1)) \<and>
             py_int line = Inr c \<and> 1 \<le> c \<and> c \<le> int n' \<and> getitem_idx xs (c - 1) = Inr f"
          using False by (intro exI [of _ n'] exI [of _ "l # pre"] exI [of _ line] exI [of _ c]) simp
      qed
      ultimately show ?thesis
        using step es(1,2,3) Cons.prems
        by (intro exI [of _ "reject_events n l @ es"]) (auto simp: suffix_ConsI)
    qed
  qed
qed
  then show ?thesis using assms by (cases r) auto
qed

end
