(* ===== verification/EventLoop.thy ===== *)
theory EventLoop
  imports Prelude
begin

text \<open>
  The part of \<open>asyncio\<close> that \<^verbatim>\<open>src/reserve.py\<close> relies on (line 102
  \<open>asyncio.run(main(...))\<close>, line 82 \<open>asyncio.create_task\<close>, line 87
  \<open>await asyncio.gather(*reserves)\<close>), modelled from the CPython library
  (\<open>base_events._run_once\<close>, \<open>tasks.gather\<close>, \<open>Runner.run\<close>). The loop state is
  a record: the FIFO of ready handles, the created tasks and their results, whether
  \<open>main\<close> is suspended in \<open>gather\<close>, the gather counter \<open>nfinished\<close> and its
  outer future, the result of \<open>main\<close>, the \<open>_stopping\<close> flag and the world the
  task bodies act on. A handle is a task step, a gather done-callback, the wake-up of
  \<open>main\<close>, or the \<open>_run_until_complete_cb\<close> that stops the loop. One iteration of
  \<open>_run_once\<close> runs exactly the handles that were ready when it started; the loop
  ends when \<open>_stopping\<close> is set. The task bodies are a parameter (\<open>runner\<close>): a
  body that never awaits, as \<open>reserve_food\<close>, is one step. \<open>loop_run\<close> is a
  \<^theory_text>\<open>function\<close> whose termination measure is the weight of the ready queue,
  so its \<open>None\<close> branch (queue empty before stop, never reached from
  \<open>main_started\<close>) is a value, not divergence. Main result
  (\<open>asyncio_run_sequential\<close>): the loop always stops, every created task has run
  exactly once, one after the other in creation order, also when \<open>main\<close> itself
  raised after creating them, and the result is the exception of \<open>main\<close>, else the
  first exception of a task, else success.
\<close>

section \<open>Loop state and handles\<close>

datatype handle = Step_task nat | Gather_cb nat | Wakeup_main | Stop_cb

record ('t, 'w) loop_state =
  ready :: "handle list"
  tasks :: "'t list"
  results :: "unit py_result option list"
  awaiting :: bool
  nfinished :: nat
  outer :: "unit py_result option"
  main_result :: "unit py_result option"
  stopping :: bool
  lworld :: 'w

type_synonym ('t, 'w) runner = "'t \<Rightarrow> 'w \<Rightarrow> unit py_result \<times> 'w"

fun run_handle :: "('t, 'w) runner \<Rightarrow> handle \<Rightarrow> ('t, 'w) loop_state \<Rightarrow> ('t, 'w) loop_state" where
  "run_handle run (Step_task i) s =
     (case run (tasks s ! i) (lworld s) of (r, w') \<Rightarrow>
        s\<lparr>lworld := w', results := (results s)[i := Some r],
          ready := ready s @ (if awaiting s then [Gather_cb i] else [])\<rparr>)"
| "run_handle run (Gather_cb i) s =
     (let s1 = s\<lparr>nfinished := Suc (nfinished s)\<rparr>
      in if outer s \<noteq> None then s1
         else (case results s ! i of
                 Some (Inl e) \<Rightarrow> s1\<lparr>outer := Some (Inl e), ready := ready s @ [Wakeup_main]\<rparr>
               | _ \<Rightarrow> if Suc (nfinished s) = length (tasks s)
                      then s1\<lparr>outer := Some (Inr ()), ready := ready s @ [Wakeup_main]\<rparr>
                      else s1))"
| "run_handle run Wakeup_main s = s\<lparr>main_result := outer s, ready := ready s @ [Stop_cb]\<rparr>"
| "run_handle run Stop_cb s = s\<lparr>stopping := True\<rparr>"

fun run_handles :: "('t, 'w) runner \<Rightarrow> nat \<Rightarrow> ('t, 'w) loop_state \<Rightarrow> ('t, 'w) loop_state" where
  "run_handles run 0 s = s"
| "run_handles run (Suc k) s =
     (case ready s of
        [] \<Rightarrow> s
      | h # rest \<Rightarrow> run_handles run k (run_handle run h (s\<lparr>ready := rest\<rparr>)))"

definition run_once :: "('t, 'w) runner \<Rightarrow> ('t, 'w) loop_state \<Rightarrow> ('t, 'w) loop_state" where
  "run_once run s = run_handles run (length (ready s)) s"

fun handle_weight :: "handle \<Rightarrow> nat" where
  "handle_weight (Step_task i) = 4"
| "handle_weight (Gather_cb i) = 3"
| "handle_weight Wakeup_main = 2"
| "handle_weight Stop_cb = 1"

definition queue_weight :: "handle list \<Rightarrow> nat" where
  "queue_weight hs = sum_list (map handle_weight hs)"

lemma queue_weight_simps [simp]:
  "queue_weight [] = 0" "queue_weight (h # hs) = handle_weight h + queue_weight hs"
  "queue_weight (hs @ hs') = queue_weight hs + queue_weight hs'"
  by (simp_all add: queue_weight_def)

lemma run_handle_weight:
  "queue_weight (ready (run_handle run h s)) < handle_weight h + queue_weight (ready s)"
  by (cases h) (auto simp: Let_def split: prod.splits option.splits sum.splits)

lemma run_handles_weight:
  "queue_weight (ready (run_handles run k s)) \<le> queue_weight (ready s)
   \<and> (0 < k \<longrightarrow> ready s \<noteq> [] \<longrightarrow> queue_weight (ready (run_handles run k s)) < queue_weight (ready s))"
proof (induction k arbitrary: s)
  case 0
  then show ?case by simp
next
  case (Suc k)
  show ?case
  proof (cases "ready s")
    case Nil
    then show ?thesis by simp
  next
    case (Cons h rest)
    have "queue_weight (ready (run_handle run h (s\<lparr>ready := rest\<rparr>))) < queue_weight (ready s)"
      using run_handle_weight [of run h "s\<lparr>ready := rest\<rparr>"] Cons by simp
    then show ?thesis
      using Suc.IH [of "run_handle run h (s\<lparr>ready := rest\<rparr>)"] Cons by simp
  qed
qed

lemma run_once_weight:
  "ready s \<noteq> [] \<Longrightarrow> queue_weight (ready (run_once run s)) < queue_weight (ready s)"
  using run_handles_weight [of run "length (ready s)" s] by (simp add: run_once_def)

function loop_run :: "('t, 'w) runner \<Rightarrow> ('t, 'w) loop_state \<Rightarrow> ('t, 'w) loop_state option" where
  "loop_run run s =
     (if stopping s then Some s
      else if ready s = [] then None
      else loop_run run (run_once run s))"
  by pat_completeness auto
termination
  by (relation "measure (\<lambda>(run, s). queue_weight (ready s))") (auto intro: run_once_weight)

declare loop_run.simps [simp del]

fun is_sysexit :: "'a py_result \<Rightarrow> bool" where
  "is_sysexit (Inl (SystemExit c)) = True"
| "is_sysexit _ = False"

definition main_started :: "unit py_result \<Rightarrow> 't list \<Rightarrow> 'w \<Rightarrow> ('t, 'w) loop_state" where
  "main_started r ts w =
     (let n = length ts;
          base = \<lparr>ready = map Step_task [0..<n], tasks = ts, results = replicate n None,
                  awaiting = False, nfinished = 0, outer = None, main_result = None,
                  stopping = False, lworld = w\<rparr>
      in case r of
           Inl e \<Rightarrow> base\<lparr>ready := map Step_task [0..<n] @ [Stop_cb], main_result := Some (Inl e)\<rparr>
         | Inr _ \<Rightarrow> if n = 0 then base\<lparr>ready := [Stop_cb], main_result := Some (Inr ())\<rparr>
                   else base\<lparr>awaiting := True\<rparr>)"

definition until_complete :: "('t, 'w) loop_state \<Rightarrow> unit py_result \<times> 'w" where
  "until_complete s = (case main_result s of None \<Rightarrow> Inl RuntimeError | Some r \<Rightarrow> r, lworld s)"

definition asyncio_run :: "('t, 'w) runner \<Rightarrow> unit py_result \<Rightarrow> 't list \<Rightarrow> 'w \<Rightarrow> (unit py_result \<times> 'w) option" where
  "asyncio_run run r ts w =
     (if is_sysexit r then Some (r, w)
      else map_option until_complete (loop_run run (main_started r ts w)))"

section \<open>Sequential reference\<close>

text \<open>The tasks run one after the other, and the result \<open>gather\<close> reports.\<close>

fun run_all :: "('t, 'w) runner \<Rightarrow> 't list \<Rightarrow> 'w \<Rightarrow> unit py_result list \<times> 'w" where
  "run_all run [] w = ([], w)"
| "run_all run (t # ts) w =
     (case run t w of (r, w1) \<Rightarrow> (case run_all run ts w1 of (rs, w2) \<Rightarrow> (r # rs, w2)))"

fun gather_result :: "unit py_result list \<Rightarrow> unit py_result" where
  "gather_result [] = Inr ()"
| "gather_result (Inl e # rs) = Inl e"
| "gather_result (Inr _ # rs) = gather_result rs"

section \<open>Steps and reachable states\<close>

text \<open>
  One iteration of \<open>run_forever\<close> as a step relation: a loop that is not stopping
  and has ready handles runs one batch. The states reachable from the state
  \<open>main\<close> leaves behind are the start and everything the steps lead to.
\<close>

inductive loop_step :: "('t, 'w) runner \<Rightarrow> ('t, 'w) loop_state \<Rightarrow> ('t, 'w) loop_state \<Rightarrow> bool"
  for run where
  batch: "\<not> stopping s \<Longrightarrow> ready s \<noteq> [] \<Longrightarrow> loop_step run s (run_once run s)"

inductive loop_reachable ::
  "('t, 'w) runner \<Rightarrow> unit py_result \<Rightarrow> 't list \<Rightarrow> 'w \<Rightarrow> ('t, 'w) loop_state \<Rightarrow> bool"
  for run r ts w where
  start: "loop_reachable run r ts w (main_started r ts w)"
| step: "loop_reachable run r ts w s \<Longrightarrow> loop_step run s s' \<Longrightarrow> loop_reachable run r ts w s'"

inductive_cases loop_stepE: "loop_step run s s'"

text \<open>
  The typing invariant of the loop state: the task list is the one \<open>main\<close> created,
  there is one result slot per task, every handle names an existing task, and a gather
  callback is only queued for a task that has finished (so \<open>tasks[i]\<close> and
  \<open>results[i]\<close> are always in range and the callback always finds a result).
\<close>

fun handle_ok :: "nat \<Rightarrow> handle \<Rightarrow> bool" where
  "handle_ok n (Step_task i) \<longleftrightarrow> i < n"
| "handle_ok n (Gather_cb i) \<longleftrightarrow> i < n"
| "handle_ok n _ \<longleftrightarrow> True"

definition wf_loop :: "'t list \<Rightarrow> ('t, 'w) loop_state \<Rightarrow> bool" where
  "wf_loop ts s \<longleftrightarrow> tasks s = ts \<and> length (results s) = length ts \<and>
     list_all (handle_ok (length ts)) (ready s) \<and>
     (\<forall>i. Gather_cb i \<in> set (ready s) \<longrightarrow> results s ! i \<noteq> None)"

section \<open>Properties\<close>

lemma length_run_all [simp]: "length (fst (run_all run ts w)) = length ts"
proof (induction ts arbitrary: w)
  case Nil
  then show ?case by simp
next
  case (Cons t ts)
  obtain r w1 where "run t w = (r, w1)" by fastforce
  moreover obtain rs w2 where "run_all run ts w1 = (rs, w2)" by fastforce
  ultimately show ?case using Cons.IH [of w1] by simp
qed

lemma loop_run_stop: "stopping s \<Longrightarrow> loop_run run s = Some s"
  by (simp add: loop_run.simps)

lemma loop_run_next:
  "\<not> stopping s \<Longrightarrow> ready s \<noteq> [] \<Longrightarrow> loop_run run s = loop_run run (run_once run s)"
  by (simp add: loop_run.simps)

lemma loop_run_step:
  "\<not> stopping s \<Longrightarrow> ready s \<noteq> [] \<Longrightarrow> run_once run s = s' \<Longrightarrow> loop_run run s = loop_run run s'"
  by (simp add: loop_run_next)

lemma run_handles_Nil: "ready s = [] \<Longrightarrow> run_handles run k s = s"
  by (cases k) auto

lemma run_handles_add: "run_handles run (a + b) s = run_handles run b (run_handles run a s)"
proof (induction a arbitrary: s)
  case 0
  then show ?case by simp
next
  case (Suc a)
  then show ?case
    by (cases "ready s") (auto simp: run_handles_Nil)
qed

lemma run_tasks_batch:
  assumes "ready s = map Step_task [k..<k + length us] @ tail" "drop k (tasks s) = us"
    and "length (results s) = length (tasks s)"
  shows "run_handles run (length us) s =
    s\<lparr>ready := tail @ (if awaiting s then map Gather_cb [k..<k + length us] else []),
      results := take k (results s) @ map Some (fst (run_all run us (lworld s))),
      lworld := snd (run_all run us (lworld s))\<rparr>"
  using assms
proof (induction us arbitrary: k s tail)
  case Nil
  then show ?case by simp
next
  case (Cons u us)
  have tk: "tasks s ! k = u" and dk: "drop (Suc k) (tasks s) = us" and kl: "k < length (results s)"
    using Cons.prems(2,3) by (auto simp: nth_via_drop drop_Suc drop_tl intro: ccontr)
  obtain r w1 where ru: "run u (lworld s) = (r, w1)" by fastforce
  obtain rs w2 where ra: "run_all run us w1 = (rs, w2)" by fastforce
  have rdy: "ready s = Step_task k # map Step_task [Suc k..<Suc k + length us] @ tail"
  proof -
    have "[k..<k + length (u # us)] = k # [Suc k..<Suc k + length us]"
      by (simp add: upt_conv_Cons del: upt_Suc)
    then show ?thesis using Cons.prems(1) by simp
  qed
  define s1 where "s1 = s\<lparr>lworld := w1, results := (results s)[k := Some r],
      ready := map Step_task [Suc k..<Suc k + length us] @ tail @ (if awaiting s then [Gather_cb k] else [])\<rparr>"
  have step: "run_handles run (length (u # us)) s = run_handles run (length us) s1"
    using rdy by (simp add: s1_def tk ru del: upt_Suc)
  have ih: "run_handles run (length us) s1 =
    s1\<lparr>ready := (tail @ (if awaiting s then [Gather_cb k] else [])) @
        (if awaiting s1 then map Gather_cb [Suc k..<Suc k + length us] else []),
      results := take (Suc k) (results s1) @ map Some (fst (run_all run us (lworld s1))),
      lworld := snd (run_all run us (lworld s1))\<rparr>"
    by (rule Cons.IH) (simp_all add: s1_def dk Cons.prems(3) del: upt_Suc)
  have tk1: "take (Suc k) ((results s)[k := Some r]) = take k (results s) @ [Some r]"
    using kl by (simp add: take_Suc_conv_app_nth)
  show ?case
  proof -
    have "[k..<k + length (u # us)] = k # [Suc k..<Suc k + length us]"
      by (simp add: upt_conv_Cons del: upt_Suc)
    then show ?thesis
      unfolding step ih using ru ra tk1 by (simp add: s1_def del: upt_Suc)
  qed
qed

lemma run_gathers_done:
  assumes "ready s = map Gather_cb is @ tail" "outer s \<noteq> None"
  shows "run_handles run (length is) s = s\<lparr>ready := tail, nfinished := nfinished s + length is\<rparr>"
  using assms
proof (induction "is" arbitrary: s)
  case Nil
  then show ?case by (cases s) simp
next
  case (Cons i "is")
  have "run_handles run (length (i # is)) s =
      run_handles run (length is) (s\<lparr>ready := map Gather_cb is @ tail, nfinished := Suc (nfinished s)\<rparr>)"
    using Cons.prems by simp
  also have "\<dots> = s\<lparr>ready := tail, nfinished := nfinished s + length (i # is)\<rparr>"
    using Cons.prems by (subst Cons.IH) simp_all
  finally show ?case .
qed

lemma run_gathers:
  assumes "ready s = map Gather_cb [k..<k + length rs] @ tail" "drop k (results s) = map Some rs"
    and "outer s = None" "nfinished s = k" "length (tasks s) = k + length rs" "rs \<noteq> []"
  shows "run_handles run (length rs) s =
    s\<lparr>nfinished := length (tasks s), outer := Some (gather_result rs), ready := tail @ [Wakeup_main]\<rparr>"
  using assms
proof (induction rs arbitrary: k s)
  case Nil
  then show ?case by simp
next
  case (Cons r rs)
  have rk: "results s ! k = Some r"
    using Cons.prems(2) by (intro nth_via_drop) simp
  have rdy: "ready s = Gather_cb k # map Gather_cb [Suc k..<Suc k + length rs] @ tail"
  proof -
    have "[k..<k + length (r # rs)] = k # [Suc k..<Suc k + length rs]"
      by (simp add: upt_conv_Cons del: upt_Suc)
    then show ?thesis using Cons.prems(1) by simp
  qed
  show ?case
  proof (cases r)
    case (Inl e)
    have "run_handles run (length (r # rs)) s =
        run_handles run (length rs) (s\<lparr>ready := map Gather_cb [Suc k..<Suc k + length rs] @ tail,
          nfinished := Suc k, outer := Some (Inl e),
          ready := map Gather_cb [Suc k..<Suc k + length rs] @ tail @ [Wakeup_main]\<rparr>)"
      using rdy rk Inl Cons.prems(3,4) by (simp add: Let_def del: upt_Suc)
    also have "\<dots> = s\<lparr>nfinished := length (tasks s), outer := Some (gather_result (r # rs)),
        ready := tail @ [Wakeup_main]\<rparr>"
    proof -
      let ?is = "[Suc k..<Suc k + length rs]"
      let ?s1 = "s\<lparr>ready := map Gather_cb ?is @ tail, nfinished := Suc k, outer := Some (Inl e),
          ready := map Gather_cb ?is @ tail @ [Wakeup_main]\<rparr>"
      have "run_handles run (length ?is) ?s1 =
          ?s1\<lparr>ready := tail @ [Wakeup_main], nfinished := nfinished ?s1 + length ?is\<rparr>"
        by (rule run_gathers_done) simp_all
      then show ?thesis using Inl Cons.prems(5) by (cases s) (simp del: upt_Suc)
    qed
    finally show ?thesis .
  next
    case (Inr u)
    show ?thesis
    proof (cases "rs = []")
      case True
      then show ?thesis
        using rdy rk Inr Cons.prems(3-5) by (cases s) (simp add: Let_def)
    next
      case False
      have "run_handles run (length (r # rs)) s =
          run_handles run (length rs) (s\<lparr>ready := map Gather_cb [Suc k..<Suc k + length rs] @ tail,
            nfinished := Suc k\<rparr>)"
        using rdy rk Inr False Cons.prems(3-5) by (simp add: Let_def del: upt_Suc)
      also have "\<dots> = s\<lparr>nfinished := length (tasks s), outer := Some (gather_result (r # rs)),
          ready := tail @ [Wakeup_main]\<rparr>"
        using Inr False Cons.prems(2-5)
        by (subst Cons.IH) (simp_all add: drop_Suc drop_tl del: upt_Suc)
      finally show ?thesis .
    qed
  qed
qed

lemma run_handles_one [simp]: "ready s = h # rest \<Longrightarrow> run_handles run (Suc 0) s = run_handle run h (s\<lparr>ready := rest\<rparr>)"
  by simp

lemma loop_run_main_raised:
  "\<exists>s'. loop_run run (main_started (Inl e) ts w) = Some s' \<and> stopping s' \<and>
     main_result s' = Some (Inl e) \<and> lworld s' = snd (run_all run ts w)"
proof -
  define s0 where "s0 = main_started (Inl e) ts w"
  have s0: "ready s0 = map Step_task [0..<0 + length ts] @ [Stop_cb]" "tasks s0 = ts" "awaiting s0 = False"
      "results s0 = replicate (length ts) None" "lworld s0 = w" "stopping s0 = False"
      "main_result s0 = Some (Inl e)"
    by (simp_all add: s0_def main_started_def Let_def)
  have b: "run_handles run (length ts) s0 = s0\<lparr>ready := [Stop_cb],
      results := map Some (fst (run_all run ts w)), lworld := snd (run_all run ts w)\<rparr>"
    using run_tasks_batch [of s0 0 ts "[Stop_cb]" run] s0 by simp
  have "run_once run s0 = run_handles run (Suc 0) (run_handles run (length ts) s0)"
    using s0(1) run_handles_add [of run "length ts" "Suc 0" s0] by (simp add: run_once_def del: upt_Suc)
  also have "\<dots> = s0\<lparr>ready := [], results := map Some (fst (run_all run ts w)),
      lworld := snd (run_all run ts w), stopping := True\<rparr>"
    unfolding b by simp
  finally have "loop_run run s0 = Some (s0\<lparr>ready := [], results := map Some (fst (run_all run ts w)),
      lworld := snd (run_all run ts w), stopping := True\<rparr>)"
    using s0 by (simp add: loop_run_next loop_run_stop del: upt_Suc)
  then show ?thesis
    using s0 by (simp add: s0_def [symmetric])
qed

lemma loop_run_no_tasks:
  "\<exists>s'. loop_run (run :: ('t, 'w) runner) (main_started (Inr ()) [] w) = Some s' \<and> stopping s' \<and>
     main_result s' = Some (Inr ()) \<and> lworld s' = w"
proof -
  define s0 where "s0 = (main_started (Inr ()) [] w :: ('t, 'w) loop_state)"
  have "ready s0 = [Stop_cb]" "stopping s0 = False" "main_result s0 = Some (Inr ())" "lworld s0 = w"
    by (simp_all add: s0_def main_started_def)
  then have "loop_run run s0 = Some (s0\<lparr>ready := [], stopping := True\<rparr>)"
    by (simp add: loop_run_next loop_run_stop run_once_def)
  then show ?thesis
    using \<open>main_result s0 = Some (Inr ())\<close> \<open>lworld s0 = w\<close> by (simp add: s0_def [symmetric])
qed

lemma loop_run_gathered:
  assumes "ts \<noteq> []"
  shows "\<exists>s'. loop_run run (main_started (Inr ()) ts w) = Some s' \<and> stopping s' \<and>
     main_result s' = Some (gather_result (fst (run_all run ts w))) \<and> lworld s' = snd (run_all run ts w)"
proof -
  define s0 where "s0 = main_started (Inr ()) ts w"
  define rs where "rs = fst (run_all run ts w)"
  define w' where "w' = snd (run_all run ts w)"
  have s0: "ready s0 = map Step_task [0..<0 + length ts]" "tasks s0 = ts" "awaiting s0 = True"
      "results s0 = replicate (length ts) None" "lworld s0 = w" "stopping s0 = False"
      "outer s0 = None" "nfinished s0 = 0"
    using assms by (simp_all add: s0_def main_started_def Let_def)
  define s1 where "s1 = s0\<lparr>ready := map Gather_cb [0..<0 + length rs], results := map Some rs, lworld := w'\<rparr>"
  have r1: "run_once run s0 = s1"
    using run_tasks_batch [of s0 0 ts "[]" run] s0 by (simp add: run_once_def s1_def rs_def w'_def del: upt_Suc)
  define s2 where "s2 = s1\<lparr>nfinished := length (tasks s1), outer := Some (gather_result rs), ready := [Wakeup_main]\<rparr>"
  have rs: "rs \<noteq> []"
    using assms by (metis rs_def length_run_all length_0_conv)
  then have r2: "run_once run s1 = s2"
    using run_gathers [of s1 0 rs "[]" run] s0
    by (simp add: run_once_def s1_def s2_def rs_def del: upt_Suc)
  define s3 where "s3 = s2\<lparr>main_result := Some (gather_result rs), ready := [Stop_cb]\<rparr>"
  have r3: "run_once run s2 = s3"
    by (simp add: run_once_def s2_def s3_def)
  have r4: "run_once run s3 = s3\<lparr>ready := [], stopping := True\<rparr>"
    by (simp add: run_once_def s3_def)
  have "loop_run run s0 = loop_run run s1"
    using s0 assms r1 by (intro loop_run_step) simp_all
  also have "\<dots> = loop_run run s2"
    using s0 rs r2 by (intro loop_run_step) (simp_all add: s1_def)
  also have "\<dots> = loop_run run s3"
    using s0 r3 by (intro loop_run_step) (simp_all add: s2_def s1_def)
  also have "\<dots> = loop_run run (s3\<lparr>ready := [], stopping := True\<rparr>)"
    using s0 r4 by (intro loop_run_step) (simp_all add: s3_def s2_def s1_def)
  also have "\<dots> = Some (s3\<lparr>ready := [], stopping := True\<rparr>)"
    by (simp add: loop_run_stop)
  finally have "loop_run run s0 = Some (s3\<lparr>ready := [], stopping := True\<rparr>)" .
  moreover have "main_result s3 = Some (gather_result rs)" "lworld s3 = w'"
    by (simp_all add: s3_def s2_def s1_def)
  ultimately show ?thesis
    by (simp add: s0_def [symmetric] rs_def w'_def s3_def)
qed

text \<open>
  The loop, started on \<open>main\<close>'s outcome and tasks, stops with the result of
  \<open>main\<close> set: \<open>run_until_complete\<close> never meets a stopped loop with an
  unfinished \<open>main\<close>.
\<close>

lemma loop_run_main_started:
  "\<exists>s'. loop_run run (main_started r ts w) = Some s' \<and> stopping s' \<and> lworld s' = snd (run_all run ts w) \<and>
     main_result s' = Some (case r of Inl e \<Rightarrow> Inl e | Inr _ \<Rightarrow> gather_result (fst (run_all run ts w)))"
proof (cases r)
  case (Inl e)
  then show ?thesis using loop_run_main_raised [of run e ts w] by auto
next
  case (Inr u)
  then have r: "r = Inr ()" by simp
  show ?thesis
  proof (cases "ts = []")
    case True
    then show ?thesis using r loop_run_no_tasks [of run w] by auto
  next
    case False
    then show ?thesis using r loop_run_gathered [of ts run w] by auto
  qed
qed

text \<open>
  Refinement of the event loop by the sequential reference: \<open>asyncio.run\<close> of a
  \<open>main\<close> that created the tasks \<open>ts\<close> and then returned or raised \<open>r\<close> always
  terminates (\<open>Some\<close>), runs the tasks in order exactly as \<open>run_all\<close> does, and
  returns what \<open>main\<close> raised, or else the first task exception.
\<close>

theorem asyncio_run_sequential:
  "asyncio_run run r ts w =
     Some (if is_sysexit r then (r, w)
           else (case r of Inl e \<Rightarrow> Inl e | Inr _ \<Rightarrow> gather_result (fst (run_all run ts w)),
                 snd (run_all run ts w)))"
  using loop_run_main_started [of run r ts w] by (auto simp: asyncio_run_def until_complete_def)

subsection \<open>The typing invariant\<close>

lemma run_handle_wf:
  assumes "wf_loop ts s" "ready s = h # rest"
  shows "wf_loop ts (run_handle run h (s\<lparr>ready := rest\<rparr>))"
proof (cases h)
  case (Step_task i)
  with assms have i: "i < length ts" "tasks s = ts" "length (results s) = length ts"
    by (auto simp: wf_loop_def)
  obtain r w' where "run (tasks s ! i) (lworld s) = (r, w')" by fastforce
  with assms Step_task i show ?thesis
    by (auto simp: wf_loop_def nth_list_update)
next
  case (Gather_cb i)
  with assms show ?thesis
    by (auto simp: wf_loop_def Let_def split: option.splits sum.splits)
qed (use assms in \<open>auto simp: wf_loop_def\<close>)

lemma run_handles_wf: "wf_loop ts s \<Longrightarrow> wf_loop ts (run_handles run k s)"
proof (induction k arbitrary: s)
  case 0
  then show ?case by simp
next
  case (Suc k)
  then show ?case
    by (cases "ready s") (auto intro: Suc.IH run_handle_wf)
qed

lemma loop_step_wf: "loop_step run s s' \<Longrightarrow> wf_loop ts s \<Longrightarrow> wf_loop ts s'"
  by (auto elim!: loop_stepE simp: run_once_def intro: run_handles_wf)

lemma main_started_wf: "wf_loop ts (main_started r ts w)"
  by (auto simp: wf_loop_def main_started_def Let_def list_all_iff split: sum.splits)

text \<open>
  The invariant holds in every reachable state: rule induction on \<open>loop_reachable\<close>.
\<close>

lemma loop_reachable_wf:
  assumes "loop_reachable run r ts w s"
  shows "wf_loop ts s"
  using assms
proof (induction rule: loop_reachable.induct)
  case start
  show ?case by (rule main_started_wf)
next
  case (step s s')
  then show ?case by (blast intro: loop_step_wf)
qed

subsection \<open>Liveness\<close>

text \<open>What \<open>loop_run\<close> returns is reached by steps: computation induction on it.\<close>

lemma loop_run_reachable:
  "loop_run run s = Some s' \<Longrightarrow> loop_reachable run r ts w s \<Longrightarrow> loop_reachable run r ts w s'"
proof (induction run s rule: loop_run.induct)
  case (1 run s)
  show ?case
  proof (cases "stopping s")
    case True
    then show ?thesis using "1.prems" by (simp add: loop_run_stop)
  next
    case False
    then have ne: "ready s \<noteq> []" using "1.prems"(1) by (subst (asm) loop_run.simps) auto
    then have "loop_run run (run_once run s) = Some s'"
      using False "1.prems"(1) by (simp add: loop_run_next)
    moreover have "loop_reachable run r ts w (run_once run s)"
      using "1.prems"(2) False ne by (blast intro: loop_reachable.step loop_step.batch)
    ultimately show ?thesis using "1.IH" False ne by blast
  qed
qed

text \<open>
  From the state \<open>main\<close> leaves behind, the loop reaches by its own steps a stopped
  state in which \<open>main\<close>'s result is set, whatever the tasks do.
\<close>

lemma loop_run_terminates:
  "\<exists>s. loop_run run (main_started r ts w) = Some s \<and> loop_reachable run r ts w s \<and>
     stopping s \<and> main_result s \<noteq> None"
proof -
  obtain s where s: "loop_run run (main_started r ts w) = Some s" "stopping s" "main_result s \<noteq> None"
    using loop_run_main_started [of run r ts w] by auto
  moreover have "loop_reachable run r ts w s"
    using s(1) loop_reachable.start by (rule loop_run_reachable)
  ultimately show ?thesis by blast
qed

text \<open>
  The step relation is deterministic and \<open>loop_run\<close> follows it, so every reachable
  state lies on the one run from the start and finishes as that run does.
\<close>

lemma loop_step_run: "loop_step run s s' \<Longrightarrow> loop_run run s = loop_run run s'"
  by (auto elim!: loop_stepE intro: loop_run_next)

lemma loop_reachable_run:
  "loop_reachable run r ts w s \<Longrightarrow> loop_run run s = loop_run run (main_started r ts w)"
  by (induction rule: loop_reachable.induct) (simp_all add: loop_step_run)

end
