(* ===== verification/Reserve.thy ===== *)
theory Reserve
  imports Calendar Api Selector EventLoop "HOL-Library.Sublist"
begin

text \<open>
  The coroutine \<open>main\<close> of \<^verbatim>\<open>src/reserve.py\<close> (lines 57--87) and the top level
  \<open>asyncio.run(main(...))\<close> (line 102). \<open>main\<close> logs in, then walks the 36 days
  from today: a day whose weekday is 4 (Friday; the code calls it Thursday) is skipped
  with a message unless \<open>include_thursdays\<close> is set, a day whose weekday is 5
  (Saturday; the comment says Friday) is skipped silently, and every other day is
  fetched; when the service answers \<open>OK\<close> with a non-empty list of reservable items,
  one item is chosen (the first in lazy mode, interactively otherwise) and a
  \<open>reserve_food\<close> task is created. After the loop \<open>main\<close> awaits \<open>gather\<close> of the
  tasks. Since \<open>reserve_food\<close> never awaits, the tasks run one after the other once
  \<open>main\<close> suspends, which the event loop theory proves. The day loop is a \<^theory_text>\<open>fun\<close>
  over the list of day offsets, \<open>[0..<36]\<close> at the call site, and threads the list of
  created tasks together with the world.
\<close>

section \<open>Arguments and tasks\<close>

text \<open>The parsed command line (lines 91--101), as \<open>main\<close> receives it.\<close>

record args =
  username :: string
  password :: string
  include_thursdays :: bool
  lazy_mode :: bool

text \<open>The coroutine object \<open>reserve_food(token, current_date_str, chosen_food)\<close>.\<close>

datatype reserve_task = Reserve_food json string json

definition task_date :: "reserve_task \<Rightarrow> string" where
  "task_date t = (case t of Reserve_food token date food \<Rightarrow> date)"

definition run_reserve :: "server \<Rightarrow> (reserve_task, world) runner" where
  "run_reserve srv t w = (case t of Reserve_food token date food \<Rightarrow> reserve_food srv token date food w)"

section \<open>One day of the loop\<close>

definition skipping_msg :: "string \<Rightarrow> string" where
  "skipping_msg date = ''Skipping Thursday: '' @ date"

definition no_reserves_msg :: "string \<Rightarrow> string" where
  "no_reserves_msg date = ''No reserves available for '' @ date @ ''.''"

definition failed_reserves_msg :: "json \<Rightarrow> string \<Rightarrow> string" where
  "failed_reserves_msg m date = ''Failed to get reserves: '' @ py_str m @ '', date: '' @ date"

text \<open>\<open>reserves_list[0]["reserves"]\<close>, evaluated afresh at each occurrence.\<close>

definition first_reserves :: "json \<Rightarrow> json py_result" where
  "first_reserves rl = (case getitem_idx rl 0 of Inl e \<Rightarrow> Inl e | Inr r0 \<Rightarrow> getitem_key r0 ''reserves'')"

text \<open>Lines 77--80: the first item in lazy mode, the interactive choice otherwise.\<close>

definition choose_food :: "bool \<Rightarrow> json \<Rightarrow> world \<Rightarrow> json py_result \<times> world" where
  "choose_food lazy rl w =
     (case first_reserves rl of
        Inl e \<Rightarrow> (Inl e, w)
      | Inr rs \<Rightarrow> if lazy then (getitem_idx rs 0, w) else display_and_choose_food rs w)"

text \<open>
  Lines 74--86, after the response of the day has been received: the \<open>status\<close> test,
  the two truthiness tests of line 76 (\<open>and\<close> short-circuits), the choice and the
  \<open>create_task\<close>, or one of the two messages.
\<close>

definition handle_reserves :: "json \<Rightarrow> args \<Rightarrow> string \<Rightarrow> json \<Rightarrow> reserve_task list \<Rightarrow> world \<Rightarrow>
    unit py_result \<times> reserve_task list \<times> world" where
  "handle_reserves token a date resp ts w =
     (case getitem_key resp ''status'' of
        Inl e \<Rightarrow> (Inl e, ts, w)
      | Inr st \<Rightarrow>
          if py_eq_str st ''OK'' then
            (case getitem_key resp ''data'' of
               Inl e \<Rightarrow> (Inl e, ts, w)
             | Inr rl \<Rightarrow>
                 if \<not> py_truthy rl then (Inr (), ts, py_print (no_reserves_msg date) w)
                 else (case first_reserves rl of
                         Inl e \<Rightarrow> (Inl e, ts, w)
                       | Inr rs \<Rightarrow>
                           if \<not> py_truthy rs then (Inr (), ts, py_print (no_reserves_msg date) w)
                           else (case choose_food (lazy_mode a) rl w of
                                   (Inl e, w1) \<Rightarrow> (Inl e, ts, w1)
                                 | (Inr food, w1) \<Rightarrow> (Inr (), ts @ [Reserve_food token date food], w1))))
          else
            (case getitem_key resp ''message'' of
               Inl e \<Rightarrow> (Inl e, ts, w)
             | Inr m \<Rightarrow> (Inr (), ts, py_print (failed_reserves_msg m date) w)))"

text \<open>Lines 62--86: one iteration of \<open>for day in range(36)\<close>.\<close>

definition reserve_day :: "server \<Rightarrow> json \<Rightarrow> args \<Rightarrow> py_datetime \<Rightarrow> nat \<Rightarrow> reserve_task list \<Rightarrow> world \<Rightarrow>
    unit py_result \<times> reserve_task list \<times> world" where
  "reserve_day srv token a start day ts w =
     (case add_days start day of
        Inl e \<Rightarrow> (Inl e, ts, w)
      | Inr cur \<Rightarrow>
          (let date = date_str cur
           in if weekday cur = 4 \<and> \<not> include_thursdays a then (Inr (), ts, py_print (skipping_msg date) w)
              else if weekday cur = 5 then (Inr (), ts, w)
              else (case get_reserves srv token date w of
                      (Inl e, w1) \<Rightarrow> (Inl e, ts, w1)
                    | (Inr resp, w1) \<Rightarrow> handle_reserves token a date resp ts w1)))"

text \<open>The loop itself; an exception leaves it with the tasks created so far.\<close>

fun day_loop :: "server \<Rightarrow> json \<Rightarrow> args \<Rightarrow> py_datetime \<Rightarrow> nat list \<Rightarrow> reserve_task list \<Rightarrow> world \<Rightarrow>
    unit py_result \<times> reserve_task list \<times> world" where
  "day_loop srv token a start [] ts w = (Inr (), ts, w)"
| "day_loop srv token a start (d # ds) ts w =
     (case reserve_day srv token a start d ts w of
        (Inl e, ts1, w1) \<Rightarrow> (Inl e, ts1, w1)
      | (Inr u, ts1, w1) \<Rightarrow> day_loop srv token a start ds ts1 w1)"

section \<open>\<open>main\<close> and the program\<close>

definition HORIZON :: nat where
  "HORIZON = 36"

text \<open>
  The body of \<open>main\<close> up to \<open>await asyncio.gather(*reserves)\<close>: its outcome, the
  tasks it created in order, and the world. \<open>today\<close> is \<open>datetime.datetime.today()\<close>.
\<close>

definition main_body :: "server \<Rightarrow> args \<Rightarrow> py_datetime \<Rightarrow> world \<Rightarrow>
    unit py_result \<times> reserve_task list \<times> world" where
  "main_body srv a today w =
     (case get_bearer_token srv (username a) (password a) w of
        (Inl e, w1) \<Rightarrow> (Inl e, [], w1)
      | (Inr token, w1) \<Rightarrow> day_loop srv token a today [0..<HORIZON] [] w1)"

text \<open>Line 102: \<open>asyncio.run(main(...))\<close>, with the tasks run by the event loop.\<close>

definition reserve_main :: "server \<Rightarrow> args \<Rightarrow> py_datetime \<Rightarrow> world \<Rightarrow> (unit py_result \<times> world) option" where
  "reserve_main srv a today w =
     (case main_body srv a today w of (r, ts, w1) \<Rightarrow> asyncio_run (run_reserve srv) r ts w1)"

section \<open>Specification of the day filter\<close>

text \<open>
  The days the enumerator of the specification (section 4.2) skips: weekday 4 unless
  the flag is set, and weekday 5 always; the date of day \<open>d\<close> of the horizon; and the
  dates whose reservable items are fetched, in order.
\<close>

definition skip_day :: "args \<Rightarrow> nat \<Rightarrow> bool" where
  "skip_day a wd \<longleftrightarrow> (wd = 4 \<and> \<not> include_thursdays a) \<or> wd = 5"

definition day_date :: "py_datetime \<Rightarrow> nat \<Rightarrow> py_datetime" where
  "day_date start d = fromordinal (toordinal start + d) (dt_time start)"

definition fetched_dates :: "args \<Rightarrow> py_datetime \<Rightarrow> nat list \<Rightarrow> string list" where
  "fetched_dates a start ds =
     map (\<lambda>d. date_str (day_date start d)) (filter (\<lambda>d. \<not> skip_day a (weekday (day_date start d))) ds)"

text \<open>
  The request a task sends (none when the chosen item has no \<open>foodId\<close>), and the
  events one run of a task leaves in the trace: nothing, its PUT alone (it raised after
  the request), or its PUT, one printed line and \<open>time.sleep(10)\<close>.
\<close>

definition task_requests :: "reserve_task \<Rightarrow> http_request list" where
  "task_requests t = (case t of Reserve_food tok date food \<Rightarrow>
     (case getitem_key food ''foodId'' of Inl e \<Rightarrow> [] | Inr fid \<Rightarrow> [reserve_request tok date fid]))"

definition task_block :: "reserve_task \<Rightarrow> event list \<Rightarrow> bool" where
  "task_block t b \<longleftrightarrow> (case task_requests t of
      [] \<Rightarrow> b = []
    | [q] \<Rightarrow> (\<exists>resp. b = [Http q resp] \<or> (\<exists>msg. b = [Http q resp, Stdout msg, Sleep 10]))
    | _ \<Rightarrow> False)"

section \<open>Properties\<close>

subsection \<open>Effects of one day\<close>

lemma choose_food_console:
  "\<exists>es. trace (snd (choose_food lazy rl w)) = trace w @ es \<and> list_all console_event es"
  using display_and_choose_food_console
  by (auto simp: choose_food_def split: sum.splits)

lemma handle_reserves_effect:
  assumes "handle_reserves token a date resp ts w = (r, ts', w')"
  shows "(\<exists>es. trace w' = trace w @ es \<and> list_all console_event es) \<and>
    (ts' = ts \<or> (\<exists>f. ts' = ts @ [Reserve_food token date f]))"
proof -
  have cf: "\<exists>es. trace w1 = trace w @ es \<and> list_all console_event es"
    if "choose_food (lazy_mode a) rl w = (r1, w1)" for rl r1 w1
    using choose_food_console [of "lazy_mode a" rl w] that by simp
  show ?thesis
    using assms by (auto simp: handle_reserves_def dest: cf split: sum.splits if_splits prod.splits)
qed

lemma add_days_day_date:
  "add_days start d = Inr cur \<longleftrightarrow>
     0 < toordinal start + d \<and> toordinal start + d \<le> MAXORDINAL \<and> cur = day_date start d"
  by (auto simp: add_days_eq day_date_def)

lemma reserve_day_effect:
  assumes "reserve_day srv tok a start d ts w = (r, ts', w')"
  shows "\<exists>es. trace w' = trace w @ es \<and> slept es = 0 \<and>
      requests_of es = (case add_days start d of Inl _ \<Rightarrow> []
         | Inr cur \<Rightarrow> if skip_day a (weekday cur) then [] else [reserves_request tok (date_str cur)]) \<and>
      (ts' = ts \<or> (\<exists>cur f. add_days start d = Inr cur \<and> \<not> skip_day a (weekday cur) \<and>
         ts' = ts @ [Reserve_food tok (date_str cur) f])) \<and>
      ((\<exists>cur. add_days start d = Inr cur) \<or> (\<exists>e. r = Inl e))"
proof (cases "add_days start d")
  case (Inl e)
  then show ?thesis using assms by (auto simp: reserve_day_def)
next
  case (Inr cur)
  show ?thesis
  proof (cases "skip_day a (weekday cur)")
    case True
    then show ?thesis
      using assms Inr by (auto simp: reserve_day_def skip_day_def Let_def py_print_def)
  next
    case False
    let ?q = "reserves_request tok (date_str cur)"
    let ?w1 = "w\<lparr>trace := trace w @ [Http ?q (srv (trace w) ?q)]\<rparr>"
    have gr: "get_reserves srv tok (date_str cur) w =
        (case srv (trace w) ?q of Conn_error \<Rightarrow> Inl ConnectionError | Response c b \<Rightarrow> response_json b, ?w1)"
      by (rule get_reserves_eq)
    show ?thesis
    proof (cases "fst (get_reserves srv tok (date_str cur) w)")
      case (Inl e)
      then show ?thesis
        using assms Inr False gr by (auto simp: reserve_day_def skip_day_def Let_def)
    next
      case (Inr resp)
      then have rd: "handle_reserves tok a (date_str cur) resp ts ?w1 = (r, ts', w')"
        using assms \<open>add_days start d = Inr cur\<close> False gr
        by (auto simp: reserve_day_def skip_day_def Let_def split: prod.splits)
      obtain es where "trace w' = trace ?w1 @ es" "list_all console_event es"
        "ts' = ts \<or> (\<exists>f. ts' = ts @ [Reserve_food tok (date_str cur) f])"
        using handle_reserves_effect [OF rd] by blast
      then show ?thesis
        using \<open>add_days start d = Inr cur\<close> False console_quiet [of es]
        by (intro exI [of _ "Http ?q (srv (trace w) ?q) # es"]) auto
    qed
  qed
qed

lemma fetched_dates_Cons [simp]:
  "fetched_dates a start (d # ds) =
     (if skip_day a (weekday (day_date start d)) then [] else [date_str (day_date start d)]) @ fetched_dates a start ds"
  by (simp add: fetched_dates_def)

lemma fetched_dates_Nil [simp]: "fetched_dates a start [] = []"
  by (simp add: fetched_dates_def)

subsection \<open>The day loop\<close>

text \<open>
  The loop only appends to the trace; it never sleeps, and its requests are the
  fetches of the non-skipped days of a prefix of the day list, of all of it when
  it ends normally.
\<close>

lemma day_loop_trace:
  assumes "day_loop srv tok a start ds ts w = (r, ts', w')"
  shows "\<exists>es k. trace w' = trace w @ es \<and> slept es = 0 \<and> k \<le> length ds \<and> (isl r \<or> k = length ds) \<and>
    requests_of es = map (reserves_request tok) (fetched_dates a start (take k ds))"
  using assms
proof (induction ds arbitrary: ts w)
  case Nil
  then show ?case by auto
next
  case (Cons d ds)
  obtain r1 ts1 w1 where rd: "reserve_day srv tok a start d ts w = (r1, ts1, w1)"
    by (metis prod_cases3)
  obtain es1 where es1: "trace w1 = trace w @ es1" "slept es1 = 0"
    "requests_of es1 = (case add_days start d of Inl _ \<Rightarrow> []
       | Inr cur \<Rightarrow> if skip_day a (weekday cur) then [] else [reserves_request tok (date_str cur)])"
    and ok: "(\<exists>cur. add_days start d = Inr cur) \<or> (\<exists>e. r1 = Inl e)"
    using reserve_day_effect [OF rd] by blast
  have one: "requests_of es1 = map (reserves_request tok) (fetched_dates a start [d])"
    if "add_days start d = Inr cur" for cur
    using es1(3) that by (simp add: add_days_day_date)
  show ?case
  proof (cases r1)
    case (Inl e)
    then have res: "r = Inl e" "w' = w1" using Cons.prems rd by simp_all
    show ?thesis
    proof (cases "add_days start d")
      case (Inl e')
      then show ?thesis using res es1 by (intro exI [of _ es1] exI [of _ 0]) simp
    next
      case (Inr cur)
      then show ?thesis using res es1 one [OF Inr] by (intro exI [of _ es1] exI [of _ 1]) simp
    qed
  next
    case (Inr u)
    then obtain cur where cur: "add_days start d = Inr cur" using ok by auto
    have "day_loop srv tok a start ds ts1 w1 = (r, ts', w')" using Cons.prems rd Inr by simp
    then obtain es2 k where es2: "trace w' = trace w1 @ es2" "slept es2 = 0" "k \<le> length ds"
      "isl r \<or> k = length ds" "requests_of es2 = map (reserves_request tok) (fetched_dates a start (take k ds))"
      using Cons.IH by blast
    have "fetched_dates a start (take (Suc k) (d # ds)) = fetched_dates a start [d] @ fetched_dates a start (take k ds)"
      by simp
    then show ?thesis
      using es1 es2 one [OF cur] by (intro exI [of _ "es1 @ es2"] exI [of _ "Suc k"]) auto
  qed
qed

text \<open>
  The tasks the loop creates are appended in day order, one for some of the
  non-skipped days, each carrying the date string of its day.
\<close>

lemma day_loop_tasks:
  assumes "day_loop srv tok a start ds ts w = (r, ts', w')"
  shows "\<exists>new ds'. ts' = ts @ new \<and> subseq ds' ds \<and>
    map task_date new = map (\<lambda>d. date_str (day_date start d)) ds' \<and>
    (\<forall>d \<in> set ds'. 0 < toordinal start + d \<and> \<not> skip_day a (weekday (day_date start d)))"
  using assms
proof (induction ds arbitrary: ts w)
  case Nil
  then show ?case by auto
next
  case (Cons d ds)
  obtain r1 ts1 w1 where rd: "reserve_day srv tok a start d ts w = (r1, ts1, w1)"
    by (metis prod_cases3)
  have new1: "\<exists>new1 ds1. ts1 = ts @ new1 \<and> subseq ds1 [d] \<and>
      map task_date new1 = map (\<lambda>d. date_str (day_date start d)) ds1 \<and>
      (\<forall>d \<in> set ds1. 0 < toordinal start + d \<and> \<not> skip_day a (weekday (day_date start d)))"
  proof -
    have "ts1 = ts \<or> (\<exists>cur f. add_days start d = Inr cur \<and> \<not> skip_day a (weekday cur) \<and>
        ts1 = ts @ [Reserve_food tok (date_str cur) f])"
      using reserve_day_effect [OF rd] by blast
    then show ?thesis
    proof
      assume "ts1 = ts"
      then show ?thesis by (intro exI [of _ "[]"]) simp
    next
      assume "\<exists>cur f. add_days start d = Inr cur \<and> \<not> skip_day a (weekday cur) \<and>
        ts1 = ts @ [Reserve_food tok (date_str cur) f]"
      then show ?thesis
        by (auto simp: add_days_day_date task_date_def intro!: exI [of _ "[d]"])
    qed
  qed
  then obtain new1 ds1 where n1: "ts1 = ts @ new1" "subseq ds1 [d]"
      "map task_date new1 = map (\<lambda>d. date_str (day_date start d)) ds1"
      "\<forall>d \<in> set ds1. 0 < toordinal start + d \<and> \<not> skip_day a (weekday (day_date start d))"
    by blast
  show ?case
  proof (cases r1)
    case (Inl e)
    then have "ts' = ts1" using Cons.prems rd by simp
    moreover have "subseq ds1 (d # ds)"
      using subseq_rev_drop_many [OF n1(2), of ds] by simp
    ultimately show ?thesis using n1 by blast
  next
    case (Inr u)
    have "day_loop srv tok a start ds ts1 w1 = (r, ts', w')" using Cons.prems rd Inr by simp
    then obtain new2 ds2 where n2: "ts' = ts1 @ new2" "subseq ds2 ds"
      "map task_date new2 = map (\<lambda>d. date_str (day_date start d)) ds2"
      "\<forall>d \<in> set ds2. 0 < toordinal start + d \<and> \<not> skip_day a (weekday (day_date start d))"
      using Cons.IH by blast
    have "subseq (ds1 @ ds2) ([d] @ ds)"
      using n1(2) n2(2) by (rule list_emb_append_mono)
    then show ?thesis
      using n1 n2 by (intro exI [of _ "new1 @ new2"] exI [of _ "ds1 @ ds2"]) auto
  qed
qed

subsection \<open>Dates\<close>

lemma day_date_inj:
  "1 \<le> toordinal start \<Longrightarrow> date_str (day_date start d) = date_str (day_date start d') \<Longrightarrow> d = d'"
  using date_str_fromordinal_inj [of "toordinal start + d" "toordinal start + d'"]
  by (simp add: day_date_def)

lemma subseq_set: "subseq xs ys \<Longrightarrow> set xs \<subseteq> set ys"
  by (induction rule: list_emb.induct) auto

lemma subseq_distinct: "subseq xs ys \<Longrightarrow> distinct ys \<Longrightarrow> distinct xs"
  by (induction xs ys rule: list_emb.induct) (auto dest: list_emb_set)

lemma weekday_day_date [simp]:
  "1 \<le> toordinal start \<Longrightarrow> weekday (day_date start d) = (weekday start + d) mod 7"
  by (simp add: day_date_def weekday_def mod_add_right_eq ac_simps)

subsection \<open>The tasks\<close>

text \<open>Running the created tasks one after the other leaves one block of events per task, in order.\<close>

lemma run_reserve_block:
  "\<exists>b. trace (snd (run_reserve srv t w)) = trace w @ b \<and> task_block t b \<and>
     stdin (snd (run_reserve srv t w)) = stdin w \<and>
     slept b = (if fst (run_reserve srv t w) = Inr () then 10 else 0)"
proof (cases t)
  case (Reserve_food tok date food)
  obtain r w' where rf: "reserve_food srv tok date food w = (r, w')" by fastforce
  from reserve_food_outcome [OF rf] show ?thesis
    using rf Reserve_food
    by (auto simp: run_reserve_def task_block_def task_requests_def)
qed

lemma run_all_blocks:
  "\<exists>bs. trace (snd (run_all (run_reserve srv) ts w)) = trace w @ concat bs \<and> list_all2 task_block ts bs \<and>
     stdin (snd (run_all (run_reserve srv) ts w)) = stdin w \<and>
     sum_list (map slept bs) = 10 * length (filter (\<lambda>r. r = Inr ()) (fst (run_all (run_reserve srv) ts w)))"
proof (induction ts arbitrary: w)
  case Nil
  then show ?case by simp
next
  case (Cons t ts)
  obtain r w1 where rt: "run_reserve srv t w = (r, w1)" by fastforce
  obtain b where b: "trace w1 = trace w @ b" "task_block t b" "stdin w1 = stdin w"
      "slept b = (if r = Inr () then 10 else 0)"
    using run_reserve_block [of srv t w] rt by auto
  obtain bs where "trace (snd (run_all (run_reserve srv) ts w1)) = trace w1 @ concat bs"
      "list_all2 task_block ts bs" "stdin (snd (run_all (run_reserve srv) ts w1)) = stdin w1"
      "sum_list (map slept bs) = 10 * length (filter (\<lambda>r. r = Inr ()) (fst (run_all (run_reserve srv) ts w1)))"
    using Cons.IH by blast
  then show ?case
    using rt b by (intro exI [of _ "b # bs"]) (auto split: prod.splits)
qed

lemma task_block_requests: "task_block t b \<Longrightarrow> requests_of b = task_requests t \<and> prompts_of b = []"
  by (auto simp: task_block_def split: list.splits)

lemma blocks_requests:
  "list_all2 task_block ts bs \<Longrightarrow>
     requests_of (concat bs) = concat (map task_requests ts) \<and> prompts_of (concat bs) = []"
  by (induction rule: list_all2_induct) (auto dest: task_block_requests)

lemma slept_concat: "slept (concat bs) = sum_list (map slept bs)"
  by (induction bs) auto

lemma reserves_request_inj: "reserves_request tok d = reserves_request tok' d' \<Longrightarrow> d = d'"
proof -
  assume "reserves_request tok d = reserves_request tok' d'"
  then have e: "d @ ''&toDate='' @ d = d' @ ''&toDate='' @ d'"
    by (simp add: reserves_request_def reserves_url_def)
  then have "length (d @ ''&toDate='' @ d) = length (d' @ ''&toDate='' @ d')"
    by (rule arg_cong)
  then have "length d = length d'"
    by simp
  then show "d = d'" using e by simp
qed

lemma main_body_cases:
  obtains (login_failed) e where "main_body srv a today w = (Inl e, [], snd (get_bearer_token srv (username a) (password a) w))"
    | (logged_in) tok where "get_bearer_token srv (username a) (password a) w = (Inr tok, snd (get_bearer_token srv (username a) (password a) w))"
      "main_body srv a today w = day_loop srv tok a today [0..<HORIZON] [] (snd (get_bearer_token srv (username a) (password a) w))"
proof -
  obtain r w1 where g: "get_bearer_token srv (username a) (password a) w = (r, w1)" by fastforce
  show thesis
  proof (cases r)
    case (Inl e)
    then show thesis using g by (intro that(1) [of e]) (simp add: main_body_def)
  next
    case (Inr tok)
    then show thesis using g by (intro that(2) [of tok]) (simp_all add: main_body_def)
  qed
qed

lemma main_body_task_dates:
  "set (map task_date (fst (snd (main_body srv a today w)))) \<subseteq> set (fetched_dates a today [0..<HORIZON])"
proof (cases rule: main_body_cases [of srv a today w])
  case (login_failed e)
  then show ?thesis by simp
next
  case (logged_in tok)
  obtain r ts w' where dl: "day_loop srv tok a today [0..<HORIZON] [] (snd (get_bearer_token srv (username a) (password a) w)) = (r, ts, w')"
    by (metis prod_cases3)
  then obtain ds' where "subseq ds' [0..<HORIZON]" "map task_date ts = map (\<lambda>d. date_str (day_date today d)) ds'"
      "\<forall>d \<in> set ds'. \<not> skip_day a (weekday (day_date today d))"
    using day_loop_tasks [OF dl] by auto
  then show ?thesis
    using logged_in dl subseq_set [of ds' "[0..<HORIZON]"] by (auto simp: fetched_dates_def)
qed

lemma skipped_not_fetched:
  assumes "1 \<le> toordinal today" "skip_day a (weekday (day_date today d))"
  shows "date_str (day_date today d) \<notin> set (fetched_dates a today ds)"
  using day_date_inj [OF assms(1), of d] assms(2) by (auto simp: fetched_dates_def)

lemma login_not_reserves_request [simp]:
  "login_request u p \<noteq> reserves_request tok d" "reserves_request tok d \<noteq> login_request u p"
  by (simp_all add: login_request_def reserves_request_def)

lemma main_body_slept: "slept (trace (snd (snd (main_body srv a today w)))) = slept (trace w)"
proof (cases rule: main_body_cases [of srv a today w])
  case (login_failed e)
  then show ?thesis using get_bearer_token_trace [of srv "username a" "password a" w] by auto
next
  case (logged_in tok)
  let ?w0 = "snd (get_bearer_token srv (username a) (password a) w)"
  obtain r ts w' where dl: "day_loop srv tok a today [0..<HORIZON] [] ?w0 = (r, ts, w')"
    by (metis prod_cases3)
  then show ?thesis
    using logged_in get_bearer_token_trace [of srv "username a" "password a" w] day_loop_trace [OF dl] by auto
qed

subsection \<open>The day filter\<close>

text \<open>
  C6: a day whose weekday is 5 (Saturday) is skipped without a request, a message or a
  task, whatever the flags; a day whose weekday is 4 (Friday) is skipped the same way
  when \<open>include_thursdays\<close> is unset, except that the message
  \<open>Skipping Thursday: <date>\<close> is printed.
\<close>

theorem reserve_day_skipped:
  assumes "add_days start d = Inr cur" "skip_day a (weekday cur)"
  shows "reserve_day srv tok a start d ts w =
    (Inr (), ts, if weekday cur = 4 then py_print (skipping_msg (date_str cur)) w else w)"
  using assms by (auto simp: reserve_day_def skip_day_def)

text \<open>
  C7: every other day, Thursday (weekday 3) included and Friday included when the flag
  is set, is fetched: its outcome is that of \<open>get_reserves\<close> for its date followed by
  the handling of the response.
\<close>

theorem reserve_day_fetched:
  assumes "add_days start d = Inr cur" "\<not> skip_day a (weekday cur)"
  shows "reserve_day srv tok a start d ts w =
    (case get_reserves srv tok (date_str cur) w of
       (Inl e, w1) \<Rightarrow> (Inl e, ts, w1)
     | (Inr resp, w1) \<Rightarrow> handle_reserves tok a (date_str cur) resp ts w1)"
  using assms by (auto simp: reserve_day_def skip_day_def Let_def)

text \<open>
  C8: an answer whose \<open>status\<close> is not \<open>"OK"\<close> creates no task: its message
  and the date are printed and the loop goes on with the next day.
\<close>

theorem handle_reserves_not_ok:
  assumes "getitem_key resp ''status'' = Inr st" "\<not> py_eq_str st ''OK''"
    and "getitem_key resp ''message'' = Inr m"
  shows "handle_reserves tok a date resp ts w = (Inr (), ts, py_print (failed_reserves_msg m date) w)"
  using assms by (simp add: handle_reserves_def)

text \<open>
  C9: an \<open>"OK"\<close> answer whose list of days is empty, or whose first day has no
  reservable item, creates no task and prints \<open>No reserves available for <date>.\<close>.
\<close>

theorem handle_reserves_empty:
  assumes "getitem_key resp ''status'' = Inr (JStr ''OK'')" "getitem_key resp ''data'' = Inr rl"
    and "\<not> py_truthy rl \<or> (first_reserves rl = Inr rs \<and> \<not> py_truthy rs)"
  shows "handle_reserves tok a date resp ts w = (Inr (), ts, py_print (no_reserves_msg date) w)"
  using assms by (auto simp: handle_reserves_def py_eq_str_def)

text \<open>
  C10: in lazy mode an \<open>"OK"\<close> answer whose first day lists the items
  \<open>f # fs\<close> creates the task reserving \<open>f\<close>, the item at index 0, for that date,
  without reading input or printing anything.
\<close>

theorem handle_reserves_lazy:
  assumes "lazy_mode a" "getitem_key resp ''status'' = Inr (JStr ''OK'')"
    and "getitem_key resp ''data'' = Inr (JArr (first_day # days))"
    and "getitem_key first_day ''reserves'' = Inr (JArr (f # fs))"
  shows "handle_reserves tok a date resp ts w = (Inr (), ts @ [Reserve_food tok date f], w)"
  using assms by (simp add: handle_reserves_def py_eq_str_def first_reserves_def choose_food_def)

subsection \<open>The loop and \<open>main\<close>\<close>

text \<open>
  C4: a run of the day loop that ends normally has fetched exactly the non-skipped days,
  one GET each, in day order, and nothing else.
\<close>

theorem day_loop_requests:
  assumes "day_loop srv tok a start ds ts w = (Inr u, ts', w')"
  shows "requests_of (trace w') = requests_of (trace w) @ map (reserves_request tok) (fetched_dates a start ds)"
proof -
  obtain es k where "trace w' = trace w @ es" "k \<le> length ds" "isl (Inr u :: unit py_result) \<or> k = length ds"
      "requests_of es = map (reserves_request tok) (fetched_dates a start (take k ds))"
    using day_loop_trace [OF assms] by blast
  then show ?thesis by simp
qed

text \<open>
  Over the 36-day horizon starting on a Monday, the days the filter admits number 26
  when \<open>include_thursdays\<close> is unset (36 minus five days of weekday 4 and five of
  weekday 5) and 31 when it is set.
\<close>

lemma fetched_count_from_monday:
  assumes "1 \<le> toordinal today" "weekday today = 0"
  shows "length (fetched_dates a today [0..<HORIZON]) = (if include_thursdays a then 31 else 26)"
  using assms by (simp add: fetched_dates_def skip_day_def HORIZON_def upt_rec)

lemma fetched_dates_take_le: "length (fetched_dates a start (take k ds)) \<le> length (fetched_dates a start ds)"
  by (metis append_take_drop_id filter_append fetched_dates_def le_add1 length_append length_map)

lemma reserves_request_GET [simp]: "req_method (reserves_request tok d) = GET"
  by (simp add: reserves_request_def req_method_def)

lemma login_request_POST [simp]: "req_method (login_request u p) = POST"
  by (simp add: login_request_def req_method_def)

text \<open>
  C5: the GET requests \<open>main\<close> sends, counted on the trace it produces: from a Monday at
  most 26 (31 with \<open>include_thursdays\<close>), and exactly that many when the day loop runs
  to its end, whatever the service answers and the user types.
\<close>

theorem main_fetch_count_from_monday:
  assumes "1 \<le> toordinal today" "weekday today = 0"
    and "main_body srv a today w = (r, ts, w')"
  shows "\<exists>es. trace w' = trace w @ es \<and>
    length (filter (\<lambda>q. req_method q = GET) (requests_of es)) \<le> (if include_thursdays a then 31 else 26) \<and>
    (isl r \<or> length (filter (\<lambda>q. req_method q = GET) (requests_of es)) = (if include_thursdays a then 31 else 26))"
proof -
  have "\<exists>es. trace (snd (snd (main_body srv a today w))) = trace w @ es \<and>
    length (filter (\<lambda>q. req_method q = GET) (requests_of es)) \<le> (if include_thursdays a then 31 else 26) \<and>
    (fst (main_body srv a today w) = Inr () \<longrightarrow>
       length (filter (\<lambda>q. req_method q = GET) (requests_of es)) = (if include_thursdays a then 31 else 26))"
  proof -
  let ?N = "if include_thursdays a then 31 else 26 :: nat"
  obtain tl where login: "trace (snd (get_bearer_token srv (username a) (password a) w)) =
      trace w @ Http (login_request (username a) (password a)) (srv (trace w) (login_request (username a) (password a))) # tl"
      "requests_of tl = []"
    using get_bearer_token_trace [of srv "username a" "password a" w] by blast
  show ?thesis
  proof (cases rule: main_body_cases [of srv a today w])
    case (login_failed e)
    then show ?thesis using login by (intro exI [of _ "Http (login_request (username a) (password a))
        (srv (trace w) (login_request (username a) (password a))) # tl"]) simp
  next
    case (logged_in tok)
    let ?w0 = "snd (get_bearer_token srv (username a) (password a) w)"
    obtain r ts w' where dl: "day_loop srv tok a today [0..<HORIZON] [] ?w0 = (r, ts, w')"
      by (metis prod_cases3)
    then obtain es k where es: "trace w' = trace ?w0 @ es" "isl r \<or> k = length [0..<HORIZON]"
        "requests_of es = map (reserves_request tok) (fetched_dates a today (take k [0..<HORIZON]))"
      using day_loop_trace [OF dl] by blast
    have get: "length (filter (\<lambda>q. req_method q = GET) (requests_of es)) = length (fetched_dates a today (take k [0..<HORIZON]))"
      using es(3) by (simp add: filter_map comp_def)
    have "length (fetched_dates a today (take k [0..<HORIZON])) \<le> ?N"
      using fetched_dates_take_le [of a today k "[0..<HORIZON]"] fetched_count_from_monday [OF assms(1,2), of a] by simp
    moreover have "r = Inr () \<Longrightarrow> length (fetched_dates a today (take k [0..<HORIZON])) = ?N"
      using es(2) fetched_count_from_monday [OF assms(1,2), of a] by auto
    ultimately show ?thesis
      using logged_in dl login es(1) get
      by (intro exI [of _ "Http (login_request (username a) (password a))
          (srv (trace w) (login_request (username a) (password a))) # tl @ es"]) simp
  qed
qed
  then show ?thesis using assms(3) by (cases r) auto
qed

text \<open>
  C3: \<open>main\<close> creates at most one reservation task per date.
\<close>

theorem main_body_distinct_dates:
  assumes "1 \<le> toordinal today"
  shows "distinct (map task_date (fst (snd (main_body srv a today w))))"
proof (cases rule: main_body_cases [of srv a today w])
  case (login_failed e)
  then show ?thesis by simp
next
  case (logged_in tok)
  obtain r ts w' where dl: "day_loop srv tok a today [0..<HORIZON] [] (snd (get_bearer_token srv (username a) (password a) w)) = (r, ts, w')"
    by (metis prod_cases3)
  then obtain ds' where "subseq ds' [0..<HORIZON]" "map task_date ts = map (\<lambda>d. date_str (day_date today d)) ds'"
    using day_loop_tasks [OF dl] by auto
  moreover have "inj_on (\<lambda>d. date_str (day_date today d)) (set ds')"
    using assms day_date_inj [of today] unfolding inj_on_def by blast
  ultimately show ?thesis
    using logged_in dl subseq_distinct [of ds' "[0..<HORIZON]"] by (simp add: distinct_map)
qed

text \<open>
  C2: for a day of the horizon that the filter skips (weekday 5 always, weekday 4 unless
  \<open>include_thursdays\<close>), \<open>main\<close> neither fetches the items of its date nor creates a
  task for it, whatever the service answers and the user types.
\<close>

theorem main_body_skipped_untouched:
  assumes "1 \<le> toordinal today" "skip_day a (weekday (day_date today d))"
  shows "\<exists>es. trace (snd (snd (main_body srv a today w))) = trace w @ es \<and>
      (\<forall>tok. reserves_request tok (date_str (day_date today d)) \<notin> set (requests_of es)) \<and>
      date_str (day_date today d) \<notin> set (map task_date (fst (snd (main_body srv a today w))))"
proof (cases rule: main_body_cases [of srv a today w])
  case (login_failed e)
  then show ?thesis using get_bearer_token_trace [of srv "username a" "password a" w] by auto
next
  case (logged_in tok)
  let ?w0 = "snd (get_bearer_token srv (username a) (password a) w)"
  let ?date = "date_str (day_date today d)"
  obtain r ts w' where dl: "day_loop srv tok a today [0..<HORIZON] [] ?w0 = (r, ts, w')"
    by (metis prod_cases3)
  obtain tl where tl: "trace ?w0 = trace w @ Http (login_request (username a) (password a))
      (srv (trace w) (login_request (username a) (password a))) # tl" "requests_of tl = []"
    using get_bearer_token_trace [of srv "username a" "password a" w] by auto
  obtain es k where es: "trace w' = trace ?w0 @ es"
      "requests_of es = map (reserves_request tok) (fetched_dates a today (take k [0..<HORIZON]))"
    using day_loop_trace [OF dl] by blast
  have "?date \<notin> set (fetched_dates a today (take k [0..<HORIZON]))"
    using assms by (rule skipped_not_fetched)
  then have nq: "reserves_request tok' ?date \<notin> set (requests_of es)" for tok'
    using es(2) by (auto dest: reserves_request_inj)
  obtain ds' where "map task_date ts = map (\<lambda>d. date_str (day_date today d)) ds'"
      "\<forall>d \<in> set ds'. \<not> skip_day a (weekday (day_date today d))"
    using day_loop_tasks [OF dl] by auto
  then have "?date \<notin> set (map task_date ts)"
    using day_date_inj [OF assms(1), of d] assms(2) by auto
  then show ?thesis
    using logged_in dl tl es(1) nq
    by (intro exI [of _ "Http (login_request (username a) (password a))
      (srv (trace w) (login_request (username a) (password a))) # tl @ es"]) auto
qed

subsection \<open>The whole program\<close>

text \<open>
  C1: the submissions are serialized. After everything \<open>main\<close> did (its login,
  its fetches, every prompt), the trace holds one contiguous block per created task, in
  creation order: the task's PUT, then its printed line and \<open>time.sleep(10)\<close> when it
  completes. No prompt comes after the first submission, and the PUTs are exactly those of
  the tasks. The specification's concurrent, non-serializing submitters are not what the
  code does: \<open>reserve_food\<close> never awaits and \<open>time.sleep\<close> blocks the loop.
\<close>

theorem reserve_main_serialized:
  assumes "main_body srv a today w = (r, ts, wm)" "\<not> is_sysexit r"
  shows "\<exists>r' w' bs. reserve_main srv a today w = Some (r', w') \<and>
    trace w' = trace wm @ concat bs \<and> list_all2 task_block ts bs \<and>
    requests_of (concat bs) = concat (map task_requests ts) \<and> prompts_of (concat bs) = [] \<and>
    stdin w' = stdin wm"
proof -
  obtain bs where bs: "trace (snd (run_all (run_reserve srv) ts wm)) = trace wm @ concat bs"
      "list_all2 task_block ts bs" "stdin (snd (run_all (run_reserve srv) ts wm)) = stdin wm"
    using run_all_blocks [of srv ts wm] by blast
  have "reserve_main srv a today w = Some (case r of Inl e \<Rightarrow> Inl e
      | Inr _ \<Rightarrow> gather_result (fst (run_all (run_reserve srv) ts wm)), snd (run_all (run_reserve srv) ts wm))"
    using assms by (simp add: reserve_main_def asyncio_run_sequential)
  then show ?thesis
    using bs blocks_requests [OF bs(2)] by blast
qed

text \<open>
  C12: pacing. When \<open>main\<close> did not exit, the run sleeps exactly 10 seconds per task
  that completed normally and nowhere else; since the sleeps are serialized (C1), the
  submissions take at least that long in total.
\<close>

theorem reserve_main_pacing:
  assumes "main_body srv a today w = (r, ts, wm)" "\<not> is_sysexit r"
  shows "\<exists>r' w'. reserve_main srv a today w = Some (r', w') \<and>
    slept (trace w') = slept (trace w) + 10 * length (filter (\<lambda>x. x = Inr ()) (fst (run_all (run_reserve srv) ts wm)))"
proof -
  obtain bs where bs: "trace (snd (run_all (run_reserve srv) ts wm)) = trace wm @ concat bs"
      "sum_list (map slept bs) = 10 * length (filter (\<lambda>x. x = Inr ()) (fst (run_all (run_reserve srv) ts wm)))"
    using run_all_blocks [of srv ts wm] by blast
  have "slept (trace wm) = slept (trace w)"
    using main_body_slept [of srv a today w] assms(1) by simp
  moreover have "reserve_main srv a today w = Some (case r of Inl e \<Rightarrow> Inl e
      | Inr _ \<Rightarrow> gather_result (fst (run_all (run_reserve srv) ts wm)), snd (run_all (run_reserve srv) ts wm))"
    using assms by (simp add: reserve_main_def asyncio_run_sequential)
  ultimately show ?thesis
    using bs by (simp add: slept_concat)
qed

text \<open>
  C11: a failed login (any status but 200, with a JSON \<open>message\<close>) ends the whole
  program right after printing the message: no date is fetched, no task is created or run,
  and the exit status is 0, the same as a successful run.
\<close>

theorem reserve_main_login_failure:
  assumes "srv (trace w) (login_request (username a) (password a)) = Response c (Some (JObj kvs))"
    and "c \<noteq> 200" "map_of kvs ''message'' = Some m"
  shows "reserve_main srv a today w =
      Some (Inl (SystemExit None), w\<lparr>trace := trace w @ [Http (login_request (username a) (password a))
        (Response c (Some (JObj kvs))), Stdout (''Failed to get token: '' @ py_str m)]\<rparr>)
    \<and> exit_status (fst (the (reserve_main srv a today w))) = 0"
  using get_bearer_token_failure [where srv = srv and u = "username a" and p = "password a", OF assms]
  by (simp add: reserve_main_def main_body_def asyncio_run_def)

subsection \<open>Lazy and interactive selection\<close>

lemma py_int_one: "py_int ''1'' = Inr 1"
  using py_int_digits(1) [of "''1''"]
  by (simp add: is_dec_digit_def MAX_STR_DIGITS_def digits_value_def digit_value_def)

text \<open>
  C18: every state of the event loop that \<open>asyncio.run\<close> drives after \<open>main\<close>
  suspends is well formed: it holds exactly the tasks \<open>main\<close> created, one result
  slot each, its queued handles name existing tasks, a gather callback is queued only for
  a finished task, and every task is for a date whose items were fetched.
\<close>

theorem reserve_loop_wf:
  assumes "main_body srv a today w = (r, ts, wm)"
    and "loop_reachable (run_reserve srv) r ts wm s"
  shows "wf_loop ts s \<and> set (map task_date (tasks s)) \<subseteq> set (fetched_dates a today [0..<HORIZON])"
proof -
  have wf: "wf_loop ts s" using assms(2) by (rule loop_reachable_wf)
  then have "tasks s = ts" by (simp add: wf_loop_def)
  then show ?thesis using wf main_body_task_dates [of srv a today w] assms(1) by simp
qed

text \<open>
  C26: bound on the submissions: \<open>main\<close> creates at most one task per fetched day, so
  never more tasks than days the filter admits, and never more than the 36 days of the
  horizon (26 from a Monday without \<open>--include-thursdays\<close>, as in C5).
\<close>

theorem main_body_task_bound:
  "length (fst (snd (main_body srv a today w))) \<le> length (fetched_dates a today [0..<HORIZON]) \<and>
   length (fetched_dates a today [0..<HORIZON]) \<le> HORIZON"
proof
  show "length (fst (snd (main_body srv a today w))) \<le> length (fetched_dates a today [0..<HORIZON])"
  proof (cases rule: main_body_cases [of srv a today w])
    case (login_failed e)
    then show ?thesis by simp
  next
    case (logged_in tok)
    obtain r ts w' where dl: "day_loop srv tok a today [0..<HORIZON] [] (snd (get_bearer_token srv (username a) (password a) w)) = (r, ts, w')"
      by (metis prod_cases3)
    then obtain ds' where "subseq ds' [0..<HORIZON]" "map task_date ts = map (\<lambda>d. date_str (day_date today d)) ds'"
        "\<forall>d \<in> set ds'. \<not> skip_day a (weekday (day_date today d))"
      using day_loop_tasks [OF dl] by auto
    moreover from this have "subseq ds' (filter (\<lambda>d. \<not> skip_day a (weekday (day_date today d))) [0..<HORIZON])"
      using subseq_filter [of ds' "[0..<HORIZON]" "\<lambda>d. \<not> skip_day a (weekday (day_date today d))"]
      by (simp add: filter_id_conv)
    ultimately show ?thesis
      using logged_in dl by (auto simp: fetched_dates_def dest!: list_emb_length arg_cong [of _ _ length])
  qed
  show "length (fetched_dates a today [0..<HORIZON]) \<le> HORIZON"
    using length_filter_le [of "\<lambda>d. \<not> skip_day a (weekday (day_date today d))" "[0..<HORIZON]"]
    by (simp add: fetched_dates_def)
qed

text \<open>
  C20: the two selection modes agree when the user answers \<open>1\<close>: the interactive
  path (menu, prompt, \<open>int\<close>, \<open>reserves_list[choice - 1]\<close>) picks the same item as
  lazy mode's \<open>reserves_list[0]\<close>, having read exactly that one line, while lazy mode
  touches nothing.
\<close>

theorem choose_food_answer_one:
  assumes "first_reserves rl = Inr (JArr (f # fs))"
    and "list_all (\<lambda>x. \<exists>n. getitem_key x ''food'' = Inr n) (f # fs)"
    and "stdin w = ''1'' # rest"
  shows "fst (choose_food False rl w) = fst (choose_food True rl w) \<and> fst (choose_food True rl w) = Inr f \<and>
    stdin (snd (choose_food False rl w)) = rest \<and> snd (choose_food True rl w) = w"
proof -
  let ?w1 = "py_print ''Available foods:'' w"
  obtain w2 where pm: "print_menu 1 (f # fs) ?w1 = (Inr (), w2)" and st: "stdin w2 = ''1'' # rest"
    using print_menu_ok [OF assms(2), of 1 ?w1] assms(3) by (cases "print_menu 1 (f # fs) ?w1") auto
  have "choose_food False rl w = choose_loop (JArr (f # fs)) w2"
    using assms(1) pm by (simp add: choose_food_def display_and_choose_food_def)
  also have "\<dots> = (Inr f, w2\<lparr>stdin := rest, trace := trace w2 @
      [Stdin (choice_prompt (length (f # fs))) (Some ''1'')]\<rparr>)"
    using choose_loop_accept [of "JArr (f # fs)" "length (f # fs)" w2 "''1''" rest 1] st py_int_one by simp
  finally show ?thesis
    using assms(1) by (simp add: choose_food_def)
qed

end
