(* ===== verification/Cli.thy ===== *)
theory Cli
  imports Reserve
begin

text \<open>
  The entry point of \<^verbatim>\<open>src/reserve.py\<close> (lines 90--102): the \<open>argparse\<close> parser
  built at lines 91--99, \<open>parser.parse_args()\<close> at line 101 and the call of \<open>main\<close>
  at line 102. The parser is modelled after \<open>argparse.py\<close> of CPython 3.11.10, restricted
  to what this parser uses (long options, the automatic \<open>-h/--help\<close>, no positional
  arguments): \<open>_parse_optional\<close> classifies each command-line string, with unique
  prefixes of long options accepted (\<open>allow_abbrev\<close>), \<open>--opt=value\<close> split at the
  first \<open>=\<close>, strings that look like negative numbers or contain a space taken as
  values, and every string after \<open>--\<close> taken as a value; \<open>_parse_known_args\<close> then
  consumes them from left to right. \<open>parser.error\<close> raises \<open>SystemExit(2)\<close> and the
  help action \<open>SystemExit(0)\<close>, both before \<open>main\<close> runs.
\<close>

section \<open>The parser of lines 91--99\<close>

text \<open>One action per \<open>add_argument\<close> call, and the help action every parser has.\<close>

datatype cli_action = Help_action | Store_username | Store_password
  | Store_true_thursdays | Store_true_lazy

definition cli_options :: "(string \<times> cli_action) list" where
  "cli_options =
     [(''-h'', Help_action), (''--help'', Help_action),
      (''--username'', Store_username), (''--password'', Store_password),
      (''--include-thursdays'', Store_true_thursdays), (''--lazy-mode'', Store_true_lazy)]"

section \<open>Classifying a command-line string\<close>

text \<open>\<open>str.partition('=')\<close>: the option string and, after a \<open>=\<close>, the explicit argument.\<close>

definition partition_eq :: "string \<Rightarrow> string \<times> string option" where
  "partition_eq s =
     (takeWhile (\<lambda>c. c \<noteq> CHR ''='') s,
      if CHR ''='' \<in> set s then Some (tl (dropWhile (\<lambda>c. c \<noteq> CHR ''='') s)) else None)"

text \<open>
  \<open>_negative_number_matcher\<close>, the regular expression \<open>^-\d+$|^-\d*\.\d+$\<close>, where
  \<open>$\<close> also matches before a final newline (\<open>\d\<close> matches only ASCII digits among
  the characters of the model).
\<close>

definition is_negative_number :: "string \<Rightarrow> bool" where
  "is_negative_number s \<longleftrightarrow>
     (let b = (if s \<noteq> [] \<and> last s = CHR 0x0A then butlast s else s)
      in b \<noteq> [] \<and> hd b = CHR ''-'' \<and>
         ((tl b \<noteq> [] \<and> list_all is_dec_digit (tl b)) \<or>
          (list_all is_dec_digit (takeWhile (\<lambda>c. c \<noteq> CHR ''.'') (tl b)) \<and>
           (case dropWhile (\<lambda>c. c \<noteq> CHR ''.'') (tl b) of
              _ # f \<Rightarrow> f \<noteq> [] \<and> list_all is_dec_digit f
            | [] \<Rightarrow> False))))"

text \<open>
  \<open>_get_option_tuples\<close>: a string starting with \<open>--\<close> matches every option string of
  which its part before \<open>=\<close> is a prefix; a string starting with a single \<open>-\<close> matches
  the short option of its first two characters, the rest being the explicit argument.
  Each match is the action, the option string, whether the explicit argument followed a
  \<open>=\<close>, and the explicit argument.
\<close>

definition get_option_tuples :: "string \<Rightarrow> (cli_action \<times> string \<times> bool \<times> string option) list" where
  "get_option_tuples s =
     (if take 2 s = ''--'' then
        (case partition_eq s of (p, e) \<Rightarrow>
           map (\<lambda>(opt, act). (act, opt, e \<noteq> None, e)) (filter (\<lambda>(opt, act). prefix p opt) cli_options))
      else
        concat (map (\<lambda>(opt, act).
            if opt = take 2 s then [(act, opt, False, Some (drop 2 s))]
            else if prefix s opt then [(act, opt, False, None)] else []) cli_options))"

text \<open>
  The class of a command-line string: a value (\<open>A\<close> in the pattern of
  \<open>_parse_known_args\<close>), an option with its action, option string, whether an explicit
  argument followed a \<open>=\<close>, and explicit argument (\<open>O\<close>), a string that names no
  option, an ambiguous prefix, or the separator \<open>--\<close>.
\<close>

datatype arg_class = Positional | Optional cli_action string bool "string option"
  | Unknown_option | Ambiguous_option | Separator

text \<open>
  \<open>_parse_optional\<close>: an exact option string, then an option string before a \<open>=\<close>,
  then the option a prefix names; failing these, a negative number or a string with a
  space is a value and anything else an unknown option.
\<close>

definition parse_optional :: "string \<Rightarrow> arg_class" where
  "parse_optional s =
     (if s = [] \<or> hd s \<noteq> CHR ''-'' then Positional
      else case map_of cli_options s of
        Some act \<Rightarrow> Optional act s False None
      | None \<Rightarrow>
          if length s = 1 then Positional
          else (case (case partition_eq s of
                       (opt, Some e) \<Rightarrow> map_option (\<lambda>act. Optional act opt True (Some e)) (map_of cli_options opt)
                     | (opt, None) \<Rightarrow> None) of
                 Some c \<Rightarrow> c
               | None \<Rightarrow>
                   (case get_option_tuples s of
                      [(act, opt, eq, e)] \<Rightarrow> Optional act opt eq e
                    | [] \<Rightarrow> if is_negative_number s \<or> CHR '' '' \<in> set s then Positional else Unknown_option
                    | _ \<Rightarrow> Ambiguous_option)))"

section \<open>Consuming the classified strings\<close>

text \<open>
  The size of what is left to consume: the strings, and the explicit argument of each
  option, which shrinks while \<open>-hh\<close> is taken apart.
\<close>

fun class_weight :: "arg_class \<Rightarrow> nat" where
  "class_weight (Optional act opt eq (Some e)) = Suc (length e)"
| "class_weight _ = 0"

definition args_weight :: "(string \<times> arg_class) list \<Rightarrow> nat" where
  "args_weight cs = length cs + sum_list (map (\<lambda>(s, c). class_weight c) cs)"

text \<open>
  The loop of \<open>_parse_known_args\<close> with \<open>consume_optional\<close>, from left to right,
  threading the namespace and the actions seen. A value or an unknown option goes to the
  extras. \<open>store_true\<close> takes no argument. \<open>store\<close> takes its explicit argument, or
  the next string, which must be a value (\<open>expected one argument\<close>). The help action
  exits at once; glued to a single-dash option string, its explicit argument is read as
  further single-dash options (\<open>-hh\<close>), and a character naming none ends the string;
  a \<open>=\<close> or a \<open>-\<close> there is an error (as \<open>consume_optional\<close> of 3.11.10 checks).
  At the end, an option with \<open>required=True\<close> not seen and any extras are errors. The
  namespace starts from the defaults; the \<open>None\<close> of the two required options is never
  returned, and is written \<open>''''\<close>.
\<close>

function consume_args :: "(string \<times> arg_class) list \<Rightarrow> args \<Rightarrow> cli_action list \<Rightarrow> bool \<Rightarrow> args py_result" where
  "consume_args [] ns seen extras =
     (if Store_username \<notin> set seen \<or> Store_password \<notin> set seen \<or> extras
      then Inl (SystemExit (Some 2)) else Inr ns)"
| "consume_args ((s, Optional act opt eq e) # ts) ns seen extras =
     (case act of
        Help_action \<Rightarrow>
          (case e of
             None \<Rightarrow> Inl (SystemExit (Some 0))
           | Some [] \<Rightarrow> Inl (SystemExit (Some 2))
           | Some (c # cs) \<Rightarrow>
               if take 2 opt = ''--'' \<or> eq \<or> c = CHR ''-'' then Inl (SystemExit (Some 2))
               else if c = CHR ''h'' then
                 (case cs of
                    [] \<Rightarrow> consume_args ((s, Optional Help_action opt False None) # ts) ns seen extras
                  | y # ys \<Rightarrow>
                      if y = CHR ''='' then consume_args ((s, Optional Help_action opt True (Some ys)) # ts) ns seen extras
                      else consume_args ((s, Optional Help_action opt False (Some (y # ys))) # ts) ns seen extras)
               else Inl (SystemExit (Some 0)))
      | Store_true_thursdays \<Rightarrow>
          if e = None then consume_args ts (ns\<lparr>include_thursdays := True\<rparr>) (act # seen) extras
          else Inl (SystemExit (Some 2))
      | Store_true_lazy \<Rightarrow>
          if e = None then consume_args ts (ns\<lparr>lazy_mode := True\<rparr>) (act # seen) extras
          else Inl (SystemExit (Some 2))
      | Store_username \<Rightarrow>
          (case e of
             Some v \<Rightarrow> consume_args ts (ns\<lparr>username := v\<rparr>) (act # seen) extras
           | None \<Rightarrow> (case ts of
                        (v, Positional) # ts' \<Rightarrow> consume_args ts' (ns\<lparr>username := v\<rparr>) (act # seen) extras
                      | _ \<Rightarrow> Inl (SystemExit (Some 2))))
      | Store_password \<Rightarrow>
          (case e of
             Some v \<Rightarrow> consume_args ts (ns\<lparr>password := v\<rparr>) (act # seen) extras
           | None \<Rightarrow> (case ts of
                        (v, Positional) # ts' \<Rightarrow> consume_args ts' (ns\<lparr>password := v\<rparr>) (act # seen) extras
                      | _ \<Rightarrow> Inl (SystemExit (Some 2)))))"
| "consume_args ((s, Ambiguous_option) # ts) ns seen extras = Inl (SystemExit (Some 2))"
| "consume_args ((s, Positional) # ts) ns seen extras = consume_args ts ns seen True"
| "consume_args ((s, Unknown_option) # ts) ns seen extras = consume_args ts ns seen True"
| "consume_args ((s, Separator) # ts) ns seen extras = consume_args ts ns seen True"
  by pat_completeness auto
termination
  by (relation "measure (\<lambda>(cs, ns, seen, extras). args_weight cs)") (auto simp: args_weight_def)

text \<open>
  Line 101, \<open>parser.parse_args()\<close>: the strings before the first \<open>--\<close> are
  classified, an ambiguous prefix failing at once, those after it are values; then they
  are consumed from the defaults.
\<close>

definition parse_args :: "string list \<Rightarrow> args py_result" where
  "parse_args argv =
     (let pre = takeWhile (\<lambda>s. s \<noteq> ''--'') argv;
          post = dropWhile (\<lambda>s. s \<noteq> ''--'') argv;
          cs = map (\<lambda>s. (s, parse_optional s)) pre @
               (case post of [] \<Rightarrow> [] | sep # rest \<Rightarrow> (sep, Separator) # map (\<lambda>t. (t, Positional)) rest)
      in if list_ex (\<lambda>s. parse_optional s = Ambiguous_option) pre then Inl (SystemExit (Some 2))
         else consume_args cs \<lparr>username = [], password = [], include_thursdays = False, lazy_mode = False\<rparr> [] False)"

section \<open>The program\<close>

text \<open>
  Lines 90--102 run as a script: \<open>parse_args\<close> on the command line, then
  \<open>asyncio.run(main(...))\<close>. The \<open>SystemExit\<close> of the parser ends the script; the
  usage and help texts it prints are not part of the model.
\<close>

definition reserve_entry :: "server \<Rightarrow> string list \<Rightarrow> py_datetime \<Rightarrow> world \<Rightarrow> (unit py_result \<times> world) option" where
  "reserve_entry srv argv today w =
     (case parse_args argv of
        Inl e \<Rightarrow> Some (Inl e, w)
      | Inr a \<Rightarrow> reserve_main srv a today w)"

section \<open>Properties\<close>

text \<open>The command line that passes the arguments \<open>a\<close>, each value after a \<open>=\<close>.\<close>

definition render_args :: "args \<Rightarrow> string list" where
  "render_args a =
     [''--username='' @ username a, ''--password='' @ password a] @
     (if include_thursdays a then [''--include-thursdays''] else []) @
     (if lazy_mode a then [''--lazy-mode''] else [])"

subsection \<open>The option table\<close>

lemma cli_options_keys:
  "(opt, act) \<in> set cli_options \<Longrightarrow>
    CHR ''='' \<notin> set opt \<and> opt \<noteq> [] \<and> hd opt = CHR ''-'' \<and> 2 \<le> length opt \<and> opt \<noteq> ''--''"
  by (auto simp: cli_options_def)

lemma map_of_cli_options_eq: "CHR ''='' \<in> set s \<Longrightarrow> map_of cli_options s = None"
  by (metis cli_options_keys map_of_SomeD not_None_eq)

lemma map_of_cli_options_Some: "(opt, act) \<in> set cli_options \<Longrightarrow> map_of cli_options opt = Some act"
  by (rule map_of_is_SomeI) (simp_all add: cli_options_def)

lemma partition_eq_append:
  "CHR ''='' \<notin> set opt \<Longrightarrow> partition_eq (opt @ CHR ''='' # v) = (opt, Some v)"
  by (induction opt) (auto simp: partition_eq_def)

lemma parse_optional_exact:
  "(opt, act) \<in> set cli_options \<Longrightarrow> parse_optional opt = Optional act opt False None"
  using cli_options_keys [of opt act] by (simp add: parse_optional_def map_of_cli_options_Some)

lemma parse_optional_explicit:
  assumes "(opt, act) \<in> set cli_options"
  shows "parse_optional (opt @ CHR ''='' # v) = Optional act opt True (Some v)"
proof -
  have "opt \<noteq> []" "hd opt = CHR ''-''" "CHR ''='' \<notin> set opt"
    using cli_options_keys [OF assms] by auto
  then show ?thesis
    using assms by (simp add: parse_optional_def map_of_cli_options_eq partition_eq_append map_of_cli_options_Some)
qed

lemma options_in_table:
  "(''--username'', Store_username) \<in> set cli_options" "(''--password'', Store_password) \<in> set cli_options"
  "(''--include-thursdays'', Store_true_thursdays) \<in> set cli_options" "(''--lazy-mode'', Store_true_lazy) \<in> set cli_options"
  by (simp_all add: cli_options_def)

text \<open>
  C21: round trip of the command line. Passing each value after a \<open>=\<close> gives back
  exactly the arguments, whatever the strings are (empty, starting with \<open>-\<close>, containing
  \<open>=\<close>), and the program then runs \<open>main\<close> with them.
\<close>

theorem parse_args_render:
  "parse_args (render_args a) = Inr a \<and> reserve_entry srv (render_args a) today w = reserve_main srv a today w"
proof -
  have "parse_args (render_args a) = Inr a"
    by (cases a) (simp add: parse_args_def render_args_def parse_optional_exact [OF options_in_table(3)] parse_optional_exact [OF options_in_table(4)]
        parse_optional_explicit [OF options_in_table(1), simplified]
        parse_optional_explicit [OF options_in_table(2), simplified])
  then show ?thesis by (simp add: reserve_entry_def)
qed
subsection \<open>The consumption loop\<close>

lemma consume_args_extras: "extras \<Longrightarrow> consume_args cs ns seen extras \<noteq> Inr a"
proof (induction cs ns seen extras rule: consume_args.induct)
  case (2 s act opt eq e ts ns seen extras)
  then show ?case
    by (cases act; cases e) (simp_all split: list.splits prod.splits arg_class.splits if_splits)
qed simp_all

lemma consume_help_Some_not_Inr:
  "consume_args ((s, Optional Help_action opt eq (Some x)) # ts) ns seen ex \<noteq> Inr a"
proof (induction x arbitrary: eq rule: length_induct)
  case (1 x)
  show ?case
  proof (cases x)
    case (Cons c cs)
    show ?thesis
    proof (cases cs)
      case (Cons y ys)
      have "consume_args ((s, Optional Help_action opt True (Some ys)) # ts) ns seen ex \<noteq> Inr a"
        "consume_args ((s, Optional Help_action opt False (Some (y # ys))) # ts) ns seen ex \<noteq> Inr a"
        by (rule "1" [rule_format], simp add: \<open>x = c # cs\<close> Cons)+
      moreover have "consume_args ((s, Optional Help_action opt eq (Some x)) # ts) ns seen ex =
          (if take 2 opt = ''--'' \<or> eq \<or> c = CHR ''-'' then Inl (SystemExit (Some 2))
           else if c = CHR ''h'' then
             (if y = CHR ''='' then consume_args ((s, Optional Help_action opt True (Some ys)) # ts) ns seen ex
              else consume_args ((s, Optional Help_action opt False (Some (y # ys))) # ts) ns seen ex)
           else Inl (SystemExit (Some 0)))"
        by (subst consume_args.simps) (simp add: \<open>x = c # cs\<close> Cons del: consume_args.simps)
      ultimately show ?thesis by (simp del: consume_args.simps)
    qed (simp add: \<open>x = c # cs\<close>)
  qed simp
qed

lemma consume_help_not_Inr:
  "consume_args ((s, Optional Help_action opt eq e) # ts) ns seen ex \<noteq> Inr a"
  by (cases e) (simp_all add: consume_help_Some_not_Inr del: consume_args.simps, simp)

text \<open>
  A command line that parses leaves nothing in the extras, no separator, and both
  required options seen; what follows it is consumed from the parsed namespace.
\<close>

definition parsed_prefix :: "(string \<times> arg_class) list \<Rightarrow> args \<Rightarrow> cli_action list \<Rightarrow> bool \<Rightarrow> args \<Rightarrow> bool" where
  "parsed_prefix cs ns seen ex a \<longleftrightarrow> \<not> ex \<and> (\<forall>x \<in> set cs. snd x \<noteq> Separator) \<and>
     (\<exists>seen'. Store_username \<in> set seen' \<and> Store_password \<in> set seen' \<and>
        set seen' \<subseteq> set seen \<union> {act. \<exists>x \<in> set cs. \<exists>opt eq e. snd x = Optional act opt eq e} \<and>
        (\<forall>ds. consume_args (cs @ ds) ns seen ex = consume_args ds a seen' False))"

lemma parsed_prefix_shift:
  assumes "parsed_prefix ts ns seen ex a"
    and "\<And>ds. consume_args (pre @ ts @ ds) ns0 seen0 ex = consume_args (ts @ ds) ns seen ex"
    and "\<forall>x \<in> set pre. snd x \<noteq> Separator"
    and "set seen \<subseteq> set seen0 \<union> {act. \<exists>x \<in> set pre. \<exists>opt eq e. snd x = Optional act opt eq e}"
  shows "parsed_prefix (pre @ ts) ns0 seen0 ex a"
proof -
  obtain seen' where s: "Store_username \<in> set seen'" "Store_password \<in> set seen'"
    "set seen' \<subseteq> set seen \<union> {act. \<exists>x \<in> set ts. \<exists>opt eq e. snd x = Optional act opt eq e}"
    "\<forall>ds. consume_args (ts @ ds) ns seen ex = consume_args ds a seen' False"
    using assms(1) unfolding parsed_prefix_def by blast
  have "set seen' \<subseteq> set seen0 \<union> {act. \<exists>x \<in> set (pre @ ts). \<exists>opt eq e. snd x = Optional act opt eq e}"
    using s(3) assms(4) by (simp, blast)
  moreover have "\<forall>ds. consume_args ((pre @ ts) @ ds) ns0 seen0 ex = consume_args ds a seen' False"
    using s(4) assms(2) by simp
  ultimately have "\<exists>seen'. Store_username \<in> set seen' \<and> Store_password \<in> set seen' \<and>
      set seen' \<subseteq> set seen0 \<union> {act. \<exists>x \<in> set (pre @ ts). \<exists>opt eq e. snd x = Optional act opt eq e} \<and>
      (\<forall>ds. consume_args ((pre @ ts) @ ds) ns0 seen0 ex = consume_args ds a seen' False)"
    using s(1,2) by blast
  then show ?thesis
    using assms(1,3) unfolding parsed_prefix_def by auto
qed

lemma consume_args_Inr:
  "consume_args cs ns seen ex = Inr a \<Longrightarrow> parsed_prefix cs ns seen ex a"
proof (induction cs ns seen ex rule: consume_args.induct)
  case (1 ns seen extras)
  then show ?case by (auto simp: parsed_prefix_def split: if_splits intro!: exI [of _ seen])
next
  case (2 s act opt eq e ts ns seen extras)
  show ?case
  proof (cases act)
    case Help_action
    then show ?thesis using "2.prems" consume_help_not_Inr by blast
  next
    case Store_username
    show ?thesis
    proof (cases e)
      case None
      then obtain v ts' where ts: "ts = (v, Positional) # ts'"
        using "2.prems" Store_username by (auto split: list.splits prod.splits arg_class.splits)
      have ih: "parsed_prefix ts' (ns\<lparr>username := v\<rparr>) (Store_username # seen) extras a"
        using "2.IH"(4) [OF Store_username None ts refl refl] "2.prems" Store_username None ts by simp
      show ?thesis unfolding Store_username None ts
        by (rule parsed_prefix_shift [where pre = "[(s, Optional Store_username opt eq None), (v, Positional)]", OF ih, simplified]) auto
    next
      case (Some v)
      have ih: "parsed_prefix ts (ns\<lparr>username := v\<rparr>) (Store_username # seen) extras a"
        using "2.IH"(5) [OF Store_username Some] "2.prems" Store_username Some by simp
      show ?thesis unfolding Store_username Some
        by (rule parsed_prefix_shift [where pre = "[(s, Optional Store_username opt eq (Some v))]", OF ih, simplified]) auto
    qed
  next
    case Store_password
    show ?thesis
    proof (cases e)
      case None
      then obtain v ts' where ts: "ts = (v, Positional) # ts'"
        using "2.prems" Store_password by (auto split: list.splits prod.splits arg_class.splits)
      have ih: "parsed_prefix ts' (ns\<lparr>password := v\<rparr>) (Store_password # seen) extras a"
        using "2.IH"(6) [OF Store_password None ts refl refl] "2.prems" Store_password None ts by simp
      show ?thesis unfolding Store_password None ts
        by (rule parsed_prefix_shift [where pre = "[(s, Optional Store_password opt eq None), (v, Positional)]", OF ih, simplified]) auto
    next
      case (Some v)
      have ih: "parsed_prefix ts (ns\<lparr>password := v\<rparr>) (Store_password # seen) extras a"
        using "2.IH"(7) [OF Store_password Some] "2.prems" Store_password Some by simp
      show ?thesis unfolding Store_password Some
        by (rule parsed_prefix_shift [where pre = "[(s, Optional Store_password opt eq (Some v))]", OF ih, simplified]) auto
    qed
  next
    case Store_true_thursdays
    then have e: "e = None" using "2.prems" by (cases e) simp_all
    have ih: "parsed_prefix ts (ns\<lparr>include_thursdays := True\<rparr>) (Store_true_thursdays # seen) extras a"
      using "2.IH"(8) [OF Store_true_thursdays e] "2.prems" Store_true_thursdays e by simp
    show ?thesis unfolding Store_true_thursdays e
        by (rule parsed_prefix_shift [where pre = "[(s, Optional Store_true_thursdays opt eq None)]", OF ih, simplified]) auto
  next
    case Store_true_lazy
    then have e: "e = None" using "2.prems" by (cases e) simp_all
    have ih: "parsed_prefix ts (ns\<lparr>lazy_mode := True\<rparr>) (Store_true_lazy # seen) extras a"
      using "2.IH"(9) [OF Store_true_lazy e] "2.prems" Store_true_lazy e by simp
    show ?thesis unfolding Store_true_lazy e
        by (rule parsed_prefix_shift [where pre = "[(s, Optional Store_true_lazy opt eq None)]", OF ih, simplified]) auto
  qed
qed (simp_all add: consume_args_extras)

subsection \<open>Recognised options\<close>

lemma cli_options_long:
  "(opt, act) \<in> set cli_options \<Longrightarrow> act \<noteq> Help_action \<Longrightarrow> take 2 opt = ''--'' \<and> 3 \<le> length opt"
  by (auto simp: cli_options_def)

lemma get_option_tuples_long:
  assumes "get_option_tuples t = [(act, opt, eq, e)]" "act \<noteq> Help_action" "t = CHR ''-'' # c # r"
  shows "(opt, act) \<in> set cli_options \<and> (\<exists>p. prefix p t \<and> prefix p opt \<and> 3 \<le> length p)"
proof (cases "c = CHR ''-''")
  case True
  let ?q = "takeWhile (\<lambda>x. x \<noteq> CHR ''='') r"
  have g: "get_option_tuples t = map (\<lambda>(opt, act). (act, opt, snd (partition_eq t) \<noteq> None, snd (partition_eq t)))
      (filter (\<lambda>(opt, act). prefix (''--'' @ ?q) opt) cli_options)"
    using True assms(3) by (simp add: get_option_tuples_def partition_eq_def)
  have "(act, opt, eq, e) \<in> set (get_option_tuples t)" using assms(1) by simp
  then have "(opt, act) \<in> set cli_options \<and> prefix (''--'' @ ?q) opt"
    unfolding g by auto
  moreover have "?q \<noteq> []"
  proof
    assume "?q = []"
    then have "length (get_option_tuples t) = 5"
      unfolding g by (simp add: cli_options_def)
    then show False using assms(1) by simp
  qed
  moreover have "prefix (''--'' @ ?q) t"
    using True assms(3) by (simp add: takeWhile_is_prefix)
  ultimately show ?thesis by (intro conjI exI [of _ "''--'' @ ?q"]) (auto simp: Suc_le_eq)
next
  case False
  have "(act, opt, eq, e) \<in> set (get_option_tuples t)" using assms(1) by simp
  then have "(opt, act) \<in> set cli_options" "opt = take 2 t \<or> prefix t opt"
    using False assms(3) by (auto simp: get_option_tuples_def split: if_splits)
  then show ?thesis
    using cli_options_long [of opt act] assms(2,3) False by (auto simp: prefix_def)
qed

lemma parse_optional_long:
  assumes "parse_optional t = Optional act opt eq e" "act \<noteq> Help_action"
  shows "(opt, act) \<in> set cli_options \<and> (\<exists>p. prefix p t \<and> prefix p opt \<and> 3 \<le> length p)"
proof -
  have t: "t \<noteq> []" "hd t = CHR ''-''"
    using assms(1) by (auto simp: parse_optional_def split: if_splits)
  show ?thesis
  proof (cases "map_of cli_options t")
    case (Some act')
    then have "opt = t" "(t, act) \<in> set cli_options"
      using assms(1) t by (auto simp: parse_optional_def dest: map_of_SomeD)
    then show ?thesis using cli_options_long [of t act] assms(2) by auto
  next
    case None
    then have "length t \<noteq> 1" using assms(1) t by (auto simp: parse_optional_def)
    then obtain c r where tcr: "t = CHR ''-'' # c # r"
      using t by (cases t; cases "tl t") auto
    show ?thesis
    proof (cases "\<exists>o' e'. partition_eq t = (o', Some e') \<and> map_of cli_options o' \<noteq> None")
      case True
      then obtain o' e' act' where pe: "partition_eq t = (o', Some e')" "map_of cli_options o' = Some act'"
        by auto
      have "opt = o'" "act = act'"
        using assms(1) t None pe \<open>length t \<noteq> 1\<close> by (auto simp: parse_optional_def)
      moreover have "prefix o' t"
        using pe(1) by (auto simp: partition_eq_def takeWhile_is_prefix split: if_splits)
      moreover have "(o', act') \<in> set cli_options"
        using pe(2) by (rule map_of_SomeD)
      ultimately show ?thesis using cli_options_long [of o' act'] assms(2) by auto
    next
      case False
      then have "get_option_tuples t = [(act, opt, eq, e)]"
        using assms(1) t None \<open>length t \<noteq> 1\<close>
        by (auto simp: parse_optional_def split: prod.splits option.splits list.splits if_splits)
      then show ?thesis using get_option_tuples_long assms(2) tcr by blast
    qed
  qed
qed

lemma parse_optional_names:
  assumes "parse_optional t = Optional act opt eq e" "act \<noteq> Help_action"
  shows "(opt, act) \<in> set cli_options \<and> prefix (take 3 opt) t"
proof -
  obtain p where p: "prefix p t" "prefix p opt" "3 \<le> length p" and mem: "(opt, act) \<in> set cli_options"
    using parse_optional_long [OF assms] by blast
  have "take 3 opt = take 3 p" using p(2,3) by (auto simp: prefix_def)
  then have "prefix (take 3 opt) p" by (simp add: take_is_prefix)
  then show ?thesis using p(1) mem by (blast intro: prefix_order.trans)
qed

subsection \<open>The command line as a whole\<close>

lemma parse_args_Inr:
  assumes "parse_args argv = Inr a"
  shows "''--'' \<notin> set argv \<and> \<not> list_ex (\<lambda>s. parse_optional s = Ambiguous_option) argv \<and>
    parsed_prefix (map (\<lambda>s. (s, parse_optional s)) argv)
      \<lparr>username = [], password = [], include_thursdays = False, lazy_mode = False\<rparr> [] False a"
proof -
  let ?pre = "takeWhile (\<lambda>s. s \<noteq> ''--'') argv" and ?post = "dropWhile (\<lambda>s. s \<noteq> ''--'') argv"
  let ?cs = "map (\<lambda>s. (s, parse_optional s)) ?pre @
    (case ?post of [] \<Rightarrow> [] | sep # rest \<Rightarrow> (sep, Separator) # map (\<lambda>t. (t, Positional)) rest)"
  have na: "\<not> list_ex (\<lambda>s. parse_optional s = Ambiguous_option) ?pre"
    and c: "consume_args ?cs \<lparr>username = [], password = [], include_thursdays = False, lazy_mode = False\<rparr> [] False = Inr a"
    using assms by (simp_all add: parse_args_def Let_def split: if_splits)
  have pp: "parsed_prefix ?cs \<lparr>username = [], password = [], include_thursdays = False, lazy_mode = False\<rparr> [] False a"
    using c by (rule consume_args_Inr)
  have post: "?post = []"
  proof (rule ccontr)
    assume "?post \<noteq> []"
    then obtain sep rest where "?post = sep # rest" by (cases ?post) auto
    then have "(sep, Separator) \<in> set ?cs" by simp
    then show False using pp by (force simp: parsed_prefix_def)
  qed
  then have pre: "?pre = argv" by (metis append_Nil2 takeWhile_dropWhile_id)
  have "''--'' \<notin> set argv" using post by (auto simp: dropWhile_eq_Nil_conv)
  then show ?thesis using na [unfolded pre] pp [unfolded pre post, simplified] by simp
qed

lemma parse_args_append:
  assumes "parse_args argv = Inr a" "''--'' \<notin> set tail"
    and "\<not> list_ex (\<lambda>s. parse_optional s = Ambiguous_option) tail"
  shows "\<exists>seen'. Store_username \<in> set seen' \<and> Store_password \<in> set seen' \<and>
    parse_args (argv @ tail) = consume_args (map (\<lambda>s. (s, parse_optional s)) tail) a seen' False"
proof -
  obtain seen' where nd: "''--'' \<notin> set argv" and na: "\<not> list_ex (\<lambda>s. parse_optional s = Ambiguous_option) argv"
    and s: "Store_username \<in> set seen'" "Store_password \<in> set seen'"
    and app: "\<And>ds. consume_args (map (\<lambda>s. (s, parse_optional s)) argv @ ds)
      \<lparr>username = [], password = [], include_thursdays = False, lazy_mode = False\<rparr> [] False = consume_args ds a seen' False"
    using parse_args_Inr [OF assms(1)] unfolding parsed_prefix_def by blast
  have tw: "takeWhile (\<lambda>s. s \<noteq> ''--'') (argv @ tail) = argv @ tail"
    and dw: "dropWhile (\<lambda>s. s \<noteq> ''--'') (argv @ tail) = []"
    using nd assms(2) by (auto simp: takeWhile_eq_all_conv dropWhile_eq_Nil_conv)
  have "parse_args (argv @ tail) = consume_args (map (\<lambda>s. (s, parse_optional s)) tail) a seen' False"
    using na assms(3) app [of "map (\<lambda>s. (s, parse_optional s)) tail"]
    by (simp add: parse_args_def Let_def tw dw del: consume_args.simps)
  then show ?thesis using s by blast
qed

text \<open>
  C22: the command line is read from left to right: an option given again replaces the
  earlier value and a flag given again stays set, so a parsed command line followed by
  \<open>--username=u --lazy-mode\<close> parses to the same arguments with those two changed.
\<close>

theorem parse_args_override:
  assumes "parse_args argv = Inr a"
  shows "parse_args (argv @ [''--username='' @ u, ''--lazy-mode'']) = Inr (a\<lparr>username := u, lazy_mode := True\<rparr>)"
proof -
  have p: "parse_optional (''--username='' @ u) = Optional Store_username ''--username'' True (Some u)"
    "parse_optional ''--lazy-mode'' = Optional Store_true_lazy ''--lazy-mode'' False None"
    by (simp_all add: parse_optional_explicit [OF options_in_table(1), simplified]
        parse_optional_exact [OF options_in_table(4)])
  have "''--'' \<notin> set [''--username='' @ u, ''--lazy-mode'']" by simp
  moreover have "\<not> list_ex (\<lambda>s. parse_optional s = Ambiguous_option) [''--username='' @ u, ''--lazy-mode'']"
    by (simp add: p [simplified])
  ultimately obtain seen' where "Store_username \<in> set seen'" "Store_password \<in> set seen'"
    "parse_args (argv @ [''--username='' @ u, ''--lazy-mode'']) =
       consume_args (map (\<lambda>s. (s, parse_optional s)) [''--username='' @ u, ''--lazy-mode'']) a seen' False"
    using parse_args_append [OF assms] by blast
  then show ?thesis by (simp only: list.map p) simp
qed

text \<open>
  C23: both required options are checked: a command line that parses contains a string
  that starts with \<open>--u\<close> (\<open>--username\<close> or a prefix of it, possibly with
  \<open>=value\<close>) and one that starts with \<open>--p\<close>.
\<close>

theorem parse_args_required:
  assumes "parse_args argv = Inr a"
  shows "(\<exists>t \<in> set argv. prefix ''--u'' t) \<and> (\<exists>t \<in> set argv. prefix ''--p'' t)"
proof -
  obtain seen' where s: "Store_username \<in> set seen'" "Store_password \<in> set seen'"
    and sub: "set seen' \<subseteq> {act. \<exists>x \<in> set (map (\<lambda>s. (s, parse_optional s)) argv). \<exists>opt eq e. snd x = Optional act opt eq e}"
    using parse_args_Inr [OF assms] unfolding parsed_prefix_def by auto
  have named: "\<exists>t \<in> set argv. prefix (take 3 opt) t"
    if mem: "(opt, act) \<in> set cli_options" and sn: "act \<in> set seen'" and nh: "act \<noteq> Help_action" for opt act
  proof -
    obtain t opt' eq e where "t \<in> set argv" "parse_optional t = Optional act opt' eq e"
      using sub sn by auto
    moreover have "opt' = opt"
      using parse_optional_names [OF calculation(2) nh] mem nh
      by (auto simp: cli_options_def)
    ultimately show ?thesis using parse_optional_names nh by blast
  qed
  show ?thesis
    using named [OF options_in_table(1) s(1)] named [OF options_in_table(2) s(2)] by simp
qed

subsection \<open>Values that start with a dash, and abbreviations\<close>

lemma parse_optional_dash:
  assumes "hd p = CHR ''-''" "2 \<le> length p" "\<not> is_negative_number p" "CHR '' '' \<notin> set p"
  shows "parse_optional p \<noteq> Positional"
  using assms by (auto simp: parse_optional_def split: option.splits list.splits prod.splits)

lemma parse_optional_value: "u = [] \<or> hd u \<noteq> CHR ''-'' \<Longrightarrow> parse_optional u = Positional"
  by (auto simp: parse_optional_def)

lemma parse_optional_abbrev:
  "parse_optional ''--u'' = Optional Store_username ''--username'' False None"
  "parse_optional ''--p'' = Optional Store_password ''--password'' False None"
  "parse_optional ''--i'' = Optional Store_true_thursdays ''--include-thursdays'' False None"
  "parse_optional ''--l'' = Optional Store_true_lazy ''--lazy-mode'' False None"
  by (simp_all add: parse_optional_def get_option_tuples_def partition_eq_def cli_options_def)

text \<open>
  C24: a secret that starts with \<open>-\<close> (and is neither a negative number nor contains a
  space) cannot follow \<open>--password\<close> as a separate string: \<open>argparse\<close> takes it for
  an option, and the program exits with status 2 before any request, whatever the user
  name. Written \<open>--password=secret\<close> it is accepted.
\<close>

theorem reserve_entry_dash_password:
  assumes "hd p = CHR ''-''" "2 \<le> length p" "\<not> is_negative_number p" "CHR '' '' \<notin> set p"
  shows "reserve_entry srv [''--username'', u, ''--password'', p] today w = Some (Inl (SystemExit (Some 2)), w) \<and>
    reserve_entry srv [''--username='' @ u, ''--password='' @ p] today w =
      reserve_main srv \<lparr>username = u, password = p, include_thursdays = False, lazy_mode = False\<rparr> today w"
proof
  have np: "parse_optional p \<noteq> Positional" using parse_optional_dash [OF assms] .
  have o: "parse_optional ''--username'' = Optional Store_username ''--username'' False None"
    "parse_optional ''--password'' = Optional Store_password ''--password'' False None"
    using parse_optional_exact [OF options_in_table(1)] parse_optional_exact [OF options_in_table(2)] by simp_all
  have "parse_args [''--username'', u, ''--password'', p] = Inl (SystemExit (Some 2))"
    using np by (cases "u = ''--''"; cases "p = ''--''"; cases "parse_optional u"; cases "parse_optional p")
      (simp_all add: parse_args_def o)
  then show "reserve_entry srv [''--username'', u, ''--password'', p] today w = Some (Inl (SystemExit (Some 2)), w)"
    by (simp add: reserve_entry_def)
next
  have "parse_args [''--username='' @ u, ''--password='' @ p] =
      Inr \<lparr>username = u, password = p, include_thursdays = False, lazy_mode = False\<rparr>"
    by (simp add: parse_args_def parse_optional_explicit [OF options_in_table(1), simplified]
        parse_optional_explicit [OF options_in_table(2), simplified])
  then show "reserve_entry srv [''--username='' @ u, ''--password='' @ p] today w =
      reserve_main srv \<lparr>username = u, password = p, include_thursdays = False, lazy_mode = False\<rparr> today w"
    by (simp add: reserve_entry_def)
qed

text \<open>
  C25: unique prefixes of the long options are accepted (\<open>allow_abbrev\<close>), which the
  specification's list of options does not mention: \<open>--u U --p P --i --l\<close> runs \<open>main\<close>
  with both flags set.
\<close>

theorem reserve_entry_abbrev:
  assumes "u = [] \<or> hd u \<noteq> CHR ''-''" "p = [] \<or> hd p \<noteq> CHR ''-''"
  shows "reserve_entry srv [''--u'', u, ''--p'', p, ''--i'', ''--l''] today w =
    reserve_main srv \<lparr>username = u, password = p, include_thursdays = True, lazy_mode = True\<rparr> today w"
proof -
  have "u \<noteq> ''--''" "p \<noteq> ''--''" using assms by auto
  then show ?thesis
    by (simp add: reserve_entry_def parse_args_def parse_optional_abbrev
        parse_optional_value [OF assms(1)] parse_optional_value [OF assms(2)])
qed

end
