(* ===== verification/Spec2Isabelle.thy ===== *)
theory Spec2Isabelle
  imports Cli
begin

text \<open>
  \<^bold>\<open>A verification development for \<^verbatim>\<open>src/reserve.py\<close>\<close>, the narije food
  reservation script. The program logs into a REST service, walks the 36 days from today,
  fetches the reservable items of every day its weekday filter admits, picks one item per
  day (the first in lazy mode, interactively otherwise) and submits the picks as
  \<open>asyncio\<close> tasks that are awaited together at the end.

  \<^bold>\<open>Theories and what they model.\<close>
  \<^item> \<open>Prelude\<close>: Python exceptions (\<open>py_exc\<close>), results \<open>'a py_result = py_exc + 'a\<close>
    with \<open>Inl\<close> the exception, the exit status of an uncaught exception
    (\<open>exit_status\<close>: \<open>SystemExit\<close> without argument is 0), decimal rendering of
    naturals, shared list lemmas and the \<open>py_eval\<close> collection.
  \<^item> \<open>Calendar\<close>: the parts of CPython's \<open>datetime\<close> the script calls (spec-modelled,
    after \<open>Lib/_pydatetime.py\<close>): proleptic Gregorian ordinals (\<open>ymd2ord\<close>,
    \<open>ord2ymd\<close>), \<open>weekday()\<close> (Monday = 0), \<open>dt + timedelta(days=k)\<close>
    (\<open>add_days\<close>, with \<open>OverflowError\<close> past 9999-12-31) and
    \<open>strftime("%Y-%m-%dT00:00:00")\<close> (\<open>date_str\<close>, line 63). Proved: the
    ordinal round trip \<open>ymd2ord (ord2ymd n) = n\<close> on \<open>1..MAXORDINAL\<close>, validity of
    the produced dates, injectivity of \<open>date_str\<close> on valid dates, the weekday shift.
  \<^item> \<open>PyJson\<close>: JSON values as the script sees them after \<open>response.json()\<close>:
    subscripting (\<open>getitem_key\<close>, \<open>getitem_idx\<close> with \<open>KeyError\<close>,
    \<open>IndexError\<close>, \<open>TypeError\<close>), truthiness, \<open>len\<close>, iteration, \<open>str\<close>.
  \<^item> \<open>PyInt\<close>: \<open>int(s)\<close> on the user's input (line 47), after CPython's
    \<open>PyLong_FromString\<close>: whitespace, sign, digits with single underscores, the
    4300-digit limit; every failure is \<open>ValueError\<close>.
  \<^item> \<open>PyIO\<close>: the world (unread stdin lines and a trace of observable events: HTTP
    exchanges, printed lines, prompts, sleeps) and the effects \<open>print\<close>, \<open>input\<close>,
    \<open>requests.get/post/put\<close>, \<open>response.json()\<close>, \<open>time.sleep\<close>. The service is
    an arbitrary function from the trace so far and the request to the response, so every
    theorem holds for every behaviour of the service, connection errors and non-JSON
    bodies included.
  \<^item> \<open>Api\<close>: \<open>get_bearer_token\<close> (lines 8--18), \<open>get_reserves\<close> (21--25),
    \<open>reserve_food\<close> (28--37).
  \<^item> \<open>Selector\<close>: \<open>display_and_choose_food\<close> (40--54); its \<open>while True\<close> loop is
    \<open>choose_loop\<close>, a \<^theory_text>\<open>function\<close> terminating on the number of unread lines
    (at end of input \<open>input()\<close> raises \<open>EOFError\<close>).
  \<^item> \<open>EventLoop\<close>: the part of \<open>asyncio\<close> the script uses (spec-modelled after
    \<open>base_events._run_once\<close>, \<open>tasks.gather\<close>, \<open>runners.Runner.run\<close>): a FIFO
    of ready handles run in batches, gather's done callbacks, the wake-up of \<open>main\<close>
    and the stop callback. \<open>loop_run\<close> terminates on a weight of the ready queue;
    one iteration is also the step relation \<open>loop_step\<close>, whose reachable states
    (\<open>loop_reachable\<close>) satisfy the invariant \<open>wf_loop\<close> by rule induction.
  \<^item> \<open>Cli\<close>: the script part (lines 90--102): the options of the
    \<open>add_argument\<close> calls (\<open>cli_options\<close>), \<open>parser.parse_args()\<close> (\<open>parse_args\<close>)
    after CPython 3.11.10's \<open>argparse\<close> (\<open>_parse_optional\<close> as \<open>parse_optional\<close>,
    \<open>_get_option_tuples\<close>, the consumption loop of \<open>_parse_known_args\<close> as
    \<open>consume_args\<close>, a \<^theory_text>\<open>function\<close> terminating on the strings and explicit
    arguments left), and \<open>reserve_entry\<close>, the whole script: \<open>SystemExit(2)\<close> on a
    bad command line, \<open>SystemExit(0)\<close> for \<open>-h\<close>, else \<open>reserve_main\<close>.
  \<^item> \<open>Reserve\<close>: \<open>main\<close> (57--87) as \<open>reserve_day\<close> (one iteration of the day
    loop, with \<open>handle_reserves\<close> for lines 74--86 and \<open>choose_food\<close> for 77--80),
    \<open>day_loop\<close> (the \<open>for\<close> loop, threading the created tasks), \<open>main_body\<close>
    (login and loop up to the \<open>await\<close>), and \<open>reserve_main\<close> (line 102,
    \<open>asyncio.run\<close> of it). The parsed arguments are the record \<open>args\<close>; today's
    date is an input.

  \<^bold>\<open>How the parts interact.\<close> \<open>main_body\<close> calls \<open>get_bearer_token\<close>, then for each
  day \<open>add_days\<close>, \<open>date_str\<close>, \<open>weekday\<close>, \<open>get_reserves\<close> and, in interactive
  mode, \<open>display_and_choose_food\<close>; the created tasks are values
  \<open>Reserve_food token date food\<close> that \<open>run_reserve\<close> runs with \<open>reserve_food\<close>.
  \<open>EventLoop\<close> is generic in the task type and the world (\<open>runner\<close>), and
  \<open>reserve_main\<close> instantiates it.

  \<^bold>\<open>Main results.\<close> The properties C1--C26 are stated in the component theories:
  \<^item> whole program (\<open>Reserve\<close>): after all of \<open>main\<close>'s fetches and prompts the
    submissions run as one block per task, in creation order, also after \<open>main\<close>
    crashed (C1); skipped days are never fetched nor reserved (C2); at most one task per
    date (C3); a failed login exits with status 0 (C11); the run sleeps 10 s per
    completed submission (C12); the event loop only holds tasks for admitted dates (C18);
    at most one task per admitted day (C26);
  \<^item> the day loop and the filter: exactly the admitted days are fetched (C4, C6, C7),
    and \<open>main\<close> sends at most 26 GET requests from a Monday, exactly 26 when its loop
    ends normally (C5); the handling of a response (C8--C10);
  \<^item> the service calls (\<open>Api\<close>, C13--C15) and the selector (\<open>Selector\<close>: C16,
    C17, and C19, which bounds the prompts and pins the item returned to the line read);
    answering \<open>1\<close> picks what lazy mode picks (C20);
  \<^item> the command line (\<open>Cli\<close>): \<open>--username=U --password=P\<close> with the flags gives
    back exactly the arguments (C21), later options override earlier ones (C22), a
    parsed command line names both required options (C23), a secret starting with
    \<open>-\<close> must be passed with \<open>=\<close> (C24), and option prefixes are accepted (C25).
  The library models have their own lemmas (the ordinal round trip and the weekday shift
  in \<open>Calendar\<close>, \<open>int(str(i)) == i\<close> and whitespace in \<open>PyInt\<close>, refinement,
  invariant and liveness of the loop in \<open>EventLoop\<close>); they are not properties of the
  program and are not listed as such. The witnesses below apply each property at a
  concrete input.

  \<^bold>\<open>Findings.\<close> \<open>weekday() == 4\<close> is Friday, yet the code prints
  \<open>Skipping Thursday\<close> for it, and \<open>== 5\<close> is Saturday, commented as Friday; Thursdays
  are always fetched (C6, C7). The submissions do not run concurrently as the
  specification says: \<open>reserve_food\<close> never awaits and \<open>time.sleep\<close> blocks, so they
  are serialized 10 s apart (C1, C12). \<open>exit()\<close> after a failed login gives status 0
  (C11). An exception in the day loop (a connection error, a non-JSON body, a missing key,
  end of input at the prompt) ends \<open>main\<close> instead of skipping the day, but the tasks
  created before it still run (C1). Option prefixes are accepted (C25) and a secret
  starting with \<open>-\<close> needs \<open>--password=\<close> (C24), neither of which the
  specification mentions.

  \<^bold>\<open>Bounds.\<close> The horizon is \<open>HORIZON = 36\<close> days (\<open>range(36)\<close>); the loops are
  structural over the day list and the task list, \<open>choose_loop\<close> is bounded by the input
  \<open>loop_run\<close> by the queue weight and \<open>consume_args\<close> by the strings left, so no
  fuel is needed. Dates are bounded by
  \<open>MAXORDINAL\<close> (9999-12-31), integers parsed by \<open>int()\<close> by 4300 digits.

  \<^bold>\<open>Not modelled.\<close> The usage, error and help texts \<open>argparse\<close> prints (they
  depend on the terminal width), and the behaviour of other Python versions'
  \<open>argparse\<close>, which differs on \<open>--\<close> and on glued single-dash options;
  the clock (\<open>datetime.today()\<close> is an input, time zones and time of day play no role
  since only whole days are added); HTTP and JSON decoding below the response (a response
  is a status and an optional JSON value); non-ASCII characters other than U+0085 and
  U+00A0 in \<open>int()\<close> input, and \<open>KeyboardInterrupt\<close>; asyncio's logging of
  unretrieved task exceptions to stderr; a task raising \<open>SystemExit\<close>, which
  \<open>reserve_food\<close> cannot do.
\<close>

section \<open>Witnesses\<close>

theorem reserve_main_serialized_witness:
  "main_body (\<lambda>tr q. Response 200 (Some (JObj [])))
      \<lparr>username = ''u'', password = ''p'', include_thursdays = False, lazy_mode = True\<rparr>
      (fromordinal 1 0) \<lparr>stdin = [], trace = []\<rparr> =
    (Inl KeyError, [], \<lparr>stdin = [], trace = [Http (login_request ''u'' ''p'') (Response 200 (Some (JObj [])))]\<rparr>) \<and>
   \<not> is_sysexit (Inl KeyError :: unit py_result) \<and>
   (\<exists>r' w' bs. reserve_main (\<lambda>tr q. Response 200 (Some (JObj [])))
      \<lparr>username = ''u'', password = ''p'', include_thursdays = False, lazy_mode = True\<rparr>
      (fromordinal 1 0) \<lparr>stdin = [], trace = []\<rparr> = Some (r', w') \<and>
    trace w' = [Http (login_request ''u'' ''p'') (Response 200 (Some (JObj [])))] @ concat bs \<and>
    list_all2 task_block [] bs \<and> requests_of (concat bs) = concat (map task_requests []) \<and>
    prompts_of (concat bs) = [] \<and> stdin w' = [])"
  using Reserve.reserve_main_serialized [where srv = "\<lambda>tr q. Response 200 (Some (JObj []))"
      and a = "\<lparr>username = ''u'', password = ''p'', include_thursdays = False, lazy_mode = True\<rparr>"
      and today = "fromordinal 1 0" and w = "\<lparr>stdin = [], trace = []\<rparr>" and r = "Inl KeyError" and ts = "[]"
      and wm = "\<lparr>stdin = [], trace = [Http (login_request ''u'' ''p'') (Response 200 (Some (JObj [])))]\<rparr>"]
  by (simp add: main_body_def get_bearer_token_def requests_call_def response_json_def)

theorem main_body_skipped_untouched_witness:
  "1 \<le> toordinal (fromordinal 1 0) \<and>
   skip_day \<lparr>username = ''u'', password = ''p'', include_thursdays = True, lazy_mode = True\<rparr>
     (weekday (day_date (fromordinal 1 0) 5)) \<and>
   (\<exists>es. trace (snd (snd (main_body (\<lambda>tr q. Conn_error)
       \<lparr>username = ''u'', password = ''p'', include_thursdays = True, lazy_mode = True\<rparr>
       (fromordinal 1 0) \<lparr>stdin = [], trace = []\<rparr>))) = [] @ es \<and>
     (\<forall>tok. reserves_request tok (date_str (day_date (fromordinal 1 0) 5)) \<notin> set (requests_of es)) \<and>
     date_str (day_date (fromordinal 1 0) 5) \<notin> set (map task_date (fst (snd (main_body (\<lambda>tr q. Conn_error)
       \<lparr>username = ''u'', password = ''p'', include_thursdays = True, lazy_mode = True\<rparr>
       (fromordinal 1 0) \<lparr>stdin = [], trace = []\<rparr>)))))"
  using Reserve.main_body_skipped_untouched [where today = "fromordinal 1 0" and d = 5
      and a = "\<lparr>username = ''u'', password = ''p'', include_thursdays = True, lazy_mode = True\<rparr>"
      and srv = "\<lambda>tr q. Conn_error" and w = "\<lparr>stdin = [], trace = []\<rparr>"]
  by (simp add: skip_day_def)

theorem main_body_distinct_dates_witness:
  "1 \<le> toordinal (fromordinal 1 0) \<and>
   distinct (map task_date (fst (snd (main_body (\<lambda>tr q. Conn_error)
     \<lparr>username = ''u'', password = ''p'', include_thursdays = False, lazy_mode = False\<rparr>
     (fromordinal 1 0) \<lparr>stdin = [], trace = []\<rparr>))))"
  using Reserve.main_body_distinct_dates [where today = "fromordinal 1 0"
      and a = "\<lparr>username = ''u'', password = ''p'', include_thursdays = False, lazy_mode = False\<rparr>"
      and srv = "\<lambda>tr q. Conn_error" and w = "\<lparr>stdin = [], trace = []\<rparr>"]
  by simp

theorem day_loop_requests_witness:
  "day_loop (\<lambda>tr q. Response 200 (Some (JObj [(''status'', JStr ''OK''), (''data'', JArr [JObj [(''reserves'', JArr [JObj [(''foodId'', JInt 7), (''food'', JStr ''rice'')]])]])]))) (JStr ''T'') \<lparr>username = ''u'', password = ''p'', include_thursdays = False, lazy_mode = True\<rparr> (fromordinal 1 0) [0] [] \<lparr>stdin = [], trace = []\<rparr> =
     (Inr (), [Reserve_food (JStr ''T'') (date_str (fromordinal 1 0)) (JObj [(''foodId'', JInt 7), (''food'', JStr ''rice'')])],
      \<lparr>stdin = [], trace = [Http (reserves_request (JStr ''T'') (date_str (fromordinal 1 0))) (Response 200 (Some (JObj [(''status'', JStr ''OK''), (''data'', JArr [JObj [(''reserves'', JArr [JObj [(''foodId'', JInt 7), (''food'', JStr ''rice'')]])]])])))]\<rparr>) \<and>
   requests_of [Http (reserves_request (JStr ''T'') (date_str (fromordinal 1 0))) (Response 200 (Some (JObj [(''status'', JStr ''OK''), (''data'', JArr [JObj [(''reserves'', JArr [JObj [(''foodId'', JInt 7), (''food'', JStr ''rice'')]])]])])))] =
     requests_of [] @ map (reserves_request (JStr ''T'')) (fetched_dates \<lparr>username = ''u'', password = ''p'', include_thursdays = False, lazy_mode = True\<rparr> (fromordinal 1 0) [0])"
  using Reserve.day_loop_requests [where srv = "\<lambda>tr q. Response 200 (Some (JObj [(''status'', JStr ''OK''), (''data'', JArr [JObj [(''reserves'', JArr [JObj [(''foodId'', JInt 7), (''food'', JStr ''rice'')]])]])]))" and tok = "JStr ''T''"
      and a = "\<lparr>username = ''u'', password = ''p'', include_thursdays = False, lazy_mode = True\<rparr>" and start = "fromordinal 1 0" and ds = "[0]" and ts = "[]" and w = "\<lparr>stdin = [], trace = []\<rparr>" and u = "()"
      and ts' = "[Reserve_food (JStr ''T'') (date_str (fromordinal 1 0)) (JObj [(''foodId'', JInt 7), (''food'', JStr ''rice'')])]"
      and w' = "\<lparr>stdin = [], trace = [Http (reserves_request (JStr ''T'') (date_str (fromordinal 1 0))) (Response 200 (Some (JObj [(''status'', JStr ''OK''), (''data'', JArr [JObj [(''reserves'', JArr [JObj [(''foodId'', JInt 7), (''food'', JStr ''rice'')]])]])])))]\<rparr>"]
  by (simp add: reserve_day_def add_days_eq MAXORDINAL_def get_reserves_eq handle_reserves_def py_eq_str_def
      first_reserves_def choose_food_def Let_def day_date_def response_json_def)

theorem reserve_day_skipped_witness:
  "add_days (fromordinal 1 0) 4 = Inr (fromordinal 5 0) \<and> skip_day \<lparr>username = ''u'', password = ''p'', include_thursdays = False, lazy_mode = True\<rparr> (weekday (fromordinal 5 0)) \<and>
   reserve_day (\<lambda>tr q. Conn_error) (JStr ''T'') \<lparr>username = ''u'', password = ''p'', include_thursdays = False, lazy_mode = True\<rparr> (fromordinal 1 0) 4 [] \<lparr>stdin = [], trace = []\<rparr> =
     (Inr (), [], if weekday (fromordinal 5 0) = 4 then py_print (skipping_msg (date_str (fromordinal 5 0))) \<lparr>stdin = [], trace = []\<rparr> else \<lparr>stdin = [], trace = []\<rparr>)"
  using Reserve.reserve_day_skipped [where start = "fromordinal 1 0" and d = 4 and cur = "fromordinal 5 0"
      and a = "\<lparr>username = ''u'', password = ''p'', include_thursdays = False, lazy_mode = True\<rparr>" and srv = "\<lambda>tr q. Conn_error" and tok = "JStr ''T''" and ts = "[]" and w = "\<lparr>stdin = [], trace = []\<rparr>"]
  by (simp add: add_days_eq MAXORDINAL_def skip_day_def)

theorem reserve_day_fetched_witness:
  "add_days (fromordinal 1 0) 3 = Inr (fromordinal 4 0) \<and> \<not> skip_day \<lparr>username = ''u'', password = ''p'', include_thursdays = False, lazy_mode = True\<rparr> (weekday (fromordinal 4 0)) \<and>
   reserve_day (\<lambda>tr q. Conn_error) (JStr ''T'') \<lparr>username = ''u'', password = ''p'', include_thursdays = False, lazy_mode = True\<rparr> (fromordinal 1 0) 3 [] \<lparr>stdin = [], trace = []\<rparr> =
     (case get_reserves (\<lambda>tr q. Conn_error) (JStr ''T'') (date_str (fromordinal 4 0)) \<lparr>stdin = [], trace = []\<rparr> of
        (Inl e, w1) \<Rightarrow> (Inl e, [], w1)
      | (Inr resp, w1) \<Rightarrow> handle_reserves (JStr ''T'') \<lparr>username = ''u'', password = ''p'', include_thursdays = False, lazy_mode = True\<rparr> (date_str (fromordinal 4 0)) resp [] w1)"
  using Reserve.reserve_day_fetched [where start = "fromordinal 1 0" and d = 3 and cur = "fromordinal 4 0"
      and a = "\<lparr>username = ''u'', password = ''p'', include_thursdays = False, lazy_mode = True\<rparr>" and srv = "\<lambda>tr q. Conn_error" and tok = "JStr ''T''" and ts = "[]" and w = "\<lparr>stdin = [], trace = []\<rparr>"]
  by (simp add: add_days_eq MAXORDINAL_def skip_day_def)

theorem handle_reserves_not_ok_witness:
  "getitem_key (JObj [(''status'', JStr ''ERR''), (''message'', JStr ''closed'')]) ''status'' = Inr (JStr ''ERR'') \<and>
   \<not> py_eq_str (JStr ''ERR'') ''OK'' \<and>
   getitem_key (JObj [(''status'', JStr ''ERR''), (''message'', JStr ''closed'')]) ''message'' = Inr (JStr ''closed'') \<and>
   handle_reserves (JStr ''T'') \<lparr>username = ''u'', password = ''p'', include_thursdays = False, lazy_mode = True\<rparr> ''2024-01-01T00:00:00''
     (JObj [(''status'', JStr ''ERR''), (''message'', JStr ''closed'')]) [] \<lparr>stdin = [], trace = []\<rparr> =
     (Inr (), [], py_print (failed_reserves_msg (JStr ''closed'') ''2024-01-01T00:00:00'') \<lparr>stdin = [], trace = []\<rparr>)"
  using Reserve.handle_reserves_not_ok [where resp = "JObj [(''status'', JStr ''ERR''), (''message'', JStr ''closed'')]"
      and st = "JStr ''ERR''" and m = "JStr ''closed''" and tok = "JStr ''T''" and a = "\<lparr>username = ''u'', password = ''p'', include_thursdays = False, lazy_mode = True\<rparr>"
      and date = "''2024-01-01T00:00:00''" and ts = "[]" and w = "\<lparr>stdin = [], trace = []\<rparr>"]
  by (simp add: py_eq_str_def)

theorem handle_reserves_empty_witness:
  "getitem_key (JObj [(''status'', JStr ''OK''), (''data'', JArr [])]) ''status'' = Inr (JStr ''OK'') \<and>
   getitem_key (JObj [(''status'', JStr ''OK''), (''data'', JArr [])]) ''data'' = Inr (JArr []) \<and>
   \<not> py_truthy (JArr []) \<and>
   handle_reserves (JStr ''T'') \<lparr>username = ''u'', password = ''p'', include_thursdays = False, lazy_mode = True\<rparr> ''2024-01-01T00:00:00'' (JObj [(''status'', JStr ''OK''), (''data'', JArr [])]) [] \<lparr>stdin = [], trace = []\<rparr> =
     (Inr (), [], py_print (no_reserves_msg ''2024-01-01T00:00:00'') \<lparr>stdin = [], trace = []\<rparr>)"
  using Reserve.handle_reserves_empty [where resp = "JObj [(''status'', JStr ''OK''), (''data'', JArr [])]"
      and rl = "JArr []" and rs = "JArr []" and tok = "JStr ''T''" and a = "\<lparr>username = ''u'', password = ''p'', include_thursdays = False, lazy_mode = True\<rparr>"
      and date = "''2024-01-01T00:00:00''" and ts = "[]" and w = "\<lparr>stdin = [], trace = []\<rparr>"]
  by simp

theorem handle_reserves_lazy_witness:
  "lazy_mode \<lparr>username = ''u'', password = ''p'', include_thursdays = False, lazy_mode = True\<rparr> \<and>
   getitem_key (JObj [(''status'', JStr ''OK''), (''data'', JArr [JObj [(''reserves'', JArr [JObj [(''foodId'', JInt 7)]])]])])
     ''status'' = Inr (JStr ''OK'') \<and>
   getitem_key (JObj [(''status'', JStr ''OK''), (''data'', JArr [JObj [(''reserves'', JArr [JObj [(''foodId'', JInt 7)]])]])])
     ''data'' = Inr (JArr [JObj [(''reserves'', JArr [JObj [(''foodId'', JInt 7)]])]]) \<and>
   getitem_key (JObj [(''reserves'', JArr [JObj [(''foodId'', JInt 7)]])]) ''reserves'' = Inr (JArr [JObj [(''foodId'', JInt 7)]]) \<and>
   handle_reserves (JStr ''T'') \<lparr>username = ''u'', password = ''p'', include_thursdays = False, lazy_mode = True\<rparr> ''2024-01-01T00:00:00''
     (JObj [(''status'', JStr ''OK''), (''data'', JArr [JObj [(''reserves'', JArr [JObj [(''foodId'', JInt 7)]])]])]) [] \<lparr>stdin = [], trace = []\<rparr> =
     (Inr (), [] @ [Reserve_food (JStr ''T'') ''2024-01-01T00:00:00'' (JObj [(''foodId'', JInt 7)])], \<lparr>stdin = [], trace = []\<rparr>)"
  using Reserve.handle_reserves_lazy [where a = "\<lparr>username = ''u'', password = ''p'', include_thursdays = False, lazy_mode = True\<rparr>"
      and resp = "JObj [(''status'', JStr ''OK''), (''data'', JArr [JObj [(''reserves'', JArr [JObj [(''foodId'', JInt 7)]])]])]"
      and first_day = "JObj [(''reserves'', JArr [JObj [(''foodId'', JInt 7)]])]" and days = "[]"
      and f = "JObj [(''foodId'', JInt 7)]" and fs = "[]" and tok = "JStr ''T''"
      and date = "''2024-01-01T00:00:00''" and ts = "[]" and w = "\<lparr>stdin = [], trace = []\<rparr>"]
  by simp

theorem reserve_main_login_failure_witness:
  "(\<lambda>tr q. Response 401 (Some (JObj [(''message'', JStr ''bad password'')]))) [] (login_request ''u'' ''p'') =
     Response 401 (Some (JObj [(''message'', JStr ''bad password'')])) \<and> (401::int) \<noteq> 200 \<and>
   map_of [(''message'', JStr ''bad password'')] ''message'' = Some (JStr ''bad password'') \<and>
   reserve_main (\<lambda>tr q. Response 401 (Some (JObj [(''message'', JStr ''bad password'')]))) \<lparr>username = ''u'', password = ''p'', include_thursdays = False, lazy_mode = True\<rparr> (fromordinal 1 0) \<lparr>stdin = [], trace = []\<rparr> =
     Some (Inl (SystemExit None), \<lparr>stdin = [], trace = []\<rparr>\<lparr>trace := [] @ [Http (login_request ''u'' ''p'')
       (Response 401 (Some (JObj [(''message'', JStr ''bad password'')]))),
       Stdout (''Failed to get token: '' @ py_str (JStr ''bad password''))]\<rparr>) \<and>
   exit_status (fst (the (reserve_main (\<lambda>tr q. Response 401 (Some (JObj [(''message'', JStr ''bad password'')])))
     \<lparr>username = ''u'', password = ''p'', include_thursdays = False, lazy_mode = True\<rparr> (fromordinal 1 0) \<lparr>stdin = [], trace = []\<rparr>))) = 0"
  using Reserve.reserve_main_login_failure [where srv = "\<lambda>tr q. Response 401 (Some (JObj [(''message'', JStr ''bad password'')]))"
      and a = "\<lparr>username = ''u'', password = ''p'', include_thursdays = False, lazy_mode = True\<rparr>" and w = "\<lparr>stdin = [], trace = []\<rparr>" and c = 401 and kvs = "[(''message'', JStr ''bad password'')]"
      and m = "JStr ''bad password''" and today = "fromordinal 1 0"]
  by simp

theorem reserve_main_pacing_witness:
  "main_body (\<lambda>tr q. Response 200 (Some (JObj []))) \<lparr>username = ''u'', password = ''p'', include_thursdays = False, lazy_mode = True\<rparr> (fromordinal 1 0) \<lparr>stdin = [], trace = []\<rparr> = (Inl KeyError, [], \<lparr>stdin = [], trace = [Http (login_request ''u'' ''p'') (Response 200 (Some (JObj [])))]\<rparr>) \<and>
   \<not> is_sysexit (Inl KeyError :: unit py_result) \<and>
   (\<exists>r' w'. reserve_main (\<lambda>tr q. Response 200 (Some (JObj []))) \<lparr>username = ''u'', password = ''p'', include_thursdays = False, lazy_mode = True\<rparr> (fromordinal 1 0) \<lparr>stdin = [], trace = []\<rparr> = Some (r', w') \<and>
     slept (trace w') = slept [] + 10 * length (filter (\<lambda>x. x = Inr ()) (fst (run_all (run_reserve (\<lambda>tr q. Response 200 (Some (JObj [])))) [] \<lparr>stdin = [], trace = [Http (login_request ''u'' ''p'') (Response 200 (Some (JObj [])))]\<rparr>))))"
  using Reserve.reserve_main_pacing [where srv = "\<lambda>tr q. Response 200 (Some (JObj []))" and a = "\<lparr>username = ''u'', password = ''p'', include_thursdays = False, lazy_mode = True\<rparr>" and today = "fromordinal 1 0" and w = "\<lparr>stdin = [], trace = []\<rparr>"
      and r = "Inl KeyError" and ts = "[]" and wm = "\<lparr>stdin = [], trace = [Http (login_request ''u'' ''p'') (Response 200 (Some (JObj [])))]\<rparr>"]
  by (simp add: main_body_def get_bearer_token_def requests_call_def response_json_def)

theorem get_bearer_token_success_witness:
  "(\<lambda>tr q. Response 200 (Some (JObj [(''token'', JStr ''T'')]))) [] (login_request ''u'' ''p'') = Response 200 (Some (JObj [(''token'', JStr ''T'')])) \<and>
   map_of [(''token'', JStr ''T'')] ''token'' = Some (JStr ''T'') \<and>
   get_bearer_token (\<lambda>tr q. Response 200 (Some (JObj [(''token'', JStr ''T'')]))) ''u'' ''p'' \<lparr>stdin = [], trace = []\<rparr> =
     (Inr (JStr ''T''), \<lparr>stdin = [], trace = []\<rparr>\<lparr>trace := [] @ [Http (login_request ''u'' ''p'') (Response 200 (Some (JObj [(''token'', JStr ''T'')])))]\<rparr>)"
  using Api.get_bearer_token_success [where srv = "\<lambda>tr q. Response 200 (Some (JObj [(''token'', JStr ''T'')]))" and w = "\<lparr>stdin = [], trace = []\<rparr>"
      and u = "''u''" and p = "''p''" and kvs = "[(''token'', JStr ''T'')]" and tok = "JStr ''T''"]
  by simp

theorem choose_loop_first_accepted_witness:
  "\<not> accepts (length [JStr ''rice'', JStr ''soup'']) ''abc'' \<and> \<not> accepts (length [JStr ''rice'', JStr ''soup'']) ''7'' \<and>
   py_int '' 2'' = Inr 2 \<and> 1 \<le> (2::int) \<and> 2 \<le> int (length [JStr ''rice'', JStr ''soup'']) \<and>
   stdin \<lparr>stdin = [''abc'', ''7'', '' 2''], trace = []\<rparr> = [''abc'', ''7''] @ '' 2'' # [] \<and>
   choose_loop (JArr [JStr ''rice'', JStr ''soup'']) \<lparr>stdin = [''abc'', ''7'', '' 2''], trace = []\<rparr> =
    (Inr ([JStr ''rice'', JStr ''soup''] ! nat (2 - 1)),
     \<lparr>stdin = [''abc'', ''7'', '' 2''], trace = []\<rparr>\<lparr>stdin := [], trace := [] @
       concat (map (reject_events (length [JStr ''rice'', JStr ''soup''])) [''abc'', ''7'']) @
       [Stdin (choice_prompt (length [JStr ''rice'', JStr ''soup''])) (Some '' 2'')]\<rparr>)"
  using Selector.choose_loop_first_accepted [where items = "[JStr ''rice'', JStr ''soup'']" and bad = "[''abc'', ''7'']"
      and good = "'' 2''" and c = 2 and rest = "[]" and w = "\<lparr>stdin = [''abc'', ''7'', '' 2''], trace = []\<rparr>"]
  by (simp add: accepts_def py_int_def long_from_string_def signed_digits_def split_sign_def int_transform_def
      py_isspace_ascii_def valid_digit_run_def digit_or_us_def is_dec_digit_def MAX_STR_DIGITS_def Let_def
      digits_value_def digit_value_def)

theorem choose_loop_no_accept_witness:
  "py_len (JArr [JStr ''rice'']) = Inr 1 \<and>
   \<not> accepts 1 ''0'' \<and> \<not> accepts 1 ''x'' \<and>
   choose_loop (JArr [JStr ''rice'']) \<lparr>stdin = [''0'', ''x''], trace = []\<rparr> =
    (Inl EOFError, \<lparr>stdin = [''0'', ''x''], trace = []\<rparr>\<lparr>stdin := [], trace := [] @
       concat (map (reject_events 1) [''0'', ''x'']) @ [Stdin (choice_prompt 1) None]\<rparr>)"
  using Selector.choose_loop_no_accept [where xs = "JArr [JStr ''rice'']" and n = 1
      and w = "\<lparr>stdin = [''0'', ''x''], trace = []\<rparr>"]
  by (simp add: accepts_def py_int_def long_from_string_def signed_digits_def split_sign_def int_transform_def
      py_isspace_ascii_def valid_digit_run_def digit_or_us_def is_dec_digit_def MAX_STR_DIGITS_def Let_def
      digits_value_def digit_value_def)

theorem reserve_food_request_witness:
  "requests_of (trace (snd (reserve_food (\<lambda>tr q. Conn_error) (JStr ''T'') ''2024-01-01T00:00:00''
      (JObj [(''foodId'', JInt 7)]) \<lparr>stdin = [], trace = []\<rparr>))) =
     requests_of [] @ [reserve_request (JStr ''T'') ''2024-01-01T00:00:00'' (JInt 7)]"
  using Api.reserve_food_request [where srv = "\<lambda>tr q. Conn_error" and token = "JStr ''T''"
      and date = "''2024-01-01T00:00:00''" and food = "JObj [(''foodId'', JInt 7)]" and w = "\<lparr>stdin = [], trace = []\<rparr>"]
  by simp

theorem reserve_food_paced_witness:
  "slept (trace (snd (reserve_food (\<lambda>tr q. Response 200 None) (JStr ''T'') ''2024-01-01T00:00:00''
      (JObj [(''foodId'', JInt 7), (''food'', JStr ''rice'')]) \<lparr>stdin = [], trace = []\<rparr>))) = 10"
  using Api.reserve_food_paced [where srv = "\<lambda>tr q. Response 200 None" and token = "JStr ''T''"
      and date = "''2024-01-01T00:00:00''" and food = "JObj [(''foodId'', JInt 7), (''food'', JStr ''rice'')]" and w = "\<lparr>stdin = [], trace = []\<rparr>"]
  by (simp add: reserve_food_def requests_call_def)

theorem reserve_loop_wf_witness:
  "main_body (\<lambda>tr q. Response 200 (Some (JObj []))) \<lparr>username = ''u'', password = ''p'', include_thursdays = False, lazy_mode = True\<rparr> (fromordinal 1 0) \<lparr>stdin = [], trace = []\<rparr> = (Inl KeyError, [], \<lparr>stdin = [], trace = [Http (login_request ''u'' ''p'') (Response 200 (Some (JObj [])))]\<rparr>) \<and>
   loop_reachable (run_reserve (\<lambda>tr q. Response 200 (Some (JObj [])))) (Inl KeyError) [] \<lparr>stdin = [], trace = [Http (login_request ''u'' ''p'') (Response 200 (Some (JObj [])))]\<rparr> (main_started (Inl KeyError) [] \<lparr>stdin = [], trace = [Http (login_request ''u'' ''p'') (Response 200 (Some (JObj [])))]\<rparr>) \<and>
   wf_loop ([] :: reserve_task list) (main_started (Inl KeyError) [] \<lparr>stdin = [], trace = [Http (login_request ''u'' ''p'') (Response 200 (Some (JObj [])))]\<rparr>) \<and>
   set (map task_date (tasks (main_started (Inl KeyError) [] \<lparr>stdin = [], trace = [Http (login_request ''u'' ''p'') (Response 200 (Some (JObj [])))]\<rparr>))) \<subseteq> set (fetched_dates \<lparr>username = ''u'', password = ''p'', include_thursdays = False, lazy_mode = True\<rparr> (fromordinal 1 0) [0..<HORIZON])"
  using Reserve.reserve_loop_wf [where srv = "\<lambda>tr q. Response 200 (Some (JObj []))" and a = "\<lparr>username = ''u'', password = ''p'', include_thursdays = False, lazy_mode = True\<rparr>" and today = "fromordinal 1 0"
      and w = "\<lparr>stdin = [], trace = []\<rparr>" and r = "Inl KeyError" and ts = "[]" and wm = "\<lparr>stdin = [], trace = [Http (login_request ''u'' ''p'') (Response 200 (Some (JObj [])))]\<rparr>" and s = "main_started (Inl KeyError) [] \<lparr>stdin = [], trace = [Http (login_request ''u'' ''p'') (Response 200 (Some (JObj [])))]\<rparr>"]
  by (simp add: main_body_def get_bearer_token_def requests_call_def response_json_def loop_reachable.start)

theorem choose_food_answer_one_witness:
  "first_reserves (JArr [JObj [(''reserves'', JArr [JObj [(''food'', JStr ''rice'')]])]]) = Inr (JArr [JObj [(''food'', JStr ''rice'')]]) \<and>
   list_all (\<lambda>x. \<exists>n. getitem_key x ''food'' = Inr n) [JObj [(''food'', JStr ''rice'')]] \<and>
   stdin \<lparr>stdin = [''1''], trace = []\<rparr> = ''1'' # [] \<and>
   fst (choose_food False (JArr [JObj [(''reserves'', JArr [JObj [(''food'', JStr ''rice'')]])]]) \<lparr>stdin = [''1''], trace = []\<rparr>) =
     fst (choose_food True (JArr [JObj [(''reserves'', JArr [JObj [(''food'', JStr ''rice'')]])]]) \<lparr>stdin = [''1''], trace = []\<rparr>) \<and>
   fst (choose_food True (JArr [JObj [(''reserves'', JArr [JObj [(''food'', JStr ''rice'')]])]]) \<lparr>stdin = [''1''], trace = []\<rparr>) = Inr (JObj [(''food'', JStr ''rice'')]) \<and>
   stdin (snd (choose_food False (JArr [JObj [(''reserves'', JArr [JObj [(''food'', JStr ''rice'')]])]]) \<lparr>stdin = [''1''], trace = []\<rparr>)) = [] \<and>
   snd (choose_food True (JArr [JObj [(''reserves'', JArr [JObj [(''food'', JStr ''rice'')]])]]) \<lparr>stdin = [''1''], trace = []\<rparr>) = \<lparr>stdin = [''1''], trace = []\<rparr>"
  using Reserve.choose_food_answer_one [where rl = "JArr [JObj [(''reserves'', JArr [JObj [(''food'', JStr ''rice'')]])]]"
      and f = "JObj [(''food'', JStr ''rice'')]" and fs = "[]" and w = "\<lparr>stdin = [''1''], trace = []\<rparr>" and rest = "[]"]
  by (simp add: first_reserves_def)

theorem parse_args_render_witness:
  "parse_args (render_args \<lparr>username = ''u'', password = ''-p'', include_thursdays = True, lazy_mode = False\<rparr>) = Inr \<lparr>username = ''u'', password = ''-p'', include_thursdays = True, lazy_mode = False\<rparr> \<and>
   reserve_entry (\<lambda>tr q. Conn_error) (render_args \<lparr>username = ''u'', password = ''-p'', include_thursdays = True, lazy_mode = False\<rparr>) (fromordinal 1 0) \<lparr>stdin = [], trace = []\<rparr> =
     reserve_main (\<lambda>tr q. Conn_error) \<lparr>username = ''u'', password = ''-p'', include_thursdays = True, lazy_mode = False\<rparr> (fromordinal 1 0) \<lparr>stdin = [], trace = []\<rparr>"
  by (rule Cli.parse_args_render)

theorem parse_args_override_witness:
  "parse_args [''--username'', ''u'', ''--password'', ''p''] = Inr \<lparr>username = ''u'', password = ''p'', include_thursdays = False, lazy_mode = False\<rparr> \<and>
   parse_args ([''--username'', ''u'', ''--password'', ''p''] @ [''--username='' @ ''v'', ''--lazy-mode'']) = Inr (\<lparr>username = ''u'', password = ''p'', include_thursdays = False, lazy_mode = False\<rparr>\<lparr>username := ''v'', lazy_mode := True\<rparr>)"
  using Cli.parse_args_override [where argv = "[''--username'', ''u'', ''--password'', ''p'']" and a = "\<lparr>username = ''u'', password = ''p'', include_thursdays = False, lazy_mode = False\<rparr>" and u = "''v''"]
  by (simp add: parse_args_def parse_optional_def cli_options_def)

theorem parse_args_required_witness:
  "parse_args [''--username'', ''u'', ''--password'', ''p''] = Inr \<lparr>username = ''u'', password = ''p'', include_thursdays = False, lazy_mode = False\<rparr> \<and>
   (\<exists>t \<in> set [''--username'', ''u'', ''--password'', ''p'']. prefix ''--u'' t) \<and> (\<exists>t \<in> set [''--username'', ''u'', ''--password'', ''p'']. prefix ''--p'' t)"
  using Cli.parse_args_required [where argv = "[''--username'', ''u'', ''--password'', ''p'']" and a = "\<lparr>username = ''u'', password = ''p'', include_thursdays = False, lazy_mode = False\<rparr>"]
  by (simp add: parse_args_def parse_optional_def cli_options_def)

theorem reserve_entry_dash_password_witness:
  "hd ''-x'' = CHR ''-'' \<and> 2 \<le> length ''-x'' \<and> \<not> is_negative_number ''-x'' \<and> CHR '' '' \<notin> set ''-x'' \<and>
   reserve_entry (\<lambda>tr q. Conn_error) [''--username'', ''u'', ''--password'', ''-x''] (fromordinal 1 0) \<lparr>stdin = [], trace = []\<rparr> =
     Some (Inl (SystemExit (Some 2)), \<lparr>stdin = [], trace = []\<rparr>) \<and>
   reserve_entry (\<lambda>tr q. Conn_error) [''--username='' @ ''u'', ''--password='' @ ''-x''] (fromordinal 1 0) \<lparr>stdin = [], trace = []\<rparr> =
     reserve_main (\<lambda>tr q. Conn_error) \<lparr>username = ''u'', password = ''-x'', include_thursdays = False, lazy_mode = False\<rparr> (fromordinal 1 0) \<lparr>stdin = [], trace = []\<rparr>"
  using Cli.reserve_entry_dash_password [where p = "''-x''" and u = "''u''" and srv = "\<lambda>tr q. Conn_error"
      and today = "fromordinal 1 0" and w = "\<lparr>stdin = [], trace = []\<rparr>"]
  by (simp add: is_negative_number_def is_dec_digit_def)

theorem reserve_entry_abbrev_witness:
  "hd ''u'' \<noteq> CHR ''-'' \<and> hd ''p'' \<noteq> CHR ''-'' \<and>
   reserve_entry (\<lambda>tr q. Conn_error) [''--u'', ''u'', ''--p'', ''p'', ''--i'', ''--l''] (fromordinal 1 0) \<lparr>stdin = [], trace = []\<rparr> =
     reserve_main (\<lambda>tr q. Conn_error) \<lparr>username = ''u'', password = ''p'', include_thursdays = True, lazy_mode = True\<rparr> (fromordinal 1 0) \<lparr>stdin = [], trace = []\<rparr>"
  using Cli.reserve_entry_abbrev [where u = "''u''" and p = "''p''" and srv = "\<lambda>tr q. Conn_error"
      and today = "fromordinal 1 0" and w = "\<lparr>stdin = [], trace = []\<rparr>"]
  by simp

theorem main_body_task_bound_witness:
  "length (fst (snd (main_body (\<lambda>tr q. Conn_error) \<lparr>username = ''u'', password = ''p'', include_thursdays = False, lazy_mode = True\<rparr>
      (fromordinal 1 0) \<lparr>stdin = [], trace = []\<rparr>))) \<le>
     length (fetched_dates \<lparr>username = ''u'', password = ''p'', include_thursdays = False, lazy_mode = True\<rparr> (fromordinal 1 0) [0..<HORIZON]) \<and>
   length (fetched_dates \<lparr>username = ''u'', password = ''p'', include_thursdays = False, lazy_mode = True\<rparr> (fromordinal 1 0) [0..<HORIZON]) \<le> HORIZON"
  by (rule Reserve.main_body_task_bound)

theorem main_fetch_count_from_monday_witness:
  "1 \<le> toordinal (fromordinal 1 0) \<and> weekday (fromordinal 1 0) = 0 \<and>
   main_body (\<lambda>tr q. Response 200 (Some (JObj []))) \<lparr>username = ''u'', password = ''p'', include_thursdays = False, lazy_mode = True\<rparr> (fromordinal 1 0) \<lparr>stdin = [], trace = []\<rparr> = (Inl KeyError, [], \<lparr>stdin = [], trace = [Http (login_request ''u'' ''p'') (Response 200 (Some (JObj [])))]\<rparr>) \<and>
   (\<exists>es. trace \<lparr>stdin = [], trace = [Http (login_request ''u'' ''p'') (Response 200 (Some (JObj [])))]\<rparr> = trace \<lparr>stdin = [], trace = []\<rparr> @ es \<and>
     length (filter (\<lambda>q. req_method q = GET) (requests_of es)) \<le> (if include_thursdays \<lparr>username = ''u'', password = ''p'', include_thursdays = False, lazy_mode = True\<rparr> then 31 else 26) \<and>
     (isl (Inl KeyError :: unit py_result) \<or>
      length (filter (\<lambda>q. req_method q = GET) (requests_of es)) = (if include_thursdays \<lparr>username = ''u'', password = ''p'', include_thursdays = False, lazy_mode = True\<rparr> then 31 else 26)))"
  using Reserve.main_fetch_count_from_monday [where today = "fromordinal 1 0" and a = "\<lparr>username = ''u'', password = ''p'', include_thursdays = False, lazy_mode = True\<rparr>"
      and srv = "\<lambda>tr q. Response 200 (Some (JObj []))" and w = "\<lparr>stdin = [], trace = []\<rparr>" and r = "Inl KeyError" and ts = "[]" and w' = "\<lparr>stdin = [], trace = [Http (login_request ''u'' ''p'') (Response 200 (Some (JObj [])))]\<rparr>"]
  by (simp add: main_body_def get_bearer_token_def requests_call_def response_json_def)

theorem choose_loop_rounds_witness:
  "choose_loop (JArr [JStr ''rice'']) \<lparr>stdin = [''0'', ''1''], trace = []\<rparr> = (Inr (JStr ''rice''), \<lparr>stdin = [], trace = reject_events 1 ''0'' @ [Stdin (choice_prompt 1) (Some ''1'')]\<rparr>) \<and>
   (\<exists>es. trace \<lparr>stdin = [], trace = reject_events 1 ''0'' @ [Stdin (choice_prompt 1) (Some ''1'')]\<rparr> = trace \<lparr>stdin = [''0'', ''1''], trace = []\<rparr> @ es \<and> suffix (stdin \<lparr>stdin = [], trace = reject_events 1 ''0'' @ [Stdin (choice_prompt 1) (Some ''1'')]\<rparr>) (stdin \<lparr>stdin = [''0'', ''1''], trace = []\<rparr>) \<and>
     length (prompts_of es) \<le> Suc (length (stdin \<lparr>stdin = [''0'', ''1''], trace = []\<rparr>) - length (stdin \<lparr>stdin = [], trace = reject_events 1 ''0'' @ [Stdin (choice_prompt 1) (Some ''1'')]\<rparr>)) \<and>
     (\<exists>n pre line c. py_len (JArr [JStr ''rice'']) = Inr n \<and> list_all (\<lambda>l. \<not> accepts n l) pre \<and>
        stdin \<lparr>stdin = [''0'', ''1''], trace = []\<rparr> = pre @ line # stdin \<lparr>stdin = [], trace = reject_events 1 ''0'' @ [Stdin (choice_prompt 1) (Some ''1'')]\<rparr> \<and>
        py_int line = Inr c \<and> 1 \<le> c \<and> c \<le> int n \<and> getitem_idx (JArr [JStr ''rice'']) (c - 1) = Inr (JStr ''rice'')))"
proof -
  have run: "choose_loop (JArr [JStr ''rice'']) \<lparr>stdin = [''0'', ''1''], trace = []\<rparr> = (Inr (JStr ''rice''), \<lparr>stdin = [], trace = reject_events 1 ''0'' @ [Stdin (choice_prompt 1) (Some ''1'')]\<rparr>)"
    by (simp add: choose_loop.simps reject_events_def reject_msg_def py_print_def accepts_def py_int_def long_from_string_def signed_digits_def split_sign_def int_transform_def
      py_isspace_ascii_def valid_digit_run_def digit_or_us_def is_dec_digit_def MAX_STR_DIGITS_def Let_def
      digits_value_def digit_value_def)
  show ?thesis
    using Selector.choose_loop_rounds [where xs = "JArr [JStr ''rice'']" and w = "\<lparr>stdin = [''0'', ''1''], trace = []\<rparr>" and r = "Inr (JStr ''rice'')" and w' = "\<lparr>stdin = [], trace = reject_events 1 ''0'' @ [Stdin (choice_prompt 1) (Some ''1'')]\<rparr>", OF run] run
    by simp
qed

end
